(* ===== verification/Prelude.thy ===== *)
theory Prelude
  imports Main "HOL-Library.Word" "HOL-Library.Sublist" "HOL-Library.AList"
begin

text \<open>
  Shared vocabulary of the development: the result type of fallible code, the machine-integer
  abbreviations, the collections of simplification and introduction rules the component
  theories extend, generic lemmas on lists, association lists and options, and the locale of
  transition systems with an inductive invariant that every state machine of the library
  instantiates.
\<close>

section \<open>Types\<close>

text \<open>
  Rust's \<open>Result<T, E>\<close> is the sum \<open>'e + 'a\<close> (\<^const>\<open>Inl\<close> is \<open>Err\<close>,
  \<^const>\<open>Inr\<close> is \<open>Ok\<close>); \<open>Option<T>\<close> is \<open>'a option\<close>. A \<open>String\<close> or
  \<open>&str\<close> is the list of its UTF-8 bytes.
\<close>

type_synonym ('e, 'a) result = "'e + 'a"
type_synonym u8 = "8 word"
type_synonym u16 = "16 word"
type_synonym u32 = "32 word"
type_synonym u64 = "64 word"

definition is_ok :: "'e + 'a \<Rightarrow> bool" where
  "is_ok r = (case r of Inl _ \<Rightarrow> False | Inr _ \<Rightarrow> True)"

lemma is_ok_simps [simp]: "is_ok (Inr x)" "\<not> is_ok (Inl e)"
  by (simp_all add: is_ok_def)

lemma is_ok_iff: "is_ok r \<longleftrightarrow> (\<exists>x. r = Inr x)"
  by (cases r) auto

named_theorems room_simps \<open>unfolding rules of the room manager's operations\<close>
named_theorems conn_simps \<open>unfolding rules of the connection handler's operations\<close>
named_theorems ffi_simps \<open>unfolding rules of the C-ABI bridge's operations\<close>

section \<open>Lists\<close>

text \<open>\<open>position\<close> of a predicate and \<open>Vec::remove\<close> at that position.\<close>

fun position :: "('a \<Rightarrow> bool) \<Rightarrow> 'a list \<Rightarrow> nat option" where
  "position P [] = None"
| "position P (x # xs) = (if P x then Some 0 else map_option Suc (position P xs))"

definition remove_at :: "nat \<Rightarrow> 'a list \<Rightarrow> 'a list" where
  "remove_at i xs = take i xs @ drop (Suc i) xs"

lemma position_None_iff: "position P xs = None \<longleftrightarrow> (\<forall>x\<in>set xs. \<not> P x)"
  by (induction xs) auto

lemma position_SomeD:
  "position P xs = Some i \<Longrightarrow> i < length xs \<and> P (xs ! i) \<and> (\<forall>j<i. \<not> P (xs ! j))"
proof (induction xs arbitrary: i)
  case Nil
  then show ?case by simp
next
  case (Cons x xs)
  show ?case
  proof (cases "P x")
    case True
    with Cons.prems show ?thesis by simp
  next
    case False
    with Cons.prems obtain k where k: "position P xs = Some k" "i = Suc k" by auto
    with Cons.IH [OF k(1)] False show ?thesis
      by (auto simp: nth_Cons split: nat.splits)
  qed
qed

lemma length_remove_at: "i < length xs \<Longrightarrow> length (remove_at i xs) = length xs - 1"
  by (simp add: remove_at_def)

text \<open>
  On a list whose keys are distinct, removing at the position of a key is filtering the key
  out.
\<close>

lemma remove_position_eq_filter:
  assumes "distinct (map f xs)"
  shows "(case position (\<lambda>x. f x = k) xs of None \<Rightarrow> xs | Some i \<Rightarrow> remove_at i xs)
       = filter (\<lambda>x. f x \<noteq> k) xs"
  using assms
proof (induction xs)
  case Nil
  then show ?case by simp
next
  case (Cons x xs)
  then have IH: "(case position (\<lambda>x. f x = k) xs of None \<Rightarrow> xs | Some i \<Rightarrow> remove_at i xs)
      = filter (\<lambda>x. f x \<noteq> k) xs" by simp
  show ?case
  proof (cases "f x = k")
    case True
    then have "filter (\<lambda>x. f x \<noteq> k) xs = xs"
      using Cons.prems by (auto simp: filter_id_conv image_iff)
    with True show ?thesis by (simp add: remove_at_def)
  next
    case False
    with IH show ?thesis
      by (auto simp: remove_at_def split: option.splits)
  qed
qed

lemma distinct_map_filter_snoc:
  "distinct (map f xs) \<Longrightarrow> distinct (map f (filter (\<lambda>x. f x \<noteq> f y) xs @ [y]))"
  by (auto simp: distinct_map_filter)

lemma find_append:
  "List.find P (xs @ ys) = (case List.find P xs of None \<Rightarrow> List.find P ys | Some x \<Rightarrow> Some x)"
  by (induction xs) auto

lemma find_filter:
  "List.find P (filter Q xs) = List.find (\<lambda>x. Q x \<and> P x) xs"
  by (induction xs) auto

lemma find_SomeD: "List.find P xs = Some x \<Longrightarrow> x \<in> set xs \<and> P x"
  by (induction xs) (auto split: if_splits)

lemma find_Some_distinct:
  "distinct (map f xs) \<Longrightarrow> x \<in> set xs \<Longrightarrow> List.find (\<lambda>y. f y = f x) xs = Some x"
  by (induction xs) (auto simp: image_iff)

lemma find_key_None_iff: "List.find (\<lambda>y. f y = k) xs = None \<longleftrightarrow> k \<notin> f ` set xs"
  by (auto simp: find_None_iff)

lemma count_list_distinct: "distinct xs \<Longrightarrow> count_list xs x = (if x \<in> set xs then 1 else 0)"
  by (induction xs) auto

section \<open>Association lists\<close>

text \<open>
  A hash map whose iteration order is unspecified is an association list with distinct keys;
  its order stands for one possible iteration order.
\<close>

lemma set_map_fst_update: "set (map fst (AList.update k v m)) = insert k (fst ` set m)"
  by (simp add: dom_update)

lemma length_update_present: "k \<in> fst ` set m \<Longrightarrow> length (AList.update k v m) = length m"
  by (induction m) auto

lemma length_update_absent: "k \<notin> fst ` set m \<Longrightarrow> length (AList.update k v m) = Suc (length m)"
  by (induction m) auto

lemma alist_all_iff:
  "distinct (map fst m) \<Longrightarrow> (\<forall>r\<in>set m. P (snd r)) \<longleftrightarrow> (\<forall>k v. map_of m k = Some v \<longrightarrow> P v)"
  by (metis eq_snd_iff map_of_SomeD map_of_is_SomeI prod.collapse)

section \<open>Transition systems with an invariant\<close>

text \<open>
  Every state machine of the library is a start predicate and a step relation. The reachable
  states are the least set closed under steps; an inductive invariant holds in all of them.
\<close>

inductive reachable :: "('s \<Rightarrow> bool) \<Rightarrow> ('s \<Rightarrow> 's \<Rightarrow> bool) \<Rightarrow> 's \<Rightarrow> bool"
  for init :: "'s \<Rightarrow> bool" and step :: "'s \<Rightarrow> 's \<Rightarrow> bool" where
  reach_init: "init s \<Longrightarrow> reachable init step s"
| reach_step: "reachable init step s \<Longrightarrow> step s t \<Longrightarrow> reachable init step t"

locale invariant_system =
  fixes init :: "'s \<Rightarrow> bool"
    and step :: "'s \<Rightarrow> 's \<Rightarrow> bool"
    and inv :: "'s \<Rightarrow> bool"
  assumes inv_init: "init s \<Longrightarrow> inv s"
    and inv_step: "inv s \<Longrightarrow> step s t \<Longrightarrow> inv t"
begin

lemma inv_reachable: "reachable init step s \<Longrightarrow> inv s"
  by (induction rule: reachable.induct) (auto intro: inv_init inv_step)

lemma inv_steps: "step\<^sup>*\<^sup>* s t \<Longrightarrow> inv s \<Longrightarrow> inv t"
  by (induction rule: rtranclp_induct) (auto intro: inv_step)

end

text \<open>
  A system that does, through \<open>view\<close>, only what an abstract system can do: each step is one of
  the abstract system or invisible to it.
\<close>

locale simulated_system = invariant_system init step inv
  for init :: "'s \<Rightarrow> bool" and step :: "'s \<Rightarrow> 's \<Rightarrow> bool" and inv :: "'s \<Rightarrow> bool" +
  fixes ainit :: "'a \<Rightarrow> bool"
    and astep :: "'a \<Rightarrow> 'a \<Rightarrow> bool"
    and view :: "'s \<Rightarrow> 'a"
  assumes view_init: "init s \<Longrightarrow> ainit (view s)"
    and view_step: "inv s \<Longrightarrow> step s t \<Longrightarrow> view t = view s \<or> astep (view s) (view t)"
begin

lemma view_reachable: "reachable init step s \<Longrightarrow> reachable ainit astep (view s)"
proof (induction rule: reachable.induct)
  case (reach_init s)
  then show ?case by (intro reachable.reach_init view_init)
next
  case (reach_step s t)
  from view_step [OF inv_reachable [OF reach_step(1)] reach_step(2)] reach_step(3)
  show ?case by (auto intro: reachable.reach_step)
qed

end

lemma reachable_steps:
  "step\<^sup>*\<^sup>* s t \<Longrightarrow> reachable init step s \<Longrightarrow> reachable init step t"
  by (induction rule: rtranclp_induct) (auto intro: reachable.reach_step)

end
