(* ===== verification/Rust_Std.thy ===== *)
theory Rust_Std
  imports Prelude
begin

text \<open>
  The parts of Rust's standard library the program uses on strings: decimal formatting and
  integer parsing, \<open>str::split\<close>, \<open>join\<close>, \<open>contains\<close>, \<open>trim\<close>, ASCII
  classification and case folding, character boundaries and C strings. A string is its
  UTF-8 byte sequence, so \<open>len()\<close> is \<^const>\<open>length\<close>; the section on UTF-8 shows that
  the byte-wise definitions of filtering and classifying by ASCII characters agree with
  Rust's character-wise ones.
\<close>

section \<open>Bytes and ASCII classes\<close>

abbreviation byte :: "char \<Rightarrow> nat" where
  "byte c \<equiv> of_char c"

definition is_ascii_digit :: "char \<Rightarrow> bool" where
  "is_ascii_digit c \<longleftrightarrow> 48 \<le> byte c \<and> byte c \<le> 57"

definition is_ascii_upper :: "char \<Rightarrow> bool" where
  "is_ascii_upper c \<longleftrightarrow> 65 \<le> byte c \<and> byte c \<le> 90"

definition is_ascii_lower :: "char \<Rightarrow> bool" where
  "is_ascii_lower c \<longleftrightarrow> 97 \<le> byte c \<and> byte c \<le> 122"

definition is_ascii_alphanumeric :: "char \<Rightarrow> bool" where
  "is_ascii_alphanumeric c \<longleftrightarrow> is_ascii_digit c \<or> is_ascii_upper c \<or> is_ascii_lower c"

definition is_ascii_hexdigit :: "char \<Rightarrow> bool" where
  "is_ascii_hexdigit c \<longleftrightarrow>
     is_ascii_digit c \<or> (65 \<le> byte c \<and> byte c \<le> 70) \<or> (97 \<le> byte c \<and> byte c \<le> 102)"

definition to_ascii_lower :: "char \<Rightarrow> char" where
  "to_ascii_lower c = (if is_ascii_upper c then char_of (byte c + 32) else c)"

definition to_ascii_lowercase :: "string \<Rightarrow> string" where
  "to_ascii_lowercase s = map to_ascii_lower s"

definition eq_ignore_ascii_case :: "string \<Rightarrow> string \<Rightarrow> bool" where
  "eq_ignore_ascii_case s t \<longleftrightarrow> to_ascii_lowercase s = to_ascii_lowercase t"

lemmas ascii_defs =
  is_ascii_digit_def is_ascii_upper_def is_ascii_lower_def is_ascii_alphanumeric_def
  is_ascii_hexdigit_def

lemma alphanumeric_not_hyphen: "is_ascii_alphanumeric c \<Longrightarrow> c \<noteq> CHR ''-''"
  by (auto simp: ascii_defs)

section \<open>Decimal numbers\<close>

definition digit_char :: "nat \<Rightarrow> char" where
  "digit_char d = char_of (48 + d)"

fun show_nat :: "nat \<Rightarrow> string" where
  "show_nat n = (if n < 10 then [digit_char n] else show_nat (n div 10) @ [digit_char (n mod 10)])"

declare show_nat.simps [simp del]

text \<open>
  Rust's \<open>parse::<uN>()\<close>: an optional leading \<open>+\<close>, then at least one decimal digit,
  each accumulated with an overflow check against the type's maximum.
\<close>

fun parse_digits :: "nat \<Rightarrow> nat \<Rightarrow> string \<Rightarrow> nat option" where
  "parse_digits mx acc [] = Some acc"
| "parse_digits mx acc (c # cs) =
     (if is_ascii_digit c then
        let v = acc * 10 + (byte c - 48)
        in if v \<le> mx then parse_digits mx v cs else None
      else None)"

definition parse_unsigned :: "nat \<Rightarrow> string \<Rightarrow> nat option" where
  "parse_unsigned mx s =
     (case s of [] \<Rightarrow> None
      | c # cs \<Rightarrow> (if c = CHR ''+'' then (if cs = [] then None else parse_digits mx 0 cs)
                  else parse_digits mx 0 s))"

definition u8_max :: nat where "u8_max = 255"
definition u16_max :: nat where "u16_max = 65535"
definition u32_max :: nat where "u32_max = 4294967295"
definition usize_max :: nat where "usize_max = 18446744073709551615"

lemma digit_char_props:
  "d < 10 \<Longrightarrow> is_ascii_digit (digit_char d) \<and> byte (digit_char d) = 48 + d"
  by (simp add: digit_char_def is_ascii_digit_def)

lemma show_nat_digits: "c \<in> set (show_nat n) \<Longrightarrow> is_ascii_digit c"
proof (induction n rule: show_nat.induct)
  case (1 n)
  then show ?case
    by (cases "n < 10") (auto simp: show_nat.simps [of n] digit_char_props)
qed

lemma show_nat_nonempty: "show_nat n \<noteq> []"
  by (subst show_nat.simps) simp

lemma parse_digits_append:
  "parse_digits mx acc (s @ t) = Option.bind (parse_digits mx acc s) (\<lambda>v. parse_digits mx v t)"
  by (induction s arbitrary: acc) (auto simp: Let_def)

lemma parse_digits_show_nat: "n \<le> mx \<Longrightarrow> parse_digits mx 0 (show_nat n) = Some n"
proof (induction n rule: show_nat.induct)
  case (1 n)
  show ?case
  proof (cases "n < 10")
    case True
    with "1.prems" show ?thesis
      by (simp add: show_nat.simps [of n] digit_char_props)
  next
    case False
    with "1.prems" have "parse_digits mx 0 (show_nat (n div 10)) = Some (n div 10)"
      by (intro "1.IH") auto
    with False "1.prems" show ?thesis
      by (simp add: show_nat.simps [of n] parse_digits_append digit_char_props)
  qed
qed

lemma parse_show_nat: "n \<le> mx \<Longrightarrow> parse_unsigned mx (show_nat n) = Some n"
proof -
  assume le: "n \<le> mx"
  obtain c cs where s: "show_nat n = c # cs"
    using show_nat_nonempty [of n] by (cases "show_nat n") auto
  have "is_ascii_digit c" using show_nat_digits [of c n] s by simp
  then have "c \<noteq> CHR ''+''" by (auto simp: is_ascii_digit_def)
  with s parse_digits_show_nat [OF le] show ?thesis
    by (simp add: parse_unsigned_def)
qed

lemma parse_digits_le: "parse_digits mx acc s = Some n \<Longrightarrow> acc \<le> mx \<Longrightarrow> n \<le> mx"
  by (induction s arbitrary: acc) (auto simp: Let_def split: if_splits)

lemma parse_unsigned_le: "parse_unsigned mx s = Some n \<Longrightarrow> n \<le> mx"
  using parse_digits_le [of mx 0 s n] parse_digits_le [of mx 0 "tl s" n]
  by (auto simp: parse_unsigned_def simp del: parse_digits.simps split: list.splits if_splits)

lemma show_nat_inj: "show_nat m = show_nat n \<longleftrightarrow> m = n"
  by (metis max.cobounded1 max.cobounded2 option.inject parse_show_nat)

section \<open>Splitting, joining, searching\<close>

fun split_on :: "char \<Rightarrow> string \<Rightarrow> string list" where
  "split_on d [] = [[]]"
| "split_on d (c # cs) =
     (if c = d then [] # split_on d cs
      else (case split_on d cs of [] \<Rightarrow> [[c]] | w # ws \<Rightarrow> (c # w) # ws))"

fun join_with :: "string \<Rightarrow> string list \<Rightarrow> string" where
  "join_with sep [] = []"
| "join_with sep [x] = x"
| "join_with sep (x # y # ys) = x @ sep @ join_with sep (y # ys)"

fun contains :: "string \<Rightarrow> string \<Rightarrow> bool" where
  "contains pat [] = (pat = [])"
| "contains pat (c # cs) = (prefix pat (c # cs) \<or> contains pat cs)"

lemma contains_iff_sublist: "contains pat s \<longleftrightarrow> sublist pat s"
  by (induction s) (auto simp: sublist_Cons_right)

lemma split_on_nonempty: "split_on d s \<noteq> []"
  by (induction s) (auto split: list.splits)

lemma split_on_no_sep: "d \<notin> set s \<Longrightarrow> split_on d s = [s]"
  by (induction s) auto

lemma split_on_append_sep: "d \<notin> set s \<Longrightarrow> split_on d (s @ d # t) = s # split_on d t"
  by (induction s) auto

lemma split_on_no_sep_elem: "w \<in> set (split_on d s) \<Longrightarrow> d \<notin> set w"
proof (induction s arbitrary: w)
  case Nil
  then show ?case by simp
next
  case (Cons c cs)
  then show ?case
    by (cases "split_on d cs") (auto split: if_splits)
qed

lemma split_join:
  "xs \<noteq> [] \<Longrightarrow> (\<And>x. x \<in> set xs \<Longrightarrow> d \<notin> set x) \<Longrightarrow> split_on d (join_with [d] xs) = xs"
  by (induction "[d]" xs rule: join_with.induct) (auto simp: split_on_no_sep split_on_append_sep)

lemma set_join_with: "set (join_with sep xs) \<subseteq> set sep \<union> (\<Union>x\<in>set xs. set x)"
  by (induction sep xs rule: join_with.induct) auto

lemma join_split: "join_with [d] (split_on d s) = s"
proof (induction s)
  case Nil
  then show ?case by simp
next
  case (Cons c cs)
  obtain w ws where s: "split_on d cs = w # ws"
    using split_on_nonempty [of d cs] by (cases "split_on d cs") auto
  with Cons show ?case by (cases ws) auto
qed

section \<open>Trimming\<close>

text \<open>
  \<open>str::trim\<close> removes leading and trailing characters with the Unicode property
  \<open>White_Space\<close>; here are their UTF-8 encodings. On well-formed UTF-8 a character starts
  with the bytes of an encoding exactly when it is that character.
\<close>

definition white_space :: "string list" where
  "white_space = map (map char_of)
     ([[9], [10], [11], [12], [13], [32], [194, 133], [194, 160], [225, 154, 128],
       [226, 128, 168], [226, 128, 169], [226, 128, 175], [226, 129, 159], [227, 128, 128],
       [226, 128, 128], [226, 128, 129], [226, 128, 130], [226, 128, 131], [226, 128, 132],
       [226, 128, 133], [226, 128, 134], [226, 128, 135], [226, 128, 136], [226, 128, 137],
       [226, 128, 138]] :: nat list list)"

text \<open>Removing prefixes drawn from a list of non-empty words, as long as one matches.\<close>

function strip_start :: "string list \<Rightarrow> string \<Rightarrow> string" where
  "strip_start ws s =
     (case List.find (\<lambda>w. w \<noteq> [] \<and> prefix w s) ws of
        None \<Rightarrow> s
      | Some w \<Rightarrow> strip_start ws (drop (length w) s))"
  by pat_completeness auto
termination
proof (relation "measure (\<lambda>(ws, s). length s)")
  fix ws :: "string list" and s w :: string
  assume "List.find (\<lambda>w. w \<noteq> [] \<and> prefix w s) ws = Some w"
  then have "w \<noteq> []" "prefix w s" by (auto dest: find_SomeD)
  then show "((ws, drop (length w) s), (ws, s)) \<in> measure (\<lambda>(ws, s). length s)"
    by (auto simp: prefix_def)
qed simp

declare strip_start.simps [simp del]

definition trim_start :: "string \<Rightarrow> string" where
  "trim_start s = strip_start white_space s"

definition trim_end :: "string \<Rightarrow> string" where
  "trim_end s = rev (strip_start (map rev white_space) (rev s))"

definition trim :: "string \<Rightarrow> string" where
  "trim s = trim_end (trim_start s)"

lemma strip_start_suffix: "suffix (strip_start ws s) s"
proof (induction ws s rule: strip_start.induct)
  case (1 ws s)
  show ?case
  proof (cases "List.find (\<lambda>w. w \<noteq> [] \<and> prefix w s) ws")
    case None
    then show ?thesis by (simp add: strip_start.simps)
  next
    case (Some w)
    from "1.IH" [OF Some] have "suffix (strip_start ws (drop (length w) s)) s"
      by (meson suffix_drop suffix_order.trans)
    with Some show ?thesis by (simp add: strip_start.simps [of ws s])
  qed
qed

lemma strip_start_stops:
  "w \<in> set ws \<Longrightarrow> w \<noteq> [] \<Longrightarrow> \<not> prefix w (strip_start ws s)"
proof (induction ws s rule: strip_start.induct)
  case (1 ws s)
  show ?case
  proof (cases "List.find (\<lambda>w. w \<noteq> [] \<and> prefix w s) ws")
    case None
    then have "strip_start ws s = s" by (simp add: strip_start.simps)
    with None "1.prems" show ?thesis by (auto simp: find_None_iff)
  next
    case (Some v)
    from "1.IH" [OF Some] "1.prems" Some show ?thesis
      by (simp add: strip_start.simps [of ws s])
  qed
qed

lemma strip_start_id:
  "(\<And>w. w \<in> set ws \<Longrightarrow> w \<noteq> [] \<Longrightarrow> \<not> prefix w s) \<Longrightarrow> strip_start ws s = s"
proof -
  assume "\<And>w. w \<in> set ws \<Longrightarrow> w \<noteq> [] \<Longrightarrow> \<not> prefix w s"
  then have "List.find (\<lambda>w. w \<noteq> [] \<and> prefix w s) ws = None"
    by (auto simp: find_None_iff)
  then show ?thesis by (simp add: strip_start.simps)
qed

lemma trim_end_prefix: "prefix (trim_end s) s"
  using strip_start_suffix [of "map rev white_space" "rev s"]
  by (simp add: trim_end_def suffix_to_prefix)

lemma trim_start_suffix: "suffix (trim_start s) s"
  by (simp add: trim_start_def strip_start_suffix)

lemma trim_sublist: "sublist (trim s) s"
  unfolding trim_def
  by (meson trim_end_prefix trim_start_suffix prefix_imp_sublist suffix_imp_sublist
      sublist_order.order.trans)

lemma set_trim: "set (trim s) \<subseteq> set s"
  by (rule set_mono_sublist [OF trim_sublist])

lemma trim_start_idem: "trim_start (trim s) = trim s"
  unfolding trim_start_def
proof (rule strip_start_id)
  fix w assume w: "w \<in> set white_space" "w \<noteq> []"
  show "\<not> prefix w (trim s)"
    using strip_start_stops [OF w, of s] trim_end_prefix [of "trim_start s"]
    by (auto simp: trim_def trim_start_def dest: prefix_order.trans)
qed

lemma trim_end_idem: "trim_end (trim_end s) = trim_end s"
  unfolding trim_end_def
  by (simp only: rev_rev_ident) (subst strip_start_id, auto simp: strip_start_stops)

lemma trim_idem: "trim (trim s) = trim s"
proof -
  have "trim (trim s) = trim_end (trim s)"
    unfolding trim_def [of "trim s"] by (simp only: trim_start_idem)
  also have "\<dots> = trim s"
    by (simp only: trim_def trim_end_idem)
  finally show ?thesis .
qed

text \<open>Text that begins and ends with a printing ASCII character is left alone.\<close>

lemma trim_visible:
  assumes "s \<noteq> []" "32 < byte (hd s)" "byte (hd s) < 127" "32 < byte (last s)" "byte (last s) < 127"
  shows "trim s = s"
proof -
  have ends: "\<not> (32 < byte (hd w) \<and> byte (hd w) < 127) \<and> \<not> (32 < byte (last w) \<and> byte (last w) < 127)"
    if "w \<in> set white_space" for w
    using that by (auto simp: white_space_def)
  have "trim_start s = s"
    unfolding trim_start_def
    using assms ends by (intro strip_start_id) (auto simp: prefix_def)
  moreover have "trim_end s = s"
  proof -
    have "strip_start (map rev white_space) (rev s) = rev s"
    proof (rule strip_start_id)
      fix w assume w: "w \<in> set (map rev white_space)" "w \<noteq> []"
      then have "last (rev w) = hd w" "rev w \<in> set white_space" by (auto simp: last_rev)
      with ends [of "rev w"] have "\<not> (32 < byte (hd w) \<and> byte (hd w) < 127)" by simp
      with assms w(2) show "\<not> prefix w (rev s)"
        by (metis hd_append hd_rev prefix_def)
    qed
    then show ?thesis by (simp add: trim_end_def)
  qed
  ultimately show ?thesis by (simp add: trim_def)
qed

text \<open>A line break after such text is removed, and so is text of spaces and line breaks.\<close>

lemma white_space_ascii:
  "take 6 white_space = [[CHR 0x09], [CHR 0x0A], [CHR 0x0B], [CHR 0x0C], [CHR 0x0D], [CHR '' '']]"
  by code_simp

lemma find_append_some: "List.find P xs = Some x \<Longrightarrow> List.find P (xs @ ys) = Some x"
  by (induction xs) auto

lemma find_blank:
  assumes "c \<in> {CHR 0x0A, CHR '' ''}"
  shows "List.find (\<lambda>w. w \<noteq> [] \<and> prefix w (c # s)) white_space = Some [c]"
    and "List.find (\<lambda>w. w \<noteq> [] \<and> prefix w (c # s)) (map rev white_space) = Some [c]"
proof -
  let ?P = "\<lambda>w. w \<noteq> [] \<and> prefix w (c # s)"
  have split: "white_space = take 6 white_space @ drop 6 white_space" by simp
  have "List.find ?P (take 6 white_space) = Some [c]" using assms by (auto simp: white_space_ascii)
  from find_append_some [OF this, of "drop 6 white_space"]
  show "List.find ?P white_space = Some [c]" by simp
  have "List.find ?P (map rev (take 6 white_space)) = Some [c]" using assms by (auto simp: white_space_ascii)
  from find_append_some [OF this, of "map rev (drop 6 white_space)"]
  show "List.find ?P (map rev white_space) = Some [c]"
    by (simp only: map_append [symmetric] append_take_drop_id)
qed

lemma strip_blank:
  assumes "c \<in> {CHR 0x0A, CHR '' ''}"
  shows "strip_start white_space (c # s) = strip_start white_space s"
    and "strip_start (map rev white_space) (c # s) = strip_start (map rev white_space) s"
  by (subst strip_start.simps, simp add: find_blank [OF assms])+

lemma trim_line:
  assumes "s \<noteq> []" "32 < byte (hd s)" "byte (hd s) < 127" "32 < byte (last s)" "byte (last s) < 127"
  shows "trim (s @ [CHR 0x0A]) = s"
proof -
  have "trim_start (s @ [CHR 0x0A]) = s @ [CHR 0x0A]"
    unfolding trim_start_def
  proof (rule strip_start_id)
    fix w assume "w \<in> set white_space" "w \<noteq> []"
    then have "\<not> (32 < byte (hd w) \<and> byte (hd w) < 127)" by (auto simp: white_space_def)
    with assms(1-3) \<open>w \<noteq> []\<close> show "\<not> prefix w (s @ [CHR 0x0A])" by (metis hd_append prefix_def)
  qed
  moreover have "trim_end (s @ [CHR 0x0A]) = trim_end s" by (simp add: trim_end_def strip_blank)
  moreover have "trim_end s = s"
  proof -
    have "trim s = s" using assms by (rule trim_visible)
    then show ?thesis by (metis trim_def trim_end_idem)
  qed
  ultimately show ?thesis by (simp add: trim_def)
qed

lemma strip_empty [simp]: "strip_start ws [] = []"
  by (simp add: strip_start_id)

lemma trim_blank: "set s \<subseteq> {CHR 0x0A, CHR '' ''} \<Longrightarrow> trim s = []"
proof -
  assume "set s \<subseteq> {CHR 0x0A, CHR '' ''}"
  then have "trim_start s = []"
    unfolding trim_start_def by (induction s) (auto simp: strip_blank)
  then show ?thesis by (simp add: trim_def trim_end_def)
qed

section \<open>Character boundaries\<close>

text \<open>
  Slicing \<open>&s[..n]\<close> panics unless \<open>n\<close> is on a character boundary: the end of the string
  or a byte that is not a UTF-8 continuation byte.
\<close>

definition is_continuation :: "char \<Rightarrow> bool" where
  "is_continuation c \<longleftrightarrow> 128 \<le> byte c \<and> byte c < 192"

definition is_char_boundary :: "string \<Rightarrow> nat \<Rightarrow> bool" where
  "is_char_boundary s n \<longleftrightarrow>
     n = 0 \<or> n = length s \<or> (n < length s \<and> \<not> is_continuation (s ! n))"

definition slice_to :: "string \<Rightarrow> nat \<Rightarrow> string option" where
  "slice_to s n = (if is_char_boundary s n then Some (take n s) else None)"

section \<open>UTF-8\<close>

text \<open>The encoding of one Unicode scalar value, and of a string of them.\<close>

definition utf8_char :: "nat \<Rightarrow> string" where
  "utf8_char n = map char_of
     (if n < 128 then [n]
      else if n < 2048 then [192 + n div 64, 128 + n mod 64]
      else if n < 65536 then [224 + n div 4096, 128 + n div 64 mod 64, 128 + n mod 64]
      else [240 + n div 262144, 128 + n div 4096 mod 64, 128 + n div 64 mod 64, 128 + n mod 64])"

definition utf8 :: "nat list \<Rightarrow> string" where
  "utf8 cs = concat (map utf8_char cs)"

definition scalar_value :: "nat \<Rightarrow> bool" where
  "scalar_value n \<longleftrightarrow> n < 55296 \<or> (57344 \<le> n \<and> n < 1114112)"

lemma utf8_Nil [simp]: "utf8 [] = []"
  by (simp add: utf8_def)

lemma utf8_Cons [simp]: "utf8 (c # cs) = utf8_char c @ utf8 cs"
  by (simp add: utf8_def)

lemma utf8_char_ascii: "n < 128 \<Longrightarrow> utf8_char n = [char_of n]"
  by (simp add: utf8_char_def)

lemma utf8_char_non_ascii:
  assumes "128 \<le> n" "scalar_value n" "b \<in> set (utf8_char n)"
  shows "128 \<le> byte b"
  using assms
  by (auto simp: utf8_char_def scalar_value_def split: if_splits)

lemma utf8_filter_ascii:
  assumes "a < 128" "\<And>c. c \<in> set cs \<Longrightarrow> scalar_value c"
  shows "filter (\<lambda>b. b \<noteq> char_of a) (utf8 cs) = utf8 (filter (\<lambda>c. c \<noteq> a) cs)"
  using assms(2)
proof (induction cs)
  case Nil
  then show ?case by simp
next
  case (Cons c cs)
  have "filter (\<lambda>b. b \<noteq> char_of a) (utf8_char c) = (if c = a then [] else utf8_char c)"
  proof (cases "c < 128")
    case True
    with assms(1) have "char_of c = char_of a \<longleftrightarrow> c = a"
      by (simp add: char_of_eq_iff take_bit_eq_mod)
    with True show ?thesis by (simp add: utf8_char_ascii)
  next
    case False
    have "b \<noteq> char_of a" if "b \<in> set (utf8_char c)" for b
    proof -
      have "128 \<le> byte b"
        using False that Cons.prems by (intro utf8_char_non_ascii [of c]) auto
      moreover have "byte (char_of a) < 128" using assms(1) by simp
      ultimately show ?thesis by auto
    qed
    then have "filter (\<lambda>b. b \<noteq> char_of a) (utf8_char c) = utf8_char c"
      by (simp only: filter_id_conv) simp
    with False assms(1) show ?thesis by auto
  qed
  with Cons show ?case by simp
qed

lemma utf8_all_ascii:
  assumes "\<And>b. P b \<Longrightarrow> byte b < 128" "\<And>c. c \<in> set cs \<Longrightarrow> scalar_value c"
  shows "list_all P (utf8 cs) \<longleftrightarrow> list_all (\<lambda>c. c < 128 \<and> P (char_of c)) cs"
  using assms(2)
proof (induction cs)
  case Nil
  then show ?case by simp
next
  case (Cons c cs)
  have "list_all P (utf8_char c) \<longleftrightarrow> c < 128 \<and> P (char_of c)"
  proof (cases "c < 128")
    case True
    then show ?thesis by (simp add: utf8_char_ascii)
  next
    case False
    have "utf8_char c \<noteq> []" by (simp add: utf8_char_def)
    then have b: "hd (utf8_char c) \<in> set (utf8_char c)" by (rule hd_in_set)
    with False Cons.prems have "128 \<le> byte (hd (utf8_char c))"
      by (intro utf8_char_non_ascii [of c]) auto
    then have "\<not> P (hd (utf8_char c))" using assms(1) by force
    with b False show ?thesis unfolding list_all_iff by blast
  qed
  with Cons show ?case by simp
qed

section \<open>C strings\<close>

text \<open>
  \<open>CString::new\<close> refuses interior NUL bytes; the bridge turns the refusal into a null
  pointer. A pointer to a C string is \<^const>\<open>None\<close> for null and otherwise the bytes before
  the terminator; \<open>CStr::to_str\<close> fails on bytes that are not UTF-8.
\<close>

definition cstring_new :: "string \<Rightarrow> string option" where
  "cstring_new s = (if CHR 0x00 \<in> set s then None else Some s)"

lemma cstring_new_Some_iff: "cstring_new s = Some t \<longleftrightarrow> t = s \<and> CHR 0x00 \<notin> set s"
  by (auto simp: cstring_new_def)

end
