(* ===== verification/Protocol.thy ===== *)
theory Protocol
  imports Rust_Std
begin

text \<open>
  The message types of \<open>signal/protocol/src/lib.rs\<close>, which the server and its clients
  share. The type variable \<open>'v\<close> stands for \<open>serde_json::Value\<close>: the server never looks
  into a signalling payload, and every definition and theorem about it holds for any type of
  payloads.
\<close>

datatype device_type = Phone | Tablet | Laptop | Desktop

record peer_data =
  pd_peer_code :: string
  pd_device_name :: string
  pd_device_type :: device_type
  pd_wt_url :: "string option"
  pd_wt_cert_hash :: "string option"

text \<open>\<open>ClientMessage\<close>; the arguments of \<open>Register\<close> are the source's fields in their order.\<close>

datatype 'v client_message =
    Register string string device_type "string option" "string option"
  | Signal string 'v
  | ManualSignal string 'v
  | Ping

text \<open>\<open>ServerMessage\<close>; \<open>ServerSignal\<close> and \<open>ServerError\<close> are its \<open>Signal\<close> and \<open>Error\<close>.\<close>

datatype 'v server_message =
    Peers "peer_data list"
  | PeerJoined peer_data
  | PeerLeft string
  | ServerSignal string 'v
  | ServerError string

text \<open>
  The enumeration of device types, so that quantifiers over them are decided by evaluation.
\<close>

instantiation device_type :: enum
begin

definition enum_device_type :: "device_type list" where
  "enum_device_type = [Phone, Tablet, Laptop, Desktop]"

definition enum_all_device_type :: "(device_type \<Rightarrow> bool) \<Rightarrow> bool" where
  "enum_all_device_type P \<longleftrightarrow> P Phone \<and> P Tablet \<and> P Laptop \<and> P Desktop"

definition enum_ex_device_type :: "(device_type \<Rightarrow> bool) \<Rightarrow> bool" where
  "enum_ex_device_type P \<longleftrightarrow> P Phone \<or> P Tablet \<or> P Laptop \<or> P Desktop"

instance
proof
  have U: "(UNIV :: device_type set) = {Phone, Tablet, Laptop, Desktop}"
    by (auto intro: device_type.exhaust)
  show "(UNIV :: device_type set) = set Enum.enum"
    by (simp add: enum_device_type_def U)
  show "distinct (Enum.enum :: device_type list)"
    by (simp add: enum_device_type_def)
  show "Enum.enum_all P \<longleftrightarrow> Ball UNIV P" for P :: "device_type \<Rightarrow> bool"
    by (simp add: enum_all_device_type_def U)
  show "Enum.enum_ex P \<longleftrightarrow> Bex UNIV P" for P :: "device_type \<Rightarrow> bool"
    by (simp add: enum_ex_device_type_def U)
qed

end

end
