(* ===== verification/Directory.thy ===== *)
theory Directory
  imports Prelude
begin

text \<open>
  The interface the connection handler has to the room manager, as a locale: a table that
  means a partial map from a room and a code to a registration, an \<open>add\<close> that replaces
  whatever holds the code and hands out a session, and a \<open>remove\<close> that acts only for the
  session that holds the code. What follows from these laws alone (reconnects survive the
  clean-up of the connection they replaced, rooms do not interfere) is proved here once.
\<close>

locale peer_directory =
  fixes invar :: "'st \<Rightarrow> bool"
    and dir :: "'st \<Rightarrow> 'k \<times> 'c \<Rightarrow> 'p option"
    and code_of :: "'p \<Rightarrow> 'c"
    and session_of :: "'p \<Rightarrow> 's"
    and with_session :: "'s \<Rightarrow> 'p \<Rightarrow> 'p"
    and add :: "'k \<Rightarrow> 'p \<Rightarrow> 'st \<Rightarrow> ('e + 'x \<times> 's) \<times> 'st"
    and remove :: "'k \<Rightarrow> 'c \<Rightarrow> 's \<Rightarrow> 'st \<Rightarrow> 'st"
  assumes invar_add: "invar st \<Longrightarrow> add k p st = (r, st') \<Longrightarrow> invar st'"
    and invar_remove: "invar st \<Longrightarrow> invar (remove k c s st)"
    and dir_add_ok: "invar st \<Longrightarrow> add k p st = (Inr (x, s), st') \<Longrightarrow>
          dir st' = (dir st)((k, code_of p) \<mapsto> with_session s p)"
    and dir_add_err: "invar st \<Longrightarrow> add k p st = (Inl e, st') \<Longrightarrow> dir st' = dir st"
    and dir_remove: "invar st \<Longrightarrow>
          dir (remove k c s st) =
            (case dir st (k, c) of
               None \<Rightarrow> dir st
             | Some p \<Rightarrow> if session_of p = s then (dir st)((k, c) := None) else dir st)"
    and session_with: "session_of (with_session s p) = s"
begin

lemma stale_remove:
  assumes "invar st" "add k p st = (Inr (x, s), st')" "s' \<noteq> s"
  shows "dir (remove k (code_of p) s' st') (k, code_of p) = Some (with_session s p)"
  using invar_add [OF assms(1,2)] dir_add_ok [OF assms(1,2)] assms(3)
  by (simp add: dir_remove session_with)

lemma own_remove:
  assumes "invar st" "add k p st = (Inr (x, s), st')"
  shows "dir (remove k (code_of p) s st') = (dir st)((k, code_of p) := None)"
  using invar_add [OF assms] dir_add_ok [OF assms]
  by (simp add: dir_remove session_with)

lemma remove_after_replace:
  assumes "invar st" "add k p st = (Inr (x, s), st1)" "invar st2"
    "dir st2 = dir st1" "add k q st2 = (Inr (y, s'), st3)"
    "code_of q = code_of p" "s \<noteq> s'"
  shows "dir (remove k (code_of p) s st3) = dir st3"
    "dir st3 (k, code_of p) = Some (with_session s' q)"
proof -
  have inv3: "invar st3" using invar_add [OF assms(3,5)] .
  have d3: "dir st3 = (dir st2)((k, code_of p) \<mapsto> with_session s' q)"
    using dir_add_ok [OF assms(3,5)] assms(6) by simp
  then show "dir st3 (k, code_of p) = Some (with_session s' q)" by simp
  with dir_remove [OF inv3, of k "code_of p" s] assms(7)
  show "dir (remove k (code_of p) s st3) = dir st3" by (auto simp: session_with)
qed

lemma remove_twice:
  assumes "invar st"
  shows "dir (remove k c s (remove k c s st)) = dir (remove k c s st)"
  using invar_remove [OF assms, of k c s] dir_remove [OF assms, of k c s]
  by (auto simp: dir_remove split: option.splits if_splits)

lemma add_other_room:
  assumes "invar st" "add k p st = (r, st')" "k' \<noteq> k"
  shows "dir st' (k', c) = dir st (k', c)"
proof (cases r)
  case (Inl e)
  with assms show ?thesis by (simp add: dir_add_err)
next
  case (Inr xs)
  with assms obtain x s where "r = Inr (x, s)" by (cases xs) auto
  with assms dir_add_ok [of st k p x s st'] show ?thesis by simp
qed

lemma remove_other_room:
  assumes "invar st" "k' \<noteq> k"
  shows "dir (remove k c s st) (k', c') = dir st (k', c')"
  using assms by (auto simp: dir_remove split: option.splits)

end

end
