(* ===== verification/Room.thy ===== *)
theory Room
  imports Protocol Directory "HOL-Library.Multiset"
begin

text \<open>
  The room manager of \<open>signal/src/room.rs\<close>. Its table, a \<open>DashMap\<close> from addresses to
  vectors of peers, is an association list with distinct keys whose order is the iteration
  order (which the map does not specify: the results are shown not to depend on it). A peer's
  \<open>UnboundedSender\<close> is the number of its channel; a channel records whether its receiver,
  owned by the connection's write task, still exists, what is queued and what has been written
  to the socket. \<open>NEXT_SESSION_ID\<close> is a 64-bit counter.
\<close>

section \<open>State\<close>

record peer_info =
  peer_code :: string
  device_name :: string
  device_type :: device_type
  sender :: nat
  session_id :: u64
  wt_url :: "string option"
  wt_cert_hash :: "string option"

record 'v chan =
  rx_alive :: bool
  queue :: "'v server_message list"
  wire :: "'v server_message list"

record 'v rv_state =
  rooms :: "(string \<times> peer_info list) list"
  next_session :: u64
  chans :: "nat \<Rightarrow> 'v chan"

datatype manual_peer_lookup = Found nat | NotFound | Ambiguous

definition MAX_PEERS_PER_ROOM :: nat where "MAX_PEERS_PER_ROOM = 256"
definition MAX_ROOMS :: nat where "MAX_ROOMS = 65536"

definition to_peer_data :: "peer_info \<Rightarrow> peer_data" where
  "to_peer_data p =
     \<lparr>pd_peer_code = peer_code p, pd_device_name = device_name p,
      pd_device_type = device_type p, pd_wt_url = wt_url p, pd_wt_cert_hash = wt_cert_hash p\<rparr>"

section \<open>Channels\<close>

text \<open>\<open>send\<close> on an unbounded channel fails exactly when the receiver is gone.\<close>

definition send :: "nat \<Rightarrow> 'v server_message \<Rightarrow> 'v rv_state \<Rightarrow> bool \<times> 'v rv_state" where
  "send tx m st =
     (let ch = chans st tx
      in if rx_alive ch
         then (True, st\<lparr>chans := (chans st)(tx := ch\<lparr>queue := queue ch @ [m]\<rparr>)\<rparr>)
         else (False, st))"

definition broadcast :: "'v server_message \<Rightarrow> peer_info list \<Rightarrow> 'v rv_state \<Rightarrow> 'v rv_state" where
  "broadcast m ps st = fold (\<lambda>p s. snd (send (sender p) m s)) ps st"

section \<open>Operations\<close>

definition room_manager_new :: "'v rv_state" where
  "room_manager_new =
     \<lparr>rooms = [], next_session = 1, chans = (\<lambda>_. \<lparr>rx_alive = False, queue = [], wire = []\<rparr>)\<rparr>"

definition room_at :: "string \<Rightarrow> 'v rv_state \<Rightarrow> peer_info list" where
  "room_at ip st = (case map_of (rooms st) ip of None \<Rightarrow> [] | Some r \<Rightarrow> r)"

text \<open>
  \<open>add_peer\<close> is not one critical section: the session counter is bumped and the room limit
  tested first, then the entry of the address is locked. The parts are definitions of their
  own so that the interleaving model can run other operations between them.
\<close>

definition add_peer_refused :: "string \<Rightarrow> 'v rv_state \<Rightarrow> bool" where
  "add_peer_refused ip st \<longleftrightarrow> map_of (rooms st) ip = None \<and> length (rooms st) \<ge> MAX_ROOMS"

definition add_peer_entry ::
    "string \<Rightarrow> peer_info \<Rightarrow> 'v rv_state \<Rightarrow> (string, peer_data list) result \<times> 'v rv_state" where
  "add_peer_entry ip peer st =
     (let room0 = room_at ip st;
          room1 = (case position (\<lambda>p. peer_code p = peer_code peer) room0 of
                     None \<Rightarrow> room0
                   | Some pos \<Rightarrow> remove_at pos room0);
          st1 = st\<lparr>rooms := AList.update ip room1 (rooms st)\<rparr>
      in if length room1 \<ge> MAX_PEERS_PER_ROOM then
           (Inl (''room full ('' @ show_nat MAX_PEERS_PER_ROOM @ '' peers)''), st1)
         else
           (let existing = map to_peer_data room1;
                st2 = broadcast (PeerJoined (to_peer_data peer)) room1 st1
            in (Inr existing, st2\<lparr>rooms := AList.update ip (room1 @ [peer]) (rooms st2)\<rparr>)))"

definition add_peer ::
    "string \<Rightarrow> peer_info \<Rightarrow> 'v rv_state \<Rightarrow> (string, peer_data list \<times> u64) result \<times> 'v rv_state"
  where
  "add_peer ip peer st =
     (let sid = next_session st;
          st0 = st\<lparr>next_session := sid + 1\<rparr>;
          peer' = peer\<lparr>session_id := sid\<rparr>
      in if add_peer_refused ip st0 then
           (Inl (''room limit reached ('' @ show_nat MAX_ROOMS @ '')''), st0)
         else
           (case add_peer_entry ip peer' st0 of
              (Inl e, st') \<Rightarrow> (Inl e, st')
            | (Inr existing, st') \<Rightarrow> (Inr (existing, sid), st')))"

text \<open>
  \<open>remove_peer\<close> likewise: the block holding the room's lock returns whether the room is now
  empty, and the entry is removed afterwards, without the lock.
\<close>

definition remove_peer_locked ::
    "string \<Rightarrow> string \<Rightarrow> u64 \<Rightarrow> 'v rv_state \<Rightarrow> bool \<times> 'v rv_state" where
  "remove_peer_locked ip code sid st =
     (case map_of (rooms st) ip of
        None \<Rightarrow> (False, st)
      | Some room \<Rightarrow>
          (let room' = filter (\<lambda>p. \<not> (peer_code p = code \<and> session_id p = sid)) room;
               st1 = st\<lparr>rooms := AList.update ip room' (rooms st)\<rparr>
           in if \<not> length room' < length room then (False, st1)
              else (room' = [], broadcast (PeerLeft code) room' st1)))"

definition remove_room :: "string \<Rightarrow> 'v rv_state \<Rightarrow> 'v rv_state" where
  "remove_room ip st = st\<lparr>rooms := AList.delete ip (rooms st)\<rparr>"

definition remove_peer :: "string \<Rightarrow> string \<Rightarrow> u64 \<Rightarrow> 'v rv_state \<Rightarrow> 'v rv_state" where
  "remove_peer ip code sid st =
     (case remove_peer_locked ip code sid st of
        (should_remove_room, st') \<Rightarrow> if should_remove_room then remove_room ip st' else st')"

definition get_room_peers :: "string \<Rightarrow> 'v rv_state \<Rightarrow> peer_data list" where
  "get_room_peers ip st =
     (case map_of (rooms st) ip of None \<Rightarrow> [] | Some room \<Rightarrow> map to_peer_data room)"

definition find_peer :: "string \<Rightarrow> string \<Rightarrow> 'v rv_state \<Rightarrow> nat option" where
  "find_peer caller_room code st =
     (case map_of (rooms st) caller_room of
        None \<Rightarrow> None
      | Some room \<Rightarrow> map_option sender (List.find (\<lambda>p. peer_code p = code) room))"

text \<open>
  The two nested loops of \<open>find_peer_manual\<close>; \<^const>\<open>None\<close> is the early return of
  \<open>Ambiguous\<close>.
\<close>

fun scan_room :: "string \<Rightarrow> nat option \<Rightarrow> peer_info list \<Rightarrow> nat option option" where
  "scan_room code found [] = Some found"
| "scan_room code found (p # ps) =
     (if peer_code p = code then
        (if found \<noteq> None then None else scan_room code (Some (sender p)) ps)
      else scan_room code found ps)"

fun scan_rooms :: "string \<Rightarrow> nat option \<Rightarrow> (string \<times> peer_info list) list \<Rightarrow> nat option option" where
  "scan_rooms code found [] = Some found"
| "scan_rooms code found (r # rs) =
     (case scan_room code found (snd r) of
        None \<Rightarrow> None
      | Some found' \<Rightarrow> scan_rooms code found' rs)"

definition find_peer_manual :: "string \<Rightarrow> 'v rv_state \<Rightarrow> manual_peer_lookup" where
  "find_peer_manual code st =
     (case scan_rooms code None (rooms st) of
        None \<Rightarrow> Ambiguous
      | Some (Some tx) \<Rightarrow> Found tx
      | Some None \<Rightarrow> NotFound)"

definition room_count :: "'v rv_state \<Rightarrow> nat" where
  "room_count st = length (rooms st)"

definition peer_count :: "'v rv_state \<Rightarrow> nat" where
  "peer_count st = sum_list (map (\<lambda>r. length (snd r)) (rooms st))"

section \<open>Invariant and abstraction\<close>

text \<open>
  Between operations, every room is non-empty, holds at most \<open>MAX_PEERS_PER_ROOM\<close> peers and
  no code twice, and there are at most \<open>MAX_ROOMS\<close> rooms.
\<close>

definition room_ok :: "peer_info list \<Rightarrow> bool" where
  "room_ok room \<longleftrightarrow> length room \<le> MAX_PEERS_PER_ROOM \<and> distinct (map peer_code room)"

definition rooms_inv :: "'v rv_state \<Rightarrow> bool" where
  "rooms_inv st \<longleftrightarrow>
     distinct (map fst (rooms st)) \<and> length (rooms st) \<le> MAX_ROOMS \<and>
     (\<forall>r \<in> set (rooms st). room_ok (snd r) \<and> snd r \<noteq> [])"

text \<open>
  What the table means: a partial map from address and peer code to the peer registered
  there.
\<close>

definition directory :: "'v rv_state \<Rightarrow> string \<times> string \<Rightarrow> peer_info option" where
  "directory st = (\<lambda>(ip, code). List.find (\<lambda>p. peer_code p = code) (room_at ip st))"

definition registered :: "'v rv_state \<Rightarrow> (string \<times> peer_info) set" where
  "registered st = {(ip, p). p \<in> set (room_at ip st)}"

section \<open>Channels: frame and effect\<close>

lemma send_frame [simp]:
  "rooms (snd (send tx m st)) = rooms st"
  "next_session (snd (send tx m st)) = next_session st"
  "rx_alive (chans (snd (send tx m st)) c) = rx_alive (chans st c)"
  "wire (chans (snd (send tx m st)) c) = wire (chans st c)"
  by (auto simp: send_def Let_def)

lemma send_fst [simp]: "fst (send tx m st) = rx_alive (chans st tx)"
  by (simp add: send_def Let_def)

lemma queue_send:
  "queue (chans (snd (send tx m st)) c) =
     queue (chans st c) @ (if c = tx \<and> rx_alive (chans st tx) then [m] else [])"
  by (auto simp: send_def Let_def)

lemma broadcast_Nil [simp]: "broadcast m [] st = st"
  by (simp add: broadcast_def)

lemma broadcast_Cons [simp]:
  "broadcast m (p # ps) st = broadcast m ps (snd (send (sender p) m st))"
  by (simp add: broadcast_def)

lemma broadcast_frame [simp]:
  "rooms (broadcast m ps st) = rooms st"
  "next_session (broadcast m ps st) = next_session st"
  "rx_alive (chans (broadcast m ps st) c) = rx_alive (chans st c)"
  "wire (chans (broadcast m ps st) c) = wire (chans st c)"
  by (induction ps arbitrary: st) simp_all

lemma queue_broadcast:
  "queue (chans (broadcast m ps st) c) =
     queue (chans st c) @
     (if rx_alive (chans st c) then replicate (count_list (map sender ps) c) m else [])"
  by (induction ps arbitrary: st)
    (auto simp: queue_send)

lemma room_at_simps [simp]:
  "room_at ip (st\<lparr>rooms := rs\<rparr>) = (case map_of rs ip of None \<Rightarrow> [] | Some r \<Rightarrow> r)"
  "room_at ip (st\<lparr>next_session := n\<rparr>) = room_at ip st"
  "room_at ip (st\<lparr>chans := cs\<rparr>) = room_at ip st"
  by (simp_all add: room_at_def)

lemma room_at_cong: "rooms s = rooms t \<Longrightarrow> room_at ip s = room_at ip t"
  by (simp add: room_at_def)

lemma room_at_send [simp]: "room_at ip (snd (send tx m st)) = room_at ip st"
  by (rule room_at_cong) simp

lemma room_at_broadcast [simp]: "room_at ip (broadcast m ps st) = room_at ip st"
  by (rule room_at_cong) simp

lemma broadcast_rooms_update [simp]:
  "broadcast m ps (st\<lparr>rooms := r\<rparr>) = (broadcast m ps st)\<lparr>rooms := r\<rparr>"
proof (induction ps arbitrary: st)
  case Nil
  then show ?case by simp
next
  case (Cons p ps)
  have "snd (send (sender p) m (st\<lparr>rooms := r\<rparr>)) = (snd (send (sender p) m st))\<lparr>rooms := r\<rparr>"
    by (simp add: send_def Let_def)
  with Cons show ?case by simp
qed

section \<open>The operations in closed form\<close>

text \<open>The other peers of a room: everyone but the holder of a code.\<close>

definition others :: "string \<Rightarrow> string \<Rightarrow> 'v rv_state \<Rightarrow> peer_info list" where
  "others ip code st = filter (\<lambda>p. peer_code p \<noteq> code) (room_at ip st)"

lemma rooms_inv_iff:
  "rooms_inv st \<longleftrightarrow>
     distinct (map fst (rooms st)) \<and> length (rooms st) \<le> MAX_ROOMS \<and>
     (\<forall>ip room. map_of (rooms st) ip = Some room \<longrightarrow> room_ok room \<and> room \<noteq> [])"
  unfolding rooms_inv_def
  by (intro conj_cong refl) (rule alist_all_iff [where P = "\<lambda>r. room_ok r \<and> r \<noteq> []"])

lemma room_ok_Nil [simp]: "room_ok []"
  by (simp add: room_ok_def)

lemma rooms_inv_room_ok: "rooms_inv st \<Longrightarrow> room_ok (room_at ip st)"
  by (auto simp: rooms_inv_iff room_at_def split: option.splits)

lemma room_ok_filter: "room_ok room \<Longrightarrow> room_ok (filter P room)"
  by (auto simp: room_ok_def distinct_map_filter intro: le_trans [OF length_filter_le])

lemma room_ok_others: "rooms_inv st \<Longrightarrow> room_ok (others ip code st)"
  by (simp add: others_def room_ok_filter rooms_inv_room_ok)

text \<open>
  A room that is full without its holder of the code has no holder: a reconnect is never
  refused, and a refusal changes nothing.
\<close>

lemma others_full:
  assumes "rooms_inv st" "MAX_PEERS_PER_ROOM \<le> length (others ip code st)"
  shows "others ip code st = room_at ip st" "map_of (rooms st) ip = Some (room_at ip st)"
proof -
  have "length (room_at ip st) \<le> MAX_PEERS_PER_ROOM"
    using rooms_inv_room_ok [OF assms(1)] by (simp add: room_ok_def)
  moreover have "length (others ip code st) \<le> length (room_at ip st)"
    by (simp add: others_def)
  ultimately have "length (others ip code st) = length (room_at ip st)"
    using assms(2) by linarith
  then have "filter (\<lambda>p. peer_code p \<noteq> code) (room_at ip st) = room_at ip st"
    by (metis (no_types, lifting) filter_True length_filter_less less_irrefl others_def)
  then show "others ip code st = room_at ip st"
    by (simp add: others_def)
  with assms(2) show "map_of (rooms st) ip = Some (room_at ip st)"
    by (auto simp: room_at_def MAX_PEERS_PER_ROOM_def split: option.splits)
qed

lemma add_peer_entry_eq [room_simps]:
  assumes "rooms_inv st"
  shows "add_peer_entry ip peer st =
    (if length (others ip (peer_code peer) st) \<ge> MAX_PEERS_PER_ROOM
     then (Inl (''room full ('' @ show_nat MAX_PEERS_PER_ROOM @ '' peers)''), st)
     else (Inr (map to_peer_data (others ip (peer_code peer) st)),
           (broadcast (PeerJoined (to_peer_data peer)) (others ip (peer_code peer) st) st)
             \<lparr>rooms := AList.update ip (others ip (peer_code peer) st @ [peer]) (rooms st)\<rparr>))"
proof -
  have "distinct (map peer_code (room_at ip st))"
    using rooms_inv_room_ok [OF assms] by (simp add: room_ok_def)
  then have r1: "(case position (\<lambda>p. peer_code p = peer_code peer) (room_at ip st) of
       None \<Rightarrow> room_at ip st | Some pos \<Rightarrow> remove_at pos (room_at ip st))
      = others ip (peer_code peer) st"
    unfolding others_def by (rule remove_position_eq_filter)
  have full: "st\<lparr>rooms := AList.update ip (others ip (peer_code peer) st) (rooms st)\<rparr> = st"
    if "MAX_PEERS_PER_ROOM \<le> length (others ip (peer_code peer) st)"
    using others_full [OF assms that] by (simp add: update_triv)
  show ?thesis
    unfolding add_peer_entry_def Let_def r1 using full by simp
qed

lemma rooms_inv_next [simp]: "rooms_inv (st\<lparr>next_session := n\<rparr>) = rooms_inv st"
  by (simp add: rooms_inv_def)

lemma others_next [simp]: "others ip code (st\<lparr>next_session := n\<rparr>) = others ip code st"
  by (simp add: others_def)

lemma add_peer_cases:
  assumes "rooms_inv st" "add_peer ip peer st = (r, st')"
  obtains
    (refused) "add_peer_refused ip st" "r = Inl (''room limit reached ('' @ show_nat MAX_ROOMS @ '')'')"
      "st' = st\<lparr>next_session := next_session st + 1\<rparr>"
  | (full) "MAX_PEERS_PER_ROOM \<le> length (others ip (peer_code peer) st)"
      "r = Inl (''room full ('' @ show_nat MAX_PEERS_PER_ROOM @ '' peers)'')"
      "st' = st\<lparr>next_session := next_session st + 1\<rparr>"
  | (added) "\<not> add_peer_refused ip st"
      "length (others ip (peer_code peer) st) < MAX_PEERS_PER_ROOM"
      "r = Inr (map to_peer_data (others ip (peer_code peer) st), next_session st)"
      "st' = (broadcast (PeerJoined (to_peer_data peer)) (others ip (peer_code peer) st)
               (st\<lparr>next_session := next_session st + 1\<rparr>))
             \<lparr>rooms := AList.update ip
                 (others ip (peer_code peer) st @ [peer\<lparr>session_id := next_session st\<rparr>])
                 (rooms st)\<rparr>"
proof -
  have refused: "add_peer_refused ip (st\<lparr>next_session := n\<rparr>) = add_peer_refused ip st" for n
    by (simp add: add_peer_refused_def)
  have data: "to_peer_data (peer\<lparr>session_id := n\<rparr>) = to_peer_data peer" for n
    by (simp add: to_peer_data_def)
  show thesis
    using assms that
    by (auto simp: add_peer_def Let_def refused data add_peer_entry_eq split: if_splits)
qed

text \<open>
  \<open>remove_peer\<close> acts exactly when the directory holds the code under the given session.
\<close>

definition holds_session :: "string \<Rightarrow> string \<Rightarrow> u64 \<Rightarrow> 'v rv_state \<Rightarrow> bool" where
  "holds_session ip code sid st \<longleftrightarrow>
     (case directory st (ip, code) of None \<Rightarrow> False | Some p \<Rightarrow> session_id p = sid)"

lemma directory_iff:
  assumes "rooms_inv st"
  shows "directory st (ip, code) = Some p \<longleftrightarrow> p \<in> set (room_at ip st) \<and> peer_code p = code"
proof -
  have "distinct (map peer_code (room_at ip st))"
    using rooms_inv_room_ok [OF assms] by (simp add: room_ok_def)
  then show ?thesis
    by (auto simp: directory_def dest: find_SomeD find_Some_distinct)
qed

lemma holds_session_iff:
  "rooms_inv st \<Longrightarrow> holds_session ip code sid st \<longleftrightarrow>
     (\<exists>p\<in>set (room_at ip st). peer_code p = code \<and> session_id p = sid)"
  by (auto simp: holds_session_def directory_iff split: option.splits)
    (metis directory_iff option.distinct(1) option.inject)+

lemma filter_session_eq:
  assumes "rooms_inv st"
  shows "filter (\<lambda>p. \<not> (peer_code p = code \<and> session_id p = sid)) (room_at ip st) =
    (if holds_session ip code sid st then others ip code st else room_at ip st)"
proof (cases "holds_session ip code sid st")
  case True
  then obtain q where q: "directory st (ip, code) = Some q" "session_id q = sid"
    by (auto simp: holds_session_def split: option.splits)
  have "p = q" if "p \<in> set (room_at ip st)" "peer_code p = code" for p
    using that q(1) directory_iff [OF assms, of ip code] by (metis option.inject)
  with q(2) have "filter (\<lambda>p. \<not> (peer_code p = code \<and> session_id p = sid)) (room_at ip st)
      = others ip code st"
    unfolding others_def by (intro filter_cong) auto
  with True show ?thesis by simp
next
  case False
  then show ?thesis
    using holds_session_iff [OF assms] by (auto simp: filter_id_conv)
qed

lemma remove_peer_eq [room_simps]:
  assumes "rooms_inv st"
  shows "remove_peer ip code sid st =
    (if holds_session ip code sid st
     then (broadcast (PeerLeft code) (others ip code st) st)
            \<lparr>rooms := if others ip code st = [] then AList.delete ip (rooms st)
                      else AList.update ip (others ip code st) (rooms st)\<rparr>
     else st)"
proof (cases "map_of (rooms st) ip")
  case None
  then have "\<not> holds_session ip code sid st"
    by (simp add: holds_session_def directory_def room_at_def)
  with None show ?thesis by (simp add: remove_peer_def remove_peer_locked_def)
next
  case (Some room)
  then have room: "room = room_at ip st" by (simp add: room_at_def)
  have less: "length (others ip code st) < length (room_at ip st)"
    if "holds_session ip code sid st"
    using that holds_session_iff [OF assms]
    by (auto simp: others_def intro: length_filter_less)
  have same: "st\<lparr>rooms := AList.update ip (room_at ip st) (rooms st)\<rparr> = st"
    using Some by (simp add: update_triv room)
  have "remove_peer_locked ip code sid st =
    (if holds_session ip code sid st
     then (others ip code st = [],
           broadcast (PeerLeft code) (others ip code st)
             (st\<lparr>rooms := AList.update ip (others ip code st) (rooms st)\<rparr>))
     else (False, st))"
    unfolding remove_peer_locked_def Some option.case Let_def room filter_session_eq [OF assms]
    using less same by auto
  then show ?thesis
    by (simp add: remove_peer_def remove_room_def delete_update_same)
qed

section \<open>The invariant is kept\<close>

lemma rooms_inv_new: "rooms_inv room_manager_new"
  by (simp add: rooms_inv_def room_manager_new_def)

lemma rooms_inv_cong: "rooms s = rooms t \<Longrightarrow> rooms_inv s = rooms_inv t"
  by (simp add: rooms_inv_def)

lemma rooms_inv_update:
  assumes "rooms_inv st" "room_ok room" "room \<noteq> []" "\<not> add_peer_refused ip st"
  shows "rooms_inv (st\<lparr>rooms := AList.update ip room (rooms st)\<rparr>)"
proof -
  have "length (AList.update ip room (rooms st)) \<le> MAX_ROOMS"
  proof (cases "ip \<in> fst ` set (rooms st)")
    case True
    with assms(1) show ?thesis by (simp add: length_update_present rooms_inv_def)
  next
    case False
    then have "map_of (rooms st) ip = None" by (simp add: map_of_eq_None_iff)
    with False assms(4) show ?thesis
      by (simp add: length_update_absent add_peer_refused_def)
  qed
  with assms show ?thesis
    by (auto simp: rooms_inv_iff update_conv' distinct_update split: if_splits)
qed

lemma rooms_inv_delete: "rooms_inv st \<Longrightarrow> rooms_inv (remove_room ip st)"
  by (auto simp: rooms_inv_iff remove_room_def delete_conv' distinct_delete
      intro: le_trans [OF length_delete_le] split: if_splits)

lemma room_ok_snoc:
  assumes "rooms_inv st" "length (others ip (peer_code peer) st) < MAX_PEERS_PER_ROOM"
    "peer_code q = peer_code peer"
  shows "room_ok (others ip (peer_code peer) st @ [q])"
  using assms room_ok_others [OF assms(1), of ip "peer_code peer"]
  by (auto simp: room_ok_def others_def)

lemma rooms_inv_add_peer:
  assumes "rooms_inv st" "add_peer ip peer st = (r, st')"
  shows "rooms_inv st'"
  using assms
proof (cases rule: add_peer_cases)
  case added
  let ?room = "others ip (peer_code peer) st @ [peer\<lparr>session_id := next_session st\<rparr>]"
  have "room_ok ?room"
    by (rule room_ok_snoc [OF assms(1) added(2)]) simp
  then have "rooms_inv (st\<lparr>rooms := AList.update ip ?room (rooms st)\<rparr>)"
    using assms(1) added(1) by (intro rooms_inv_update) auto
  moreover have "rooms st' = rooms (st\<lparr>rooms := AList.update ip ?room (rooms st)\<rparr>)"
    using added(4) by simp
  ultimately show ?thesis using rooms_inv_cong by blast
qed (use assms in simp_all)

lemma rooms_inv_remove_peer:
  assumes "rooms_inv st"
  shows "rooms_inv (remove_peer ip code sid st)"
proof (cases "holds_session ip code sid st")
  case True
  then have "room_at ip st \<noteq> []"
    using holds_session_iff [OF assms] by auto
  then have "\<not> add_peer_refused ip st"
    by (auto simp: add_peer_refused_def room_at_def)
  then have "rooms_inv (st\<lparr>rooms := AList.update ip (others ip code st) (rooms st)\<rparr>)"
    if "others ip code st \<noteq> []"
    using that assms by (intro rooms_inv_update room_ok_others) auto
  moreover note rooms_inv_delete [OF assms, of ip]
  ultimately show ?thesis
    using True assms
    by (auto simp: remove_peer_eq remove_room_def rooms_inv_def)
qed (simp add: remove_peer_eq assms)

section \<open>Refinement of the directory\<close>

lemma directory_cong: "rooms s = rooms t \<Longrightarrow> directory s = directory t"
  by (simp add: directory_def room_at_def)

lemma directory_update:
  "directory (st\<lparr>rooms := AList.update ip room (rooms st)\<rparr>) (ip', code) =
     (if ip' = ip then List.find (\<lambda>p. peer_code p = code) room else directory st (ip', code))"
  by (simp add: directory_def update_conv' room_at_def)

lemma find_others:
  "List.find (\<lambda>p. peer_code p = c) (others ip code st) =
     (if c = code then None else directory st (ip, c))"
  by (auto simp: others_def find_filter directory_def find_None_iff intro!: arg_cong2 [where f = List.find])

lemma directory_add_peer:
  assumes "rooms_inv st" "add_peer ip peer st = (Inr (existing, sid), st')"
  shows "directory st' = (directory st)((ip, peer_code peer) \<mapsto> peer\<lparr>session_id := sid\<rparr>)"
  using assms
proof (cases rule: add_peer_cases)
  case added
  let ?room = "others ip (peer_code peer) st @ [peer\<lparr>session_id := next_session st\<rparr>]"
  have "directory st' = directory (st\<lparr>rooms := AList.update ip ?room (rooms st)\<rparr>)"
    using added(4) by (intro directory_cong) simp
  moreover have "sid = next_session st" using added(3) by simp
  ultimately show ?thesis
    by (auto simp: fun_eq_iff directory_update find_append find_others split: option.splits)
qed simp_all

lemma directory_add_peer_err:
  assumes "rooms_inv st" "add_peer ip peer st = (Inl e, st')"
  shows "directory st' = directory st"
  using assms by (cases rule: add_peer_cases) (auto intro!: directory_cong)

lemma directory_remove_peer:
  assumes "rooms_inv st"
  shows "directory (remove_peer ip code sid st) =
    (if holds_session ip code sid st then (directory st)((ip, code) := None) else directory st)"
proof (cases "holds_session ip code sid st")
  case True
  let ?t = "remove_peer ip code sid st"
  have find: "List.find (\<lambda>p. peer_code p = c) (room_at ip' ?t) = ((directory st)((ip, code) := None)) (ip', c)"
    for ip' c
    using True assms find_others [of c ip code st]
    by (auto simp: remove_peer_eq update_conv' delete_conv' room_at_def directory_def split: if_splits)
  then show ?thesis using True by (auto simp: fun_eq_iff directory_def)
qed (simp add: remove_peer_eq assms)

lemma find_peer_directory: "find_peer ip code st = map_option sender (directory st (ip, code))"
  by (simp add: find_peer_def directory_def room_at_def split: option.splits)

interpretation rm: peer_directory rooms_inv directory peer_code session_id
  "\<lambda>s p. p\<lparr>session_id := s\<rparr>" add_peer remove_peer
proof unfold_locales
  fix st :: "'v rv_state" and k c s
  assume "rooms_inv st"
  then show "directory (remove_peer k c s st) =
    (case directory st (k, c) of
       None \<Rightarrow> directory st
     | Some p \<Rightarrow> if session_id p = s then (directory st)((k, c) := None) else directory st)"
    by (auto simp: directory_remove_peer holds_session_def split: option.splits)
qed (auto intro: rooms_inv_add_peer rooms_inv_remove_peer directory_add_peer directory_add_peer_err)

section \<open>Manual lookup\<close>

definition holders :: "string \<Rightarrow> 'v rv_state \<Rightarrow> peer_info list" where
  "holders code st = filter (\<lambda>p. peer_code p = code) (concat (map snd (rooms st)))"

text \<open>
  Scanning accumulates at most one hit; a second one anywhere ends the scan.
\<close>

lemma scan_room_eq:
  "scan_room code found ps =
     (case (found, map sender (filter (\<lambda>p. peer_code p = code) ps)) of
        (f, []) \<Rightarrow> Some f
      | (None, [tx]) \<Rightarrow> Some (Some tx)
      | _ \<Rightarrow> None)"
  by (induction ps arbitrary: found) (auto split: list.splits option.splits)

lemma scan_rooms_eq_scan_room:
  "scan_rooms code found rs = scan_room code found (concat (map snd rs))"
proof (induction rs arbitrary: found)
  case Nil
  then show ?case by simp
next
  case (Cons r rs)
  have app: "scan_room code f (xs @ ys) =
      (case scan_room code f xs of None \<Rightarrow> None | Some f' \<Rightarrow> scan_room code f' ys)" for f xs ys
    by (induction xs arbitrary: f) auto
  show ?case by (simp add: app Cons split: option.splits)
qed

lemma find_peer_manual_eq:
  "find_peer_manual code st =
     (case holders code st of
        [] \<Rightarrow> NotFound
      | [p] \<Rightarrow> Found (sender p)
      | _ \<Rightarrow> Ambiguous)"
  by (auto simp: find_peer_manual_def scan_rooms_eq_scan_room scan_room_eq holders_def
      split: list.splits option.splits)

text \<open>The holders of a code are one per room that has the code.\<close>

lemma mset_holders: "mset (rooms s) = mset (rooms t) \<Longrightarrow> mset (holders code s) = mset (holders code t)"
proof -
  have "mset (concat (map snd xs)) = \<Sum>\<^sub># (image_mset (\<lambda>r. mset (snd r)) (mset xs))"
    for xs :: "(string \<times> peer_info list) list"
    by (induction xs) auto
  then show "mset (rooms s) = mset (rooms t) \<Longrightarrow> ?thesis"
    by (simp add: holders_def mset_filter)
qed

lemma find_peer_manual_order:
  assumes "mset (rooms s) = mset (rooms t)"
  shows "find_peer_manual code s = find_peer_manual code t"
  using mset_holders [OF assms, of code]
  by (auto simp: find_peer_manual_eq split: list.splits) 

section \<open>Counts\<close>

lemma peer_count_update:
  "distinct (map fst rs) \<Longrightarrow>
   sum_list (map (\<lambda>r. length (snd r)) (AList.update ip room rs)) + (case map_of rs ip of None \<Rightarrow> 0 | Some r \<Rightarrow> length r)
     = sum_list (map (\<lambda>r. length (snd r)) rs) + length room"
  by (induction rs) (auto split: option.splits simp: map_of_eq_None_iff)

end
