(* ===== verification/Room_System.thy ===== *)
theory Room_System
  imports Room
begin

text \<open>
  The room manager as a transition system, and its properties. A step is one complete
  operation; between operations the connections' write tasks may change the channels in any
  way. Runs count the calls of \<open>add_peer\<close>, the only operation that consumes session
  identifiers.
\<close>

section \<open>Runs\<close>

inductive room_run :: "nat \<Rightarrow> 'v rv_state \<Rightarrow> 'v rv_state \<Rightarrow> bool" where
  run_refl: "room_run 0 st st"
| run_add: "room_run n st st1 \<Longrightarrow> add_peer ip peer st1 = (r, st2) \<Longrightarrow> room_run (Suc n) st st2"
| run_remove: "room_run n st st1 \<Longrightarrow> room_run n st (remove_peer ip code sid st1)"
| run_channels: "room_run n st st1 \<Longrightarrow> room_run n st (st1\<lparr>chans := cs\<rparr>)"

inductive room_step :: "'v rv_state \<Rightarrow> 'v rv_state \<Rightarrow> bool" where
  step_add: "add_peer ip peer st = (r, st') \<Longrightarrow> room_step st st'"
| step_remove: "room_step st (remove_peer ip code sid st)"
| step_channels: "room_step st (st\<lparr>chans := cs\<rparr>)"

lemma rooms_inv_chans [simp]: "rooms_inv (st\<lparr>chans := cs\<rparr>) = rooms_inv st"
  by (rule rooms_inv_cong) simp

inductive_cases room_stepE: "room_step st st'"

interpretation rsys: invariant_system "\<lambda>st. st = room_manager_new" room_step rooms_inv
proof unfold_locales
  show "rooms_inv t" if "rooms_inv s" "room_step s t" for s t :: "'v rv_state"
    using that(2,1)
    by (cases rule: room_step.cases)
      (auto intro: rooms_inv_add_peer rooms_inv_remove_peer)
qed (simp add: rooms_inv_new)

lemma room_run_steps: "room_run n s t \<Longrightarrow> room_step\<^sup>*\<^sup>* s t"
  by (induction rule: room_run.induct)
    (auto intro: room_step.intros rtranclp.rtrancl_into_rtrancl)

lemma room_run_inv: "room_run n s t \<Longrightarrow> rooms_inv s \<Longrightarrow> rooms_inv t"
  using room_run_steps rsys.inv_steps by blast

section \<open>Session identifiers\<close>

lemma next_session_remove_peer [simp]:
  "next_session (remove_peer ip code sid st) = next_session st"
  by (auto simp: remove_peer_def remove_peer_locked_def remove_room_def Let_def
      split: option.splits prod.splits)

lemma next_session_add_peer:
  "add_peer ip peer st = (r, st') \<Longrightarrow> next_session st' = next_session st + 1"
  by (auto simp: add_peer_def add_peer_entry_def Let_def split: if_splits)

lemma add_peer_session:
  "add_peer ip peer st = (Inr (existing, sid), st') \<Longrightarrow> sid = next_session st"
  by (auto simp: add_peer_def Let_def split: if_splits prod.splits sum.splits)

lemma room_run_next_session:
  "room_run n s t \<Longrightarrow> next_session t = next_session s + of_nat n"
  by (induction rule: room_run.induct) (auto simp: next_session_add_peer)

text \<open>
  The counter comes back to an old value only after \<open>2 ^ 64\<close> calls.
\<close>

lemma session_fresh:
  fixes s :: u64
  assumes "k < 2 ^ 64 - 1"
  shows "s + 1 + of_nat k \<noteq> s"
proof
  assume "s + 1 + of_nat k = s"
  then have "of_nat (Suc k) = (0 :: u64)" by (simp add: add.assoc)
  then have "2 ^ 64 dvd Suc k" by (simp only: word_of_nat_eq_0_iff) simp
  with assms show False by (auto dest: dvd_imp_le)
qed

text \<open>A session that does not hold a code never holds it again.\<close>

lemma holds_session_cong: "rooms s = rooms t \<Longrightarrow> holds_session ip c sid s = holds_session ip c sid t"
  using directory_cong [of s t] by (simp add: holds_session_def)

lemma holds_session_add:
  assumes "rooms_inv st" "add_peer ip' peer st = (r, st')" "holds_session ip c sid st'"
  shows "holds_session ip c sid st \<or> sid = next_session st"
proof (cases r)
  case (Inl e)
  with assms directory_add_peer_err [of st ip' peer e st'] show ?thesis
    by (simp add: holds_session_def)
next
  case (Inr x)
  then obtain existing s where r: "r = Inr (existing, s)" by (cases x) auto
  with assms have "directory st' = (directory st)((ip', peer_code peer) \<mapsto> peer\<lparr>session_id := s\<rparr>)"
    by (intro directory_add_peer) auto
  moreover have "s = next_session st" using assms(2) r add_peer_session by blast
  ultimately show ?thesis
    using assms(3) by (auto simp: holds_session_def split: if_splits option.splits)
qed

lemma holds_session_remove:
  assumes "rooms_inv st" "holds_session ip c sid (remove_peer ip' c' sid' st)"
  shows "holds_session ip c sid st"
  using assms by (auto simp: holds_session_def directory_remove_peer split: option.splits if_splits)

lemma not_holds_run:
  assumes "room_run n s t" "rooms_inv s" "\<not> holds_session ip c sid s"
    "next_session s = sid + 1 + of_nat k" "k + n < 2 ^ 64"
  shows "\<not> holds_session ip c sid t"
  using assms
proof (induction rule: room_run.induct)
  case (run_refl st)
  then show ?case by simp
next
  case (run_add n st st1 ip' peer r st2)
  then have IH: "\<not> holds_session ip c sid st1" by simp
  have "next_session st1 = sid + 1 + of_nat (k + n)"
    using room_run_next_session [OF run_add.hyps(1)] run_add.prems(3) by (simp add: add.assoc)
  then have "sid \<noteq> next_session st1"
    using session_fresh [of "k + n" sid] run_add.prems(4) by simp
  with IH show ?case
    using holds_session_add [OF _ run_add.hyps(2)] room_run_inv [OF run_add.hyps(1)] run_add.prems(1)
    by blast
next
  case (run_remove n st st1 ip' code sid')
  then show ?case using holds_session_remove room_run_inv by blast
next
  case (run_channels n st st1 cs)
  then show ?case using holds_session_cong [of "st1\<lparr>chans := cs\<rparr>" st1] by simp
qed

section \<open>Broadcasts to the rest of a room\<close>

lemma queue_broadcast_others:
  assumes "distinct (map sender (room_at ip st))"
  shows "queue (chans (broadcast m (others ip code st) st') c) =
    queue (chans st' c) @
      (if rx_alive (chans st' c) \<and>
          (\<exists>p\<in>set (room_at ip st). peer_code p \<noteq> code \<and> sender p = c)
       then [m] else [])"
proof -
  have "distinct (map sender (others ip code st))"
    using assms by (simp add: others_def distinct_map_filter)
  then have "count_list (map sender (others ip code st)) c =
      (if c \<in> set (map sender (others ip code st)) then 1 else 0)"
    by (rule count_list_distinct)
  then show ?thesis by (auto simp: queue_broadcast others_def)
qed

lemma queue_add_peer:
  assumes "rooms_inv st" "add_peer ip peer st = (Inr (existing, sid), st')"
    "distinct (map sender (room_at ip st))"
  shows "queue (chans st' c) =
    queue (chans st c) @
      (if rx_alive (chans st c) \<and>
          (\<exists>p\<in>set (room_at ip st). peer_code p \<noteq> peer_code peer \<and> sender p = c)
       then [PeerJoined (to_peer_data peer)] else [])"
  using assms(1,2)
proof (cases rule: add_peer_cases)
  case added
  then show ?thesis
    using queue_broadcast_others [OF assms(3), of "PeerJoined (to_peer_data peer)" "peer_code peer"
        "st\<lparr>next_session := next_session st + 1\<rparr>" c] by simp
qed simp_all

section \<open>Counting peers\<close>

lemma keys_directory:
  "dom (directory st) =
    (SIGMA ip : fst ` set (rooms st). peer_code ` set (room_at ip st))"
proof -
  have "room_at ip st = [] \<or> ip \<in> fst ` set (rooms st)" for ip
    by (auto simp: room_at_def map_of_eq_None_iff split: option.splits dest: map_of_SomeD)
      (metis fst_conv image_eqI map_of_SomeD)
  moreover have "directory st (ip, c) \<noteq> None \<longleftrightarrow> c \<in> peer_code ` set (room_at ip st)" for ip c
    by (auto simp: directory_def find_None_iff)
  ultimately show ?thesis by (auto simp: dom_def) (metis empty_iff image_is_empty set_empty)+
qed

lemma room_at_mem:
  assumes "distinct (map fst (rooms st))" "(ip, room) \<in> set (rooms st)"
  shows "room_at ip st = room"
  using assms by (simp add: room_at_def map_of_is_SomeI)

lemma sum_list_alist:
  assumes "distinct (map fst rs)"
  shows "sum_list (map (\<lambda>r. f (fst r)) rs) = (\<Sum>k\<in>fst ` set rs. f k :: nat)"
  using assms by (induction rs) auto

lemma peer_count_codes:
  assumes "distinct (map fst (rooms st))" "\<And>ip. room_ok (room_at ip st)"
  shows "peer_count st = card (dom (directory st))"
proof -
  have "peer_count st = sum_list (map (\<lambda>r. length (room_at (fst r) st)) (rooms st))"
    unfolding peer_count_def
    using room_at_mem [OF assms(1)] by (intro arg_cong [where f = sum_list] map_cong) auto
  also have "\<dots> = (\<Sum>ip\<in>fst ` set (rooms st). length (room_at ip st))"
    using assms(1) by (intro sum_list_alist)
  also have "\<dots> = (\<Sum>ip\<in>fst ` set (rooms st). card (peer_code ` set (room_at ip st)))"
  proof (rule sum.cong [OF refl])
    fix ip
    have "distinct (map peer_code (room_at ip st))"
      using assms(2) by (simp add: room_ok_def)
    then show "length (room_at ip st) = card (peer_code ` set (room_at ip st))"
      using distinct_card by fastforce
  qed
  finally show ?thesis by (simp add: keys_directory)
qed

lemma peer_count_card: "rooms_inv st \<Longrightarrow> peer_count st = card (dom (directory st))"
  by (rule peer_count_codes) (simp_all add: rooms_inv_def rooms_inv_room_ok)

lemma room_count_card:
  assumes "rooms_inv st"
  shows "room_count st = card (fst ` dom (directory st))"
proof -
  have "room_at ip st \<noteq> []" if "ip \<in> fst ` set (rooms st)" for ip
    using that assms room_at_mem by (fastforce simp: rooms_inv_def)
  then have "fst ` dom (directory st) = fst ` set (rooms st)"
    by (auto simp: keys_directory fst_image_Sigma)
  moreover have "card (fst ` set (rooms st)) = length (rooms st)"
    using assms distinct_card [of "map fst (rooms st)"] by (simp add: rooms_inv_def)
  ultimately show ?thesis by (simp add: room_count_def)
qed

section \<open>Manual lookup over the directory\<close>

text \<open>The addresses of the rooms that hold a code.\<close>

definition rooms_with :: "string \<Rightarrow> 'v rv_state \<Rightarrow> string set" where
  "rooms_with code st = {ip. directory st (ip, code) \<noteq> None}"

lemma filter_code_find:
  "distinct (map peer_code room) \<Longrightarrow>
   filter (\<lambda>p. peer_code p = code) room =
     (case List.find (\<lambda>p. peer_code p = code) room of None \<Rightarrow> [] | Some p \<Rightarrow> [p])"
proof (induction room)
  case Nil
  then show ?case by simp
next
  case (Cons q room)
  show ?case
  proof (cases "peer_code q = code")
    case True
    with Cons.prems have "filter (\<lambda>p. peer_code p = code) room = []"
      by (auto simp: filter_empty_conv image_iff)
    with True show ?thesis by simp
  qed (use Cons in simp)
qed

lemma holders_eq:
  assumes "rooms_inv st"
  shows "holders code st =
    map (\<lambda>r. the (directory st (fst r, code)))
      (filter (\<lambda>r. fst r \<in> rooms_with code st) (rooms st))"
proof -
  have "filter (\<lambda>p. peer_code p = code) (snd r) =
      (if fst r \<in> rooms_with code st then [the (directory st (fst r, code))] else [])"
    if "r \<in> set (rooms st)" for r
  proof -
    have "snd r = room_at (fst r) st" using that assms room_at_mem [of st "fst r" "snd r"] by (simp add: rooms_inv_def)
    moreover have "distinct (map peer_code (room_at (fst r) st))"
      using rooms_inv_room_ok [OF assms] by (simp add: room_ok_def)
    ultimately show ?thesis
      by (auto simp: filter_code_find rooms_with_def directory_def split: option.splits)
  qed
  then have "concat (map (\<lambda>r. filter (\<lambda>p. peer_code p = code) (snd r)) rs) =
      map (\<lambda>r. the (directory st (fst r, code))) (filter (\<lambda>r. fst r \<in> rooms_with code st) rs)"
    if "set rs \<subseteq> set (rooms st)" for rs
    using that by (induction rs) auto
  then show ?thesis by (simp add: holders_def filter_concat comp_def)
qed

lemma rooms_with_keys: "rooms_inv st \<Longrightarrow> rooms_with code st \<subseteq> fst ` set (rooms st)"
  using keys_directory [of st] by (auto simp: rooms_with_def dom_def)

lemma holders_rooms:
  assumes "rooms_inv st"
  obtains ips where "distinct ips" "set ips = rooms_with code st"
    "holders code st = map (\<lambda>ip. the (directory st (ip, code))) ips"
proof
  let ?ips = "map fst (filter (\<lambda>r. fst r \<in> rooms_with code st) (rooms st))"
  show "distinct ?ips" using assms by (simp add: distinct_map_filter rooms_inv_def)
  show "set ?ips = rooms_with code st" using rooms_with_keys [OF assms, of code] by auto
  show "holders code st = map (\<lambda>ip. the (directory st (ip, code))) ?ips"
    by (simp add: holders_eq [OF assms] comp_def)
qed

lemma find_peer_manual_cases:
  assumes "rooms_inv st"
  shows "(find_peer_manual code st = NotFound \<longleftrightarrow> rooms_with code st = {}) \<and>
    (find_peer_manual code st = Found tx \<longleftrightarrow>
       (\<exists>ip p. rooms_with code st = {ip} \<and> directory st (ip, code) = Some p \<and> sender p = tx)) \<and>
    (find_peer_manual code st = Ambiguous \<longleftrightarrow> (\<exists>ip\<in>rooms_with code st. rooms_with code st \<noteq> {ip}))"
proof -
  obtain ips where ips: "distinct ips" "set ips = rooms_with code st"
    "holders code st = map (\<lambda>ip. the (directory st (ip, code))) ips"
    using holders_rooms [OF assms] .
  have some: "directory st (ip, code) \<noteq> None" if "ip \<in> set ips" for ip
    using that ips(2) by (simp add: rooms_with_def)
  consider "ips = []" | ip where "ips = [ip]" | ip ip' rest where "ips = ip # ip' # rest"
    by (metis neq_Nil_conv)
  then have "(find_peer_manual code st = NotFound \<longleftrightarrow> set ips = {}) \<and>
    (find_peer_manual code st = Found tx \<longleftrightarrow>
       (\<exists>ip p. set ips = {ip} \<and> directory st (ip, code) = Some p \<and> sender p = tx)) \<and>
    (find_peer_manual code st = Ambiguous \<longleftrightarrow> (\<exists>ip\<in>set ips. set ips \<noteq> {ip}))"
  proof cases
    case 1
    with ips(3) show ?thesis by (simp add: find_peer_manual_eq)
  next
    case (2 ip)
    with some [of ip] ips(3) show ?thesis by (auto simp: find_peer_manual_eq)
  next
    case (3 ip ip' rest)
    with ips(1) have "ip \<noteq> ip'" by simp
    with 3 ips(3) show ?thesis by (auto simp: find_peer_manual_eq)
  qed
  then show ?thesis using ips(2) by auto
qed

lemma find_peer_manual_found:
  "rooms_inv st \<Longrightarrow> find_peer_manual code st = Found tx \<Longrightarrow>
   \<exists>ip p. rooms_with code st = {ip} \<and> directory st (ip, code) = Some p \<and> sender p = tx"
  using find_peer_manual_cases by blast

section \<open>Concrete rooms\<close>

text \<open>The peers the unit tests of \<open>room.rs\<close> register, on a given channel.\<close>

definition make_peer :: "string \<Rightarrow> string \<Rightarrow> nat \<Rightarrow> peer_info" where
  "make_peer code name tx =
     \<lparr>peer_code = code, device_name = name, device_type = Desktop, sender = tx,
      session_id = 0, wt_url = None, wt_cert_hash = None\<rparr>"

lemma make_peer_simps [simp]:
  "peer_code (make_peer code name tx) = code" "sender (make_peer code name tx) = tx"
  "session_id (make_peer code name tx) = 0"
  by (simp_all add: make_peer_def)

lemma directory_new [simp]: "directory room_manager_new = Map.empty"
  by (auto simp: directory_def room_at_def room_manager_new_def)

text \<open>The manager's state after one registration.\<close>

definition first_peer :: "string \<Rightarrow> peer_info \<Rightarrow> 'v rv_state" where
  "first_peer ip p = snd (add_peer ip p room_manager_new)"

lemma limits_pos [simp]: "0 < MAX_ROOMS" "0 < MAX_PEERS_PER_ROOM" "Suc 0 < MAX_PEERS_PER_ROOM"
    "Suc 0 < MAX_ROOMS"
  by (simp_all add: MAX_ROOMS_def MAX_PEERS_PER_ROOM_def)

lemma first_peer_eq:
  "add_peer ip p room_manager_new = (Inr ([], 1), first_peer ip p)"
  "first_peer ip p =
     room_manager_new\<lparr>rooms := [(ip, [p\<lparr>session_id := 1\<rparr>])], next_session := 2\<rparr>"
proof -
  show "first_peer ip p =
     room_manager_new\<lparr>rooms := [(ip, [p\<lparr>session_id := 1\<rparr>])], next_session := 2\<rparr>"
    by (simp add: first_peer_def add_peer_def add_peer_refused_def add_peer_entry_def
        room_manager_new_def Let_def room_at_def not_le)
  show "add_peer ip p room_manager_new = (Inr ([], 1), first_peer ip p)"
    by (simp add: first_peer_def add_peer_def add_peer_refused_def add_peer_entry_def
        room_manager_new_def Let_def room_at_def not_le)
qed

lemma first_peer_inv: "rooms_inv (first_peer ip p)"
  using rooms_inv_add_peer [OF rooms_inv_new first_peer_eq(1)] .

lemma first_peer_directory:
  "directory (first_peer ip p) = [(ip, peer_code p) \<mapsto> p\<lparr>session_id := 1\<rparr>]"
  by (auto simp: first_peer_eq(2) directory_def fun_eq_iff room_at_def)

section \<open>Properties\<close>

text \<open>
  In every state the room manager reaches by complete operations, addresses have one room
  each, no room is empty or holds a code twice, no room exceeds its limit of peers and the
  table its limit of rooms; so the server never stores more than 16777216 peers.
\<close>

lemma rooms_always_bounded:
  assumes "reachable (\<lambda>st. st = room_manager_new) room_step st"
  shows "rooms_inv st \<and> peer_count st \<le> 16777216"
proof -
  have inv: "rooms_inv st" using rsys.inv_reachable [OF assms] .
  then have "length (snd r) \<le> 256" if "r \<in> set (rooms st)" for r
    using that by (auto simp: rooms_inv_def room_ok_def MAX_PEERS_PER_ROOM_def)
  then have "peer_count st \<le> length (rooms st) * 256"
    unfolding peer_count_def using sum_list_mono [of "rooms st" "\<lambda>r. length (snd r)" "\<lambda>_. 256"]
    by (simp add: sum_list_triv)
  moreover have "length (rooms st) \<le> 65536" using inv by (simp add: rooms_inv_def MAX_ROOMS_def)
  ultimately show ?thesis using inv by simp
qed

lemma rooms_always_bounded_witness:
  "rooms_inv (first_peer ''10.0.0.1'' (make_peer ''ALPHA'' ''A'' 0) :: nat rv_state) \<and>
   peer_count (first_peer ''10.0.0.1'' (make_peer ''ALPHA'' ''A'' 0) :: nat rv_state) \<le> 16777216"
proof -
  have "room_step (room_manager_new :: nat rv_state)
      (first_peer ''10.0.0.1'' (make_peer ''ALPHA'' ''A'' 0))"
    by (rule step_add [OF first_peer_eq(1)])
  then show ?thesis
    by (intro rooms_always_bounded reach_step [OF reach_init]) simp_all
qed

text \<open>
  C18: registration is an update of the directory. A successful \<open>add_peer\<close> makes the code
  at the address belong to the new peer, with the session it returns, whoever held it before;
  nothing else changes; and the list it returns is what the room shows without the holder of
  that code.
\<close>

theorem add_peer_registers:
  assumes "rooms_inv st" "add_peer ip peer st = (Inr (existing, sid), st')"
  shows "directory st' = (directory st)((ip, peer_code peer) \<mapsto> peer\<lparr>session_id := sid\<rparr>) \<and>
    existing = filter (\<lambda>d. pd_peer_code d \<noteq> peer_code peer) (get_room_peers ip st) \<and>
    get_room_peers ip st' = existing @ [to_peer_data peer]"
proof -
  have data: "to_peer_data (p\<lparr>session_id := n\<rparr>) = to_peer_data p" "pd_peer_code (to_peer_data p) = peer_code p"
    for p n by (simp_all add: to_peer_data_def)
  have peers: "get_room_peers ip s = map to_peer_data (room_at ip s)" for s :: "'a rv_state"
    by (simp add: get_room_peers_def room_at_def split: option.splits)
  show ?thesis
    using assms
  proof (cases rule: add_peer_cases)
    case added
    have "existing = filter (\<lambda>d. pd_peer_code d \<noteq> peer_code peer) (get_room_peers ip st)"
      using added(3) by (simp add: peers others_def filter_map comp_def data)
    moreover have "get_room_peers ip st' = existing @ [to_peer_data peer]"
      using added(3,4) by (simp add: peers data update_conv')
    ultimately show ?thesis using directory_add_peer [OF assms] by simp
  qed simp_all
qed

theorem add_peer_registers_witness:
  "directory (first_peer ''10.0.0.1'' (make_peer ''ALPHA'' ''A'' 0) :: nat rv_state) (''10.0.0.1'', ''ALPHA'')
     = Some (make_peer ''ALPHA'' ''A'' 0\<lparr>session_id := 1\<rparr>)"
  using add_peer_registers [OF rooms_inv_new first_peer_eq(1), where ?'a = nat,
      of "''10.0.0.1''" "make_peer ''ALPHA'' ''A'' 0"]
  by simp

text \<open>
  Removal acts for one session only. \<open>remove_peer\<close> deletes exactly the entry of the
  given address and code, and only if it was registered by the given session; otherwise the
  whole state, messages included, stays as it is.
\<close>

lemma remove_peer_own_session_only:
  assumes "rooms_inv st"
  shows "if \<exists>p. directory st (ip, code) = Some p \<and> session_id p = sid
    then directory (remove_peer ip code sid st) = (directory st)((ip, code) := None)
    else remove_peer ip code sid st = st"
proof (cases "holds_session ip code sid st")
  case True
  with directory_remove_peer [OF assms, of ip code sid] show ?thesis
    by (auto simp: holds_session_def split: option.splits)
next
  case False
  with remove_peer_eq [OF assms, of ip code sid] show ?thesis
    by (auto simp: holds_session_def)
qed

lemma remove_peer_own_session_only_witness:
  "directory (remove_peer ''10.0.0.1'' ''ALPHA'' 1
      (first_peer ''10.0.0.1'' (make_peer ''ALPHA'' ''A'' 0) :: nat rv_state)) = Map.empty \<and>
   remove_peer ''10.0.0.1'' ''ALPHA'' 7 (first_peer ''10.0.0.1'' (make_peer ''ALPHA'' ''A'' 0) :: nat rv_state)
     = first_peer ''10.0.0.1'' (make_peer ''ALPHA'' ''A'' 0)"
  using remove_peer_own_session_only [OF first_peer_inv, where ?'a = nat,
      of "''10.0.0.1''" "make_peer ''ALPHA'' ''A'' 0" "''10.0.0.1''" "''ALPHA''" 1]
    remove_peer_own_session_only [OF first_peer_inv, where ?'a = nat,
      of "''10.0.0.1''" "make_peer ''ALPHA'' ''A'' 0" "''10.0.0.1''" "''ALPHA''" 7]
  by (simp add: first_peer_directory)

text \<open>
  C14: the clean-up of a replaced connection never touches its replacement. A peer registers
  and gets session \<open>s\<close>; after any operations another connection registers the same code in
  the same room; whatever happens then, removing with session \<open>s\<close> changes nothing, unless
  \<open>2 ^ 64\<close> registrations were made in between and the counter came round.
\<close>

theorem stale_cleanup_harmless:
  assumes "rooms_inv st0" "add_peer ip p st0 = (Inr (x, s), st1)" "room_run m st1 st2"
    "add_peer ip q st2 = (Inr (y, s'), st3)" "peer_code q = peer_code p" "room_run n st3 st4"
    "m + n + 2 < 2 ^ 64"
  shows "remove_peer ip (peer_code p) s st4 = st4"
proof -
  have s: "s = next_session st0" using add_peer_session [OF assms(2)] .
  have inv2: "rooms_inv st2"
    using room_run_inv [OF assms(3)] rooms_inv_add_peer [OF assms(1,2)] by blast
  then have inv3: "rooms_inv st3" using rooms_inv_add_peer assms(4) by blast
  have n2: "next_session st2 = s + 1 + of_nat m"
    using room_run_next_session [OF assms(3)] next_session_add_peer [OF assms(2)] s by simp
  then have "s' \<noteq> s"
    using session_fresh [of m s] assms(7) add_peer_session [OF assms(4)] by simp
  then have "\<not> holds_session ip (peer_code p) s st3"
    using rm.dir_add_ok [OF inv2 assms(4)] assms(5) by (auto simp: holds_session_def)
  moreover have "next_session st3 = s + 1 + of_nat (Suc m)"
    using next_session_add_peer [OF assms(4)] n2 by (simp add: algebra_simps)
  ultimately have "\<not> holds_session ip (peer_code p) s st4"
    using not_holds_run [OF assms(6) inv3, of ip "peer_code p" s "Suc m"] assms(7) by simp
  with room_run_inv [OF assms(6) inv3] show ?thesis by (simp add: remove_peer_eq)
qed

theorem stale_cleanup_harmless_witness:
  "let p = make_peer ''RECONNECT'' ''First'' 0; q = make_peer ''RECONNECT'' ''Second'' 1;
       st1 = first_peer ''10.0.0.1'' p :: nat rv_state; st3 = snd (add_peer ''10.0.0.1'' q st1)
   in remove_peer ''10.0.0.1'' ''RECONNECT'' 1 st3 = st3 \<and>
      directory st3 (''10.0.0.1'', ''RECONNECT'') = Some (q\<lparr>session_id := 2\<rparr>)"
proof -
  let ?p = "make_peer ''RECONNECT'' ''First'' 0" and ?q = "make_peer ''RECONNECT'' ''Second'' 1"
  let ?st = "first_peer ''10.0.0.1'' ?p :: nat rv_state"
  obtain r st3 where a: "add_peer ''10.0.0.1'' ?q ?st = (r, st3)" by fastforce
  have "r = Inr ([], 2)"
    using first_peer_inv a
  proof (cases rule: add_peer_cases)
    case refused
    then show ?thesis by (simp add: add_peer_refused_def first_peer_eq(2))
  qed (auto simp: others_def first_peer_eq(2) room_at_def MAX_PEERS_PER_ROOM_def)
  with a have b: "add_peer ''10.0.0.1'' ?q ?st = (Inr ([], 2), st3)" by simp
  have "remove_peer ''10.0.0.1'' (peer_code ?p) 1 st3 = st3"
    by (rule stale_cleanup_harmless [OF rooms_inv_new first_peer_eq(1) run_refl b _ run_refl])
      simp_all
  moreover have "directory st3 (''10.0.0.1'', ''RECONNECT'') = Some (?q\<lparr>session_id := 2\<rparr>)"
    using directory_add_peer [OF first_peer_inv b] by simp
  ultimately show ?thesis using b by simp
qed

text \<open>
  C23: when registration fails. \<open>add_peer\<close> returns an error exactly when the address has no
  room and the table is full, or when the code is new to a room that has 256 peers; then
  neither the rooms nor any channel change. So a client that reconnects under a code it still
  holds is never turned away.
\<close>

theorem add_peer_error_iff:
  assumes "rooms_inv st"
  shows "(case add_peer ip peer st of
      (Inl e, st') \<Rightarrow>
        directory st (ip, peer_code peer) = None \<and>
        (length (room_at ip st) = 256 \<or> room_at ip st = [] \<and> room_count st = 65536) \<and>
        rooms st' = rooms st \<and> chans st' = chans st
    | (Inr _, _) \<Rightarrow>
        directory st (ip, peer_code peer) \<noteq> None \<or>
        (length (room_at ip st) < 256 \<and> (room_at ip st \<noteq> [] \<or> room_count st < 65536)))"
proof -
  have len: "length (room_at ip st) \<le> 256"
    using rooms_inv_room_ok [OF assms] by (simp add: room_ok_def MAX_PEERS_PER_ROOM_def)
  have count: "room_count st \<le> 65536"
    using assms by (simp add: rooms_inv_def room_count_def MAX_ROOMS_def)
  have ne: "room_at ip st \<noteq> []" if "map_of (rooms st) ip \<noteq> None"
    using that assms by (auto simp: rooms_inv_iff room_at_def)
  have none: "directory st (ip, peer_code peer) = None \<longleftrightarrow> others ip (peer_code peer) st = room_at ip st"
    by (auto simp: directory_def others_def find_None_iff filter_id_conv)
  obtain r st' where a: "add_peer ip peer st = (r, st')" by fastforce
  show ?thesis
    using assms a
  proof (cases rule: add_peer_cases)
    case refused
    then have "room_at ip st = []" "65536 \<le> room_count st"
      by (auto simp: add_peer_refused_def room_at_def room_count_def MAX_ROOMS_def)
    with refused a count show ?thesis by (simp add: directory_def)
  next
    case full
    with others_full [OF assms full(1)] len a none show ?thesis
      by (simp add: MAX_PEERS_PER_ROOM_def)
  next
    case added
    have "room_at ip st \<noteq> [] \<or> room_count st < 65536"
      using added(1) ne by (auto simp: add_peer_refused_def room_count_def MAX_ROOMS_def)
    with added(2,3) a none show ?thesis by (auto simp: MAX_PEERS_PER_ROOM_def)
  qed
qed

theorem add_peer_error_iff_witness:
  "case add_peer ''10.0.0.1'' (make_peer ''ALPHA'' ''A'' 0) (room_manager_new :: nat rv_state) of
     (Inl e, st') \<Rightarrow> False | (Inr _, _) \<Rightarrow> True"
  using add_peer_error_iff [OF rooms_inv_new, where ?'a = nat,
      of "''10.0.0.1''" "make_peer ''ALPHA'' ''A'' 0"]
  by (simp add: first_peer_eq(1))

text \<open>
  Who is told about a registration. A successful \<open>add_peer\<close> appends one \<open>peer_joined\<close>
  with the new peer's public data to the queue of every other peer of the room whose receiver
  still exists, and touches no other queue: not those of other rooms, and not that of the
  connection it replaces.
\<close>

lemma add_peer_notifies:
  assumes "rooms_inv st" "add_peer ip peer st = (Inr (existing, sid), st')"
    "distinct (map sender (room_at ip st))"
  shows "queue (chans st' c) =
    queue (chans st c) @
      (if rx_alive (chans st c) \<and>
          (\<exists>p\<in>set (room_at ip st). peer_code p \<noteq> peer_code peer \<and> sender p = c)
       then [PeerJoined (to_peer_data peer)] else [])"
  by (rule queue_add_peer [OF assms])

text \<open>A state with one registered peer whose receivers all exist.\<close>

definition live_peer :: "string \<Rightarrow> peer_info \<Rightarrow> 'v rv_state" where
  "live_peer ip p = (first_peer ip p)\<lparr>chans := \<lambda>_. \<lparr>rx_alive = True, queue = [], wire = []\<rparr>\<rparr>"

lemma live_peer_inv: "rooms_inv (live_peer ip p)"
  using first_peer_inv by (simp add: live_peer_def)

lemma live_peer_rooms [simp]:
  "rooms (live_peer ip p) = [(ip, [p\<lparr>session_id := 1\<rparr>])]"
  "next_session (live_peer ip p) = 2"
  "chans (live_peer ip p) c = \<lparr>rx_alive = True, queue = [], wire = []\<rparr>"
  by (simp_all add: live_peer_def first_peer_eq(2))

lemma add_peer_notifies_witness:
  "let st = live_peer ''10.0.0.1'' (make_peer ''AAA'' ''First'' 0) :: nat rv_state;
       q = make_peer ''BBB'' ''Second'' 1
   in queue (chans (snd (add_peer ''10.0.0.1'' q st)) 0) = [PeerJoined (to_peer_data q)] \<and>
      queue (chans (snd (add_peer ''10.0.0.1'' q st)) 1) = []"
proof -
  let ?st = "live_peer ''10.0.0.1'' (make_peer ''AAA'' ''First'' 0) :: nat rv_state"
  let ?q = "make_peer ''BBB'' ''Second'' 1"
  have room: "room_at ''10.0.0.1'' ?st = [make_peer ''AAA'' ''First'' 0\<lparr>session_id := 1\<rparr>]"
    by (simp add: room_at_def)
  obtain r st' where a: "add_peer ''10.0.0.1'' ?q ?st = (r, st')" by fastforce
  have "is_ok r"
    using live_peer_inv a
  proof (cases rule: add_peer_cases)
    case refused
    then show ?thesis by (simp add: add_peer_refused_def)
  qed (auto simp: others_def room MAX_PEERS_PER_ROOM_def)
  then obtain x s where "r = Inr (x, s)" by (auto simp: is_ok_iff)
  with a have b: "add_peer ''10.0.0.1'' ?q ?st = (Inr (x, s), st')" by simp
  note n = add_peer_notifies [OF live_peer_inv b]
  have "queue (chans st' 0) = [PeerJoined (to_peer_data ?q)]" "queue (chans st' 1) = []"
    using n [of 0] n [of 1] by (simp_all add: room)
  with b show ?thesis by simp
qed

text \<open>
  Who is told about a departure. Removing a registered session appends one \<open>peer_left\<close>
  with its code to the queue of every peer that stays in the room and whose receiver still
  exists, and touches no other queue; the room disappears with its last peer.
\<close>

lemma remove_peer_notifies:
  assumes "rooms_inv st" "directory st (ip, code) = Some p" "distinct (map sender (room_at ip st))"
  shows "queue (chans (remove_peer ip code (session_id p) st) c) =
    queue (chans st c) @
      (if rx_alive (chans st c) \<and>
          (\<exists>q\<in>set (room_at ip st). peer_code q \<noteq> code \<and> sender q = c)
       then [PeerLeft code] else []) \<and>
    (map_of (rooms (remove_peer ip code (session_id p) st)) ip = None
      \<longleftrightarrow> room_at ip st = [p])"
proof -
  have h: "holds_session ip code (session_id p) st" using assms(2) by (simp add: holds_session_def)
  have "p \<in> set (room_at ip st)" "peer_code p = code"
    using assms(1,2) directory_iff by blast+
  moreover have "distinct (map peer_code (room_at ip st))"
    using rooms_inv_room_ok [OF assms(1)] by (simp add: room_ok_def)
  ultimately have "others ip code st = [] \<longleftrightarrow> room_at ip st = [p]"
    by (cases "room_at ip st") (auto simp: others_def filter_empty_conv image_iff)
  then show ?thesis
    using h queue_broadcast_others [OF assms(3), of "PeerLeft code" code st c]
    by (auto simp: remove_peer_eq [OF assms(1)] update_conv' delete_conv')
qed

lemma remove_peer_notifies_witness:
  "map_of (rooms (remove_peer ''10.0.0.1'' ''AAA'' 1
     (live_peer ''10.0.0.1'' (make_peer ''AAA'' ''First'' 0) :: nat rv_state))) ''10.0.0.1'' = None"
proof -
  let ?p = "make_peer ''AAA'' ''First'' 0"
  let ?st = "live_peer ''10.0.0.1'' ?p :: nat rv_state"
  have "directory ?st (''10.0.0.1'', ''AAA'') = Some (?p\<lparr>session_id := 1\<rparr>)"
    "distinct (map sender (room_at ''10.0.0.1'' ?st))"
    by (simp_all add: directory_def room_at_def)
  from remove_peer_notifies [OF live_peer_inv this] show ?thesis
    by (simp add: room_at_def)
qed

text \<open>
  The manual lookup does not guess. It finds a channel exactly when one single room has
  the code, and then that room's holder's; it reports the code missing exactly when no room
  has it and ambiguous exactly when two or more do; and the order in which the table is
  iterated makes no difference.
\<close>

lemma find_peer_manual_unique:
  assumes "rooms_inv st"
  shows "(find_peer_manual code st = NotFound \<longleftrightarrow> rooms_with code st = {}) \<and>
    (find_peer_manual code st = Found tx \<longleftrightarrow>
       (\<exists>ip p. rooms_with code st = {ip} \<and> directory st (ip, code) = Some p \<and> sender p = tx)) \<and>
    (find_peer_manual code st = Ambiguous \<longleftrightarrow> (\<exists>ip\<in>rooms_with code st. rooms_with code st \<noteq> {ip})) \<and>
    (mset (rooms t) = mset (rooms st) \<longrightarrow> find_peer_manual code t = find_peer_manual code st)"
  using find_peer_manual_cases [OF assms, of code tx] find_peer_manual_order [of t st code] by blast

lemma find_peer_manual_unique_witness:
  "find_peer_manual ''AAA'' (live_peer ''10.0.0.1'' (make_peer ''AAA'' ''First'' 5) :: nat rv_state) = Found 5"
proof -
  let ?st = "live_peer ''10.0.0.1'' (make_peer ''AAA'' ''First'' 5) :: nat rv_state"
  have "directory ?st (ip, ''AAA'') =
      (if ip = ''10.0.0.1'' then Some (make_peer ''AAA'' ''First'' 5\<lparr>session_id := 1\<rparr>) else None)" for ip
    by (simp add: directory_def room_at_def)
  then have "rooms_with ''AAA'' ?st = {''10.0.0.1''}" "directory ?st (''10.0.0.1'', ''AAA'') =
      Some (make_peer ''AAA'' ''First'' 5\<lparr>session_id := 1\<rparr>)"
    by (auto simp: rooms_with_def)
  with find_peer_manual_unique [OF live_peer_inv [where ?'a = nat], of "''AAA''" "''10.0.0.1''" "make_peer ''AAA'' ''First'' 5" 5 ?st]
  show ?thesis by simp
qed

text \<open>
  The counters the server reports are the numbers of registered codes and of addresses
  with a registered code.
\<close>

lemma counts_exact:
  assumes "rooms_inv st"
  shows "peer_count st = card (dom (directory st)) \<and> room_count st = card (fst ` dom (directory st))"
  using assms by (simp add: peer_count_card room_count_card)

end
