(* ===== verification/Validation.thy ===== *)
theory Validation
  imports Rust_Std
begin

text \<open>
  The trust-boundary constants and the pure validation helpers of \<open>signal/src/server.rs\<close>,
  with the locale of peer-code normalisers that both \<open>validate_peer_code\<close> and
  \<open>validate_signal_target\<close> interpret.
\<close>

section \<open>Constants\<close>

definition MAX_MESSAGE_BYTES :: nat where "MAX_MESSAGE_BYTES = 1048576"
definition MAX_DEVICE_NAME_BYTES :: nat where "MAX_DEVICE_NAME_BYTES = 256"
definition MAX_PEER_CODE_BYTES :: nat where "MAX_PEER_CODE_BYTES = 16"
definition RATE_LIMIT_PER_SECOND :: u32 where "RATE_LIMIT_PER_SECOND = 50"
definition RATE_LIMIT_CLOSE_THRESHOLD :: u32 where "RATE_LIMIT_CLOSE_THRESHOLD = 3"

section \<open>Validators\<close>

definition validate_message_size :: "nat \<Rightarrow> (string, unit) result" where
  "validate_message_size len =
     (if len > MAX_MESSAGE_BYTES then
        Inl (''message too large ('' @ show_nat len @ '' bytes, max '' @
             show_nat MAX_MESSAGE_BYTES @ '')'')
      else Inr ())"

definition validate_device_name :: "string \<Rightarrow> (string, unit) result" where
  "validate_device_name name =
     (if length name > MAX_DEVICE_NAME_BYTES then
        Inl (''device_name too long ('' @ show_nat (length name) @ '' bytes, max '' @
             show_nat MAX_DEVICE_NAME_BYTES @ '')'')
      else Inr ())"

definition strip_hyphens :: "string \<Rightarrow> string" where
  "strip_hyphens s = filter (\<lambda>c. c \<noteq> CHR ''-'') s"

definition validate_signal_target :: "string \<Rightarrow> (string, string) result" where
  "validate_signal_target to =
     (let normalized = strip_hyphens to
      in if normalized = [] then Inl ''invalid_peer_code: Target peer code cannot be empty''
         else if length normalized > MAX_PEER_CODE_BYTES then
           Inl (''invalid_peer_code: Target peer code too long ('' @ show_nat (length normalized) @
                '' chars, max '' @ show_nat MAX_PEER_CODE_BYTES @ '' after removing hyphens)'')
         else if \<not> list_all is_ascii_alphanumeric normalized then
           Inl (''invalid_peer_code: Target peer code must contain only letters and digits '' @
                ''(a-z, A-Z, 0-9). Hyphens are stripped automatically.'')
         else Inr normalized)"

definition validate_peer_code :: "string \<Rightarrow> (string, string) result" where
  "validate_peer_code code =
     (let normalized = strip_hyphens code
      in if normalized = [] then Inl ''invalid_peer_code: Peer code cannot be empty''
         else if length normalized > MAX_PEER_CODE_BYTES then
           Inl (''invalid_peer_code: Peer code too long (max '' @ show_nat MAX_PEER_CODE_BYTES @
                '' characters after removing hyphens)'')
         else if \<not> list_all is_ascii_alphanumeric normalized then
           Inl (''invalid_peer_code: Peer code must contain only letters and digits '' @
                ''(a-z, A-Z, 0-9). Hyphens are stripped automatically.'')
         else Inr normalized)"

text \<open>What a normalised peer code looks like.\<close>

definition valid_code :: "string \<Rightarrow> bool" where
  "valid_code c \<longleftrightarrow>
     c \<noteq> [] \<and> length c \<le> MAX_PEER_CODE_BYTES \<and> list_all is_ascii_alphanumeric c"

section \<open>Peer-code normalisers\<close>

text \<open>
  The contract the connection handler relies on, for both kinds of code it takes from a
  client: success returns the input without its hyphens, exactly when that is a valid code,
  and every refusal starts with the prefix clients match on.
\<close>

locale code_normaliser =
  fixes norm :: "string \<Rightarrow> (string, string) result"
  assumes norm_ok: "norm s = Inr c \<longleftrightarrow> c = strip_hyphens s \<and> valid_code c"
    and norm_err: "norm s = Inl e \<Longrightarrow> prefix ''invalid_peer_code: '' e"
begin

lemma accepts_iff: "is_ok (norm s) \<longleftrightarrow> valid_code (strip_hyphens s)"
  by (auto simp: is_ok_iff norm_ok)

lemma result_valid: "norm s = Inr c \<Longrightarrow> valid_code c"
  using norm_ok by blast

lemma strip_valid: "valid_code c \<Longrightarrow> strip_hyphens c = c"
  unfolding valid_code_def strip_hyphens_def
  by (auto simp: filter_id_conv list_all_iff dest: alphanumeric_not_hyphen)

lemma norm_valid: "valid_code c \<Longrightarrow> norm c = Inr c"
  by (simp add: norm_ok strip_valid)

lemma norm_idem: "norm s = Inr c \<Longrightarrow> norm c = Inr c"
  by (auto intro: norm_valid result_valid)

lemma norm_hyphens: "strip_hyphens s = strip_hyphens t \<Longrightarrow> norm s = Inr c \<longleftrightarrow> norm t = Inr c"
  by (simp add: norm_ok)

end

interpretation reg: code_normaliser validate_peer_code
  by unfold_locales
    (auto simp: validate_peer_code_def valid_code_def Let_def split: if_splits)

interpretation tgt: code_normaliser validate_signal_target
  by unfold_locales
    (auto simp: validate_signal_target_def valid_code_def Let_def split: if_splits)

lemma targets_agree: "validate_signal_target s = Inr c \<longleftrightarrow> validate_peer_code s = Inr c"
  by (simp add: reg.norm_ok tgt.norm_ok)

text \<open>
  The source filters and classifies Unicode characters; on the UTF-8 bytes of any string of
  scalar values this gives the same code.
\<close>

lemma strip_hyphens_utf8:
  "(\<And>c. c \<in> set cs \<Longrightarrow> scalar_value c) \<Longrightarrow>
   strip_hyphens (utf8 cs) = utf8 (filter (\<lambda>c. c \<noteq> 45) cs)"
proof -
  assume "\<And>c. c \<in> set cs \<Longrightarrow> scalar_value c"
  moreover have "CHR ''-'' = char_of (45 :: nat)" by code_simp
  ultimately show ?thesis
    using utf8_filter_ascii [of 45 cs] by (simp add: strip_hyphens_def)
qed

lemma alphanumeric_ascii: "is_ascii_alphanumeric b \<Longrightarrow> byte b < 128"
  by (auto simp: ascii_defs)

lemma utf8_ascii: "list_all (\<lambda>c. c < 128) cs \<Longrightarrow> utf8 cs = map char_of cs"
  by (induction cs) (simp_all add: utf8_char_ascii)

lemma utf8_Nil_iff: "utf8 cs = [] \<longleftrightarrow> cs = []"
  by (cases cs) (auto simp: utf8_char_def)

text \<open>The characters a peer code may consist of, as Unicode scalar values.\<close>

definition alphanumeric_scalar :: "nat \<Rightarrow> bool" where
  "alphanumeric_scalar c \<longleftrightarrow>
     (48 \<le> c \<and> c \<le> 57) \<or> (65 \<le> c \<and> c \<le> 90) \<or> (97 \<le> c \<and> c \<le> 122)"

lemma alphanumeric_scalar_iff:
  "alphanumeric_scalar c \<longleftrightarrow> c < 128 \<and> is_ascii_alphanumeric (char_of c)"
proof (cases "c < 128")
  case True
  then show ?thesis by (auto simp: alphanumeric_scalar_def ascii_defs)
qed (auto simp: alphanumeric_scalar_def)

lemma valid_code_utf8:
  assumes "\<And>c. c \<in> set cs \<Longrightarrow> scalar_value c"
  shows "valid_code (utf8 cs) \<longleftrightarrow>
    cs \<noteq> [] \<and> length cs \<le> MAX_PEER_CODE_BYTES \<and> list_all alphanumeric_scalar cs"
proof -
  have "list_all is_ascii_alphanumeric (utf8 cs) \<longleftrightarrow> list_all alphanumeric_scalar cs"
    using utf8_all_ascii [OF alphanumeric_ascii assms]
    by (simp add: list_all_iff alphanumeric_scalar_iff)
  moreover have "length (utf8 cs) = length cs" if "list_all alphanumeric_scalar cs"
    using that utf8_ascii [of cs] by (simp add: list_all_iff alphanumeric_scalar_iff)
  ultimately show ?thesis by (auto simp: valid_code_def utf8_Nil_iff)
qed

section \<open>Properties\<close>

text \<open>
  On the text a client sends, a string of Unicode characters, registering a code and
  naming it as a target are accepted in the same cases and give the same normalised code:
  without its hyphens the text has between 1 and 16 characters, all of them ASCII letters or
  digits, and the result is these characters.
\<close>

lemma peer_codes_normalised:
  assumes "\<And>c. c \<in> set cs \<Longrightarrow> scalar_value c"
  shows "(validate_peer_code (utf8 cs) = Inr code \<longleftrightarrow>
      (let rest = filter (\<lambda>c. c \<noteq> 45) cs
       in rest \<noteq> [] \<and> length rest \<le> 16 \<and> list_all alphanumeric_scalar rest \<and>
          code = map char_of rest)) \<and>
    (validate_signal_target (utf8 cs) = Inr code \<longleftrightarrow> validate_peer_code (utf8 cs) = Inr code)"
proof -
  let ?rest = "filter (\<lambda>c. c \<noteq> 45) cs"
  have strip: "strip_hyphens (utf8 cs) = utf8 ?rest"
    using assms by (simp add: strip_hyphens_utf8)
  have "valid_code (utf8 ?rest) \<longleftrightarrow>
      ?rest \<noteq> [] \<and> length ?rest \<le> 16 \<and> list_all alphanumeric_scalar ?rest"
    using assms valid_code_utf8 [of ?rest] by (simp add: MAX_PEER_CODE_BYTES_def)
  moreover have "utf8 ?rest = map char_of ?rest" if "list_all alphanumeric_scalar ?rest"
    using that by (intro utf8_ascii) (auto simp: list_all_iff alphanumeric_scalar_iff)
  ultimately show ?thesis
    unfolding targets_agree reg.norm_ok strip Let_def by auto
qed

lemma peer_codes_normalised_witness:
  "validate_peer_code (utf8 [65, 45, 49, 45]) = Inr ''A1'' \<and>
   validate_signal_target (utf8 [65, 45, 49, 45]) = Inr ''A1''"
proof -
  have "scalar_value c" if "c \<in> set [65, 45, 49, 45]" for c
    using that by (auto simp: scalar_value_def)
  note one = peer_codes_normalised [of "[65, 45, 49, 45]" "''A1''", OF this]
  have "map char_of [65, 49 :: nat] = ''A1''" by code_simp
  with one show ?thesis
    by (simp add: alphanumeric_scalar_def)
qed

end
