(* ===== verification/Rate_Limit.thy ===== *)
theory Rate_Limit
  imports Validation
begin

text \<open>
  The per-connection rate limiter of \<open>signal/src/server.rs\<close> (\<open>RateLimit\<close>). A
  \<open>tokio::time::Instant\<close> is a number of nanoseconds; \<open>duration_since\<close> saturates at
  zero, as natural-number subtraction does. The counters are 32-bit.
\<close>

section \<open>State and operations\<close>

record rate_limit =
  remaining :: u32
  window_start :: nat
  consecutive_violations :: u32

definition one_second :: nat where
  "one_second = 1000000000"

definition rate_limit_new :: "nat \<Rightarrow> rate_limit" where
  "rate_limit_new now =
     \<lparr>remaining = RATE_LIMIT_PER_SECOND, window_start = now, consecutive_violations = 0\<rparr>"

text \<open>
  \<open>check\<close> returns \<open>Ok(())\<close> (\<^term>\<open>Inr ()\<close>) for an allowed message, \<open>Err(true)\<close>
  when the socket is to be closed and \<open>Err(false)\<close> when the message is only refused.
\<close>

definition rate_limit_check :: "nat \<Rightarrow> rate_limit \<Rightarrow> (bool, unit) result \<times> rate_limit" where
  "rate_limit_check now rl =
     (let rl1 = (if now - window_start rl \<ge> one_second
                 then rl\<lparr>remaining := RATE_LIMIT_PER_SECOND, window_start := now\<rparr> else rl)
      in if remaining rl1 > 0 then
           (Inr (), rl1\<lparr>remaining := remaining rl1 - 1, consecutive_violations := 0\<rparr>)
         else
           (let v = consecutive_violations rl1 + 1
            in (Inl (v \<ge> RATE_LIMIT_CLOSE_THRESHOLD), rl1\<lparr>consecutive_violations := v\<rparr>)))"

text \<open>The results of a sequence of checks at given times, and how many of them are allowed.\<close>

fun rate_limit_run :: "nat list \<Rightarrow> rate_limit \<Rightarrow> (bool, unit) result list" where
  "rate_limit_run [] rl = []"
| "rate_limit_run (t # ts) rl =
     (case rate_limit_check t rl of (r, rl') \<Rightarrow> r # rate_limit_run ts rl')"

definition accepted :: "nat list \<Rightarrow> rate_limit \<Rightarrow> nat" where
  "accepted ts rl = length (filter is_ok (rate_limit_run ts rl))"

text \<open>
  The well-formed limiters: the budget never exceeds a full window, and a limiter whose
  connection is still open has fewer violations than the close threshold.
\<close>

definition rate_limit_wf :: "rate_limit \<Rightarrow> bool" where
  "rate_limit_wf rl \<longleftrightarrow> remaining rl \<le> RATE_LIMIT_PER_SECOND"

definition rate_limit_open :: "rate_limit \<Rightarrow> bool" where
  "rate_limit_open rl \<longleftrightarrow>
     rate_limit_wf rl \<and> consecutive_violations rl < RATE_LIMIT_CLOSE_THRESHOLD"

section \<open>One check\<close>

lemmas rate_limit_consts = RATE_LIMIT_PER_SECOND_def RATE_LIMIT_CLOSE_THRESHOLD_def

lemma word_pos_minus_one: "0 < (w :: u32) \<Longrightarrow> unat (w - 1) = unat w - 1 \<and> w - 1 \<le> w"
  by (simp add: unat_minus_one word_less_nat_alt word_le_nat_alt unat_gt_0)

lemma check_wf:
  "rate_limit_check t rl = (r, rl') \<Longrightarrow> rate_limit_wf rl \<Longrightarrow> rate_limit_wf rl'"
  by (auto simp: rate_limit_check_def rate_limit_wf_def Let_def rate_limit_consts
      dest!: word_pos_minus_one split: if_splits)

text \<open>
  The violation counter of an open connection cannot overflow: below the threshold it grows
  by exactly one, and the result says to close exactly when the threshold is reached.
\<close>

lemma check_violations:
  assumes "rate_limit_check t rl = (r, rl')" "rate_limit_open rl"
  shows "r = Inr () \<and> consecutive_violations rl' = 0 \<or>
         r = Inl (consecutive_violations rl' = RATE_LIMIT_CLOSE_THRESHOLD) \<and>
         unat (consecutive_violations rl') = unat (consecutive_violations rl) + 1"
proof -
  let ?v = "consecutive_violations rl"
  have lt: "unat ?v < 3"
    using assms(2) by (simp add: rate_limit_open_def rate_limit_consts word_less_nat_alt)
  then have suc: "unat (?v + 1) = unat ?v + 1"
    by (simp add: unat_word_ariths)
  have "?v + 1 \<ge> 3 \<longleftrightarrow> ?v + 1 = (3 :: u32)"
    using lt suc by (auto simp: word_le_nat_alt word_unat_eq_iff)
  with assms(1) suc show ?thesis
    by (auto simp: rate_limit_check_def Let_def rate_limit_consts split: if_splits)
qed

lemma check_open:
  assumes "rate_limit_check t rl = (r, rl')" "rate_limit_open rl" "r \<noteq> Inl True"
  shows "rate_limit_open rl'"
proof -
  have "rate_limit_wf rl'" using assms check_wf rate_limit_open_def by blast
  moreover have "consecutive_violations rl' < RATE_LIMIT_CLOSE_THRESHOLD"
    using check_violations [OF assms(1,2)] assms(2,3)
    by (auto simp: rate_limit_open_def rate_limit_consts word_less_nat_alt word_unat_eq_iff)
  ultimately show ?thesis by (simp add: rate_limit_open_def)
qed

lemma new_open: "rate_limit_open (rate_limit_new t)"
  by (simp add: rate_limit_open_def rate_limit_wf_def rate_limit_new_def rate_limit_consts)

section \<open>Bounds on accepted messages\<close>

lemma accepted_Nil [simp]: "accepted [] rl = 0"
  by (simp add: accepted_def)

lemma accepted_Cons:
  "accepted (t # ts) rl =
     (case rate_limit_check t rl of (r, rl') \<Rightarrow> (if is_ok r then 1 else 0) + accepted ts rl')"
  by (simp add: accepted_def split: prod.splits)

text \<open>Inside the current window a check only consumes budget.\<close>

lemma one_second_pos: "0 < one_second"
  by (simp add: one_second_def)

lemma check_same_window:
  assumes "t < window_start rl + one_second" "rate_limit_check t rl = (r, rl')"
  shows "window_start rl' = window_start rl"
    "(if is_ok r then 1 else 0) + unat (remaining rl') = unat (remaining rl)"
proof -
  have "\<not> one_second \<le> t - window_start rl" using assms(1) one_second_pos by auto
  with assms(2) word_pos_minus_one [of "remaining rl"]
  show "window_start rl' = window_start rl"
    "(if is_ok r then 1 else 0) + unat (remaining rl') = unat (remaining rl)"
    by (auto simp: rate_limit_check_def Let_def word_gt_0 unat_gt_0 split: if_splits)
qed

lemma check_new_window:
  assumes "window_start rl + one_second \<le> t" "rate_limit_check t rl = (r, rl')"
  shows "window_start rl' = t" "r = Inr ()" "unat (remaining rl') = 49"
  using assms
  by (auto simp: rate_limit_check_def Let_def rate_limit_consts split: if_splits)

lemma accepted_in_window:
  assumes "\<And>t. t \<in> set ts \<Longrightarrow> t < window_start rl + one_second"
  shows "accepted ts rl \<le> unat (remaining rl)"
  using assms
proof (induction ts arbitrary: rl)
  case Nil
  then show ?case by simp
next
  case (Cons t ts)
  obtain r rl' where c: "rate_limit_check t rl = (r, rl')" by fastforce
  from Cons.prems have t: "t < window_start rl + one_second" by simp
  note w = check_same_window [OF t c]
  have "accepted ts rl' \<le> unat (remaining rl')"
    using Cons.prems w(1) by (intro Cons.IH) auto
  with w(2) c show ?case by (simp add: accepted_Cons)
qed

text \<open>
  In any half-open interval of \<open>k\<close> seconds at most \<open>50 * (k + 1)\<close> messages are allowed,
  whatever the limiter went through before: every window inside the interval after the first
  starts in the interval, a second after the one before.
\<close>

lemma accepted_bound_aux:
  assumes "\<And>t. t \<in> set ts \<Longrightarrow> t < window_start rl + one_second \<or> a \<le> t"
    "\<And>t. t \<in> set ts \<Longrightarrow> t < a + k * one_second"
  shows "accepted ts rl \<le> unat (remaining rl) + 50 * k"
  using assms
proof (induction ts arbitrary: rl a k)
  case Nil
  then show ?case by simp
next
  case (Cons t ts)
  obtain r rl' where c: "rate_limit_check t rl = (r, rl')" by fastforce
  show ?case
  proof (cases "t < window_start rl + one_second")
    case True
    note w = check_same_window [OF True c]
    have "accepted ts rl' \<le> unat (remaining rl') + 50 * k"
      using Cons.prems w(1) by (intro Cons.IH [of rl' a k]) auto
    with w(2) c show ?thesis by (simp add: accepted_Cons)
  next
    case False
    then have new: "window_start rl' = t" "r = Inr ()" "unat (remaining rl') = 49"
      using check_new_window [OF _ c] by auto
    have at: "a \<le> t" "t < a + k * one_second"
      using Cons.prems(1,2) [of t] False by auto
    then obtain j where k: "k = Suc j" by (cases k) auto
    have "accepted ts rl' \<le> unat (remaining rl') + 50 * j"
    proof (rule Cons.IH [of rl' "t + one_second" j])
      fix s assume "s \<in> set ts"
      then have "s < a + k * one_second" using Cons.prems(2) by simp
      with at(1) k show "s < t + one_second + j * one_second" by simp
    next
      fix s assume "s \<in> set ts"
      show "s < window_start rl' + one_second \<or> t + one_second \<le> s"
        using new(1) by auto
    qed
    with new c k show ?thesis by (simp add: accepted_Cons)
  qed
qed

lemma wf_remaining: "rate_limit_wf rl \<Longrightarrow> unat (remaining rl) \<le> 50"
  by (simp add: rate_limit_wf_def rate_limit_consts word_le_nat_alt)

section \<open>A burst inside one window\<close>

text \<open>
  What the checks of one window return, from the budget that is left: as many successes, then
  two refusals, then the order to close.
\<close>

definition refusals :: "(bool, unit) result list" where
  "refusals = [Inl False, Inl False, Inl True]"

lemma run_exhausted:
  assumes "\<And>t. t \<in> set ts \<Longrightarrow> t < window_start rl + one_second"
    "remaining rl = 0" "length ts + unat (consecutive_violations rl) \<le> 3"
  shows "rate_limit_run ts rl =
    take (length ts) (drop (unat (consecutive_violations rl)) refusals)"
  using assms
proof (induction ts arbitrary: rl)
  case Nil
  then show ?case by simp
next
  case (Cons t ts)
  let ?v = "consecutive_violations rl"
  let ?rl = "rl\<lparr>consecutive_violations := ?v + 1\<rparr>"
  have "\<not> one_second \<le> t - window_start rl" using Cons.prems(1) [of t] one_second_pos by auto
  then have c: "rate_limit_check t rl = (Inl (3 \<le> ?v + 1), ?rl)"
    using Cons.prems(2) by (simp add: rate_limit_check_def rate_limit_consts Let_def)
  have v: "unat ?v < 3" using Cons.prems(3) by simp
  then have suc: "unat (?v + 1) = unat ?v + 1" by (simp add: unat_word_ariths)
  have IH: "rate_limit_run ts ?rl = take (length ts) (drop (unat ?v + 1) refusals)"
    using Cons.IH [of ?rl] Cons.prems suc by simp
  have "(3 \<le> ?v + 1) = (unat ?v = 2)" using suc v by (auto simp: word_le_nat_alt)
  moreover have "unat ?v = 0 \<or> unat ?v = 1 \<or> unat ?v = 2" using v by linarith
  ultimately show ?case using c IH by (auto simp: refusals_def numeral_2_eq_2)
qed

lemma run_in_window:
  assumes "\<And>t. t \<in> set ts \<Longrightarrow> t < window_start rl + one_second"
    "consecutive_violations rl = 0" "length ts \<le> unat (remaining rl) + 3"
  shows "rate_limit_run ts rl =
    take (length ts) (replicate (unat (remaining rl)) (Inr ()) @ refusals)"
  using assms
proof (induction ts arbitrary: rl)
  case Nil
  then show ?case by simp
next
  case (Cons t ts)
  show ?case
  proof (cases "remaining rl = 0")
    case True
    with Cons.prems run_exhausted [of "t # ts" rl] show ?thesis by simp
  next
    case False
    let ?rl = "rl\<lparr>remaining := remaining rl - 1, consecutive_violations := 0\<rparr>"
    have "\<not> one_second \<le> t - window_start rl" using Cons.prems(1) [of t] one_second_pos by auto
    then have c: "rate_limit_check t rl = (Inr (), ?rl)"
      using False by (simp add: rate_limit_check_def word_gt_0)
    have u: "unat (remaining rl) = Suc (unat (remaining rl - 1))"
      using False by (simp add: unat_minus_one unat_gt_0)
    have "rate_limit_run ts ?rl =
        take (length ts) (replicate (unat (remaining rl - 1)) (Inr ()) @ refusals)"
      using Cons.IH [of ?rl] Cons.prems u by simp
    with c u show ?thesis by simp
  qed
qed

text \<open>Repeated checks at one time inside the window consume the budget one by one.\<close>

lemma accepted_replicate:
  assumes "n \<le> unat (remaining rl)" "t < window_start rl + one_second"
  shows "accepted (replicate n t @ us) rl = n + accepted us
        (rl\<lparr>remaining := remaining rl - of_nat n,
            consecutive_violations := if n = 0 then consecutive_violations rl else 0\<rparr>)"
  using assms
proof (induction n arbitrary: rl)
  case 0
  then show ?case by simp
next
  case (Suc n)
  let ?rl = "rl\<lparr>remaining := remaining rl - 1, consecutive_violations := 0\<rparr>"
  have pos: "0 < remaining rl" using Suc.prems(1) by (auto simp: unat_gt_0 [symmetric] word_gt_0)
  have "\<not> one_second \<le> t - window_start rl" using Suc.prems(2) one_second_pos by auto
  then have c: "rate_limit_check t rl = (Inr (), ?rl)" using pos by (simp add: rate_limit_check_def)
  have "n \<le> unat (remaining ?rl)" using Suc.prems(1) word_pos_minus_one [OF pos] by simp
  with Suc.IH [of ?rl] Suc.prems(2) c show ?case
    by (simp add: accepted_Cons algebra_simps)
qed

section \<open>Properties\<close>

text \<open>
  C20: whatever happened to a well-formed limiter before, in any interval of \<open>k\<close> seconds it
  allows at most \<open>50 * (k + 1)\<close> messages: one window's budget more than the nominal rate.
\<close>

theorem accepted_rate_bounded:
  assumes "rate_limit_wf rl" "\<And>t. t \<in> set ts \<Longrightarrow> a \<le> t \<and> t < a + k * one_second"
  shows "accepted ts rl \<le> unat RATE_LIMIT_PER_SECOND * (k + 1)"
proof -
  have "accepted ts rl \<le> unat (remaining rl) + 50 * k"
    using assms(2) by (intro accepted_bound_aux [of ts rl a k]) auto
  with wf_remaining [OF assms(1)] show ?thesis by (simp add: rate_limit_consts)
qed

theorem accepted_rate_bounded_witness:
  "accepted [0, 5, one_second] (rate_limit_new 0) \<le> 150"
proof -
  have "accepted [0, 5, one_second] (rate_limit_new 0) \<le> unat RATE_LIMIT_PER_SECOND * (2 + 1)"
    by (rule accepted_rate_bounded [where a = 0])
      (use new_open [of 0] in \<open>auto simp: rate_limit_open_def one_second_def\<close>)
  then show ?thesis by (simp add: rate_limit_consts)
qed

text \<open>
  A burst of 53 messages inside the first second of a connection: the first 50 are
  allowed, the next two are refused with the connection kept open, and the third refusal in
  a row closes it.
\<close>

lemma burst_outcome:
  assumes "length ts = 53" "\<And>t. t \<in> set ts \<Longrightarrow> t < now + one_second"
  shows "rate_limit_run ts (rate_limit_new now) =
    replicate 50 (Inr ()) @ [Inl False, Inl False, Inl True]"
proof -
  have "rate_limit_run ts (rate_limit_new now) =
      take 53 (replicate (unat (remaining (rate_limit_new now))) (Inr ()) @ refusals)"
    using run_in_window [of ts "rate_limit_new now"] assms
    by (simp add: rate_limit_new_def rate_limit_consts)
  then show ?thesis by (simp add: rate_limit_new_def rate_limit_consts refusals_def)
qed

lemma burst_outcome_witness:
  "rate_limit_run [7..<60] (rate_limit_new 7) =
     replicate 50 (Inr ()) @ [Inl False, Inl False, Inl True]"
  by (rule burst_outcome) (auto simp: one_second_def)

text \<open>
  The limiter counts in fixed windows, not in a sliding one: 100 messages within less
  than half a second are all allowed when they straddle a window boundary.
\<close>

lemma window_not_sliding:
  "accepted (replicate 50 600000000 @ replicate 50 1000000000) (rate_limit_new 0) = 100"
proof -
  let ?a = "\<lparr>remaining = 50, window_start = 0, consecutive_violations = 0\<rparr>"
  let ?b = "\<lparr>remaining = 0, window_start = 0, consecutive_violations = 0\<rparr>"
  let ?c = "\<lparr>remaining = 49, window_start = 1000000000, consecutive_violations = 0\<rparr>"
  have new: "rate_limit_new 0 = ?a" by (simp add: rate_limit_new_def rate_limit_consts)
  have one: "accepted (replicate 50 600000000 @ us) ?a = 50 + accepted us ?b" for us
    using accepted_replicate [of 50 ?a 600000000 us] by (simp add: one_second_def)
  have check: "rate_limit_check 1000000000 ?b = (Inr (), ?c)"
    by (simp add: rate_limit_check_def rate_limit_consts one_second_def)
  have two: "accepted (replicate 49 1000000000) ?c = 49"
    using accepted_replicate [of 49 ?c 1000000000 "[]"] by (simp add: one_second_def)
  have "replicate 50 x = x # replicate 49 x" for x :: nat
    using replicate_Suc [of 49 x] by simp
  with two check have "accepted (replicate 50 1000000000) ?b = 50"
    by (simp only: accepted_Cons prod.case is_ok_simps if_True)
  then show ?thesis unfolding new one by simp
qed

end
