(* ===== verification/Ip_Addr.thy ===== *)
theory Ip_Addr
  imports Rust_Std
begin

text \<open>
  \<open>std::net::IpAddr\<close>: the address type, the parser behind \<open>parse::<IpAddr>()\<close> and the
  \<open>Display\<close> form behind \<open>to_string()\<close>. The parser follows the recursive-descent parser of
  the standard library: \<open>read_number\<close>, \<open>read_separator\<close>, \<open>read_ipv4_addr\<close>,
  \<open>read_groups\<close>, \<open>read_ipv6_addr\<close>, each taking the rest of the input and returning the
  value with the input left over.
\<close>

datatype ip_addr = V4 u8 u8 u8 u8 | V6 "u16 list"

type_synonym 'a reader = "string \<Rightarrow> ('a \<times> string) option"

section \<open>Numbers\<close>

definition hex_value :: "char \<Rightarrow> nat option" where
  "hex_value c =
     (let n = byte c
      in if 48 \<le> n \<and> n \<le> 57 then Some (n - 48)
         else if 97 \<le> n \<and> n \<le> 102 then Some (n - 87)
         else if 65 \<le> n \<and> n \<le> 70 then Some (n - 55)
         else None)"

definition digit_value :: "nat \<Rightarrow> char \<Rightarrow> nat option" where
  "digit_value radix c =
     (case hex_value c of None \<Rightarrow> None | Some d \<Rightarrow> if d < radix then Some d else None)"

text \<open>
  \<open>read_number(radix, max_digits, allow_zero_prefix)\<close>: digits are consumed as long as there
  are any; more than \<open>max_digits\<close> digits, a value above the type's maximum, no digit at all,
  or a leading zero followed by another digit (where not allowed) is a failure.
\<close>

fun read_digits :: "nat \<Rightarrow> nat \<Rightarrow> nat \<Rightarrow> nat \<Rightarrow> nat \<Rightarrow> (nat \<times> nat) reader" where
  "read_digits radix maxd mx acc k [] = Some ((acc, k), [])"
| "read_digits radix maxd mx acc k (c # cs) =
     (case digit_value radix c of
        None \<Rightarrow> Some ((acc, k), c # cs)
      | Some d \<Rightarrow>
          (let v = acc * radix + d
           in if v > mx then None
              else if k + 1 > maxd then None
              else read_digits radix maxd mx v (k + 1) cs))"

definition read_number :: "nat \<Rightarrow> nat \<Rightarrow> bool \<Rightarrow> nat \<Rightarrow> nat reader" where
  "read_number radix maxd zero_prefix mx s =
     (case read_digits radix maxd mx 0 0 s of
        None \<Rightarrow> None
      | Some ((v, k), rest) \<Rightarrow>
          (if k = 0 then None
           else if \<not> zero_prefix \<and> prefix ''0'' s \<and> k > 1 then None
           else Some (v, rest)))"

definition read_given_char :: "char \<Rightarrow> unit reader" where
  "read_given_char c s = (case s of [] \<Rightarrow> None | d # ds \<Rightarrow> if d = c then Some ((), ds) else None)"

definition read_separator :: "char \<Rightarrow> nat \<Rightarrow> 'a reader \<Rightarrow> 'a reader" where
  "read_separator c i r s =
     (if i = 0 then r s
      else (case read_given_char c s of None \<Rightarrow> None | Some (_, rest) \<Rightarrow> r rest))"

section \<open>Addresses\<close>

definition read_octet :: "nat reader" where
  "read_octet = read_number 10 3 False 255"

fun read_octets :: "nat \<Rightarrow> nat \<Rightarrow> nat list reader" where
  "read_octets i 0 s = Some ([], s)"
| "read_octets i (Suc n) s =
     (case read_separator CHR ''.'' i read_octet s of
        None \<Rightarrow> None
      | Some (v, rest) \<Rightarrow>
          (case read_octets (Suc i) n rest of
             None \<Rightarrow> None
           | Some (vs, rest') \<Rightarrow> Some (v # vs, rest')))"

definition read_ipv4 :: "nat list reader" where
  "read_ipv4 s = read_octets 0 4 s"

text \<open>
  \<open>read_groups\<close> reads at most \<open>n\<close> more of a chunk of \<open>limit\<close> groups, the next being
  number \<open>i\<close>; the boolean says whether the chunk ended in an embedded IPv4 address.
\<close>

fun read_groups :: "nat \<Rightarrow> nat \<Rightarrow> nat \<Rightarrow> string \<Rightarrow> (nat list \<times> bool) \<times> string" where
  "read_groups limit i 0 s = (([], False), s)"
| "read_groups limit i (Suc n) s =
     (case (if i + 1 < limit then read_separator CHR '':'' i read_ipv4 s else None) of
        Some ([a, b, c, d], rest) \<Rightarrow> (([a * 256 + b, c * 256 + d], True), rest)
      | _ \<Rightarrow>
          (case read_separator CHR '':'' i (read_number 16 4 True 65535) s of
             None \<Rightarrow> (([], False), s)
           | Some (g, rest) \<Rightarrow>
               (case read_groups limit (Suc i) n rest of
                  ((gs, b), rest') \<Rightarrow> ((g # gs, b), rest'))))"

definition read_ipv6 :: "nat list reader" where
  "read_ipv6 s =
     (case read_groups 8 0 8 s of
        ((head, head_v4), rest) \<Rightarrow>
          if length head = 8 then Some (head, rest)
          else if head_v4 then None
          else
            (case read_given_char CHR '':'' rest of
               None \<Rightarrow> None
             | Some (_, rest1) \<Rightarrow>
                 (case read_given_char CHR '':'' rest1 of
                    None \<Rightarrow> None
                  | Some (_, rest2) \<Rightarrow>
                      (let limit = 8 - (length head + 1)
                       in case read_groups limit 0 limit rest2 of
                            ((tail, _), rest3) \<Rightarrow>
                              Some (head @ replicate (8 - length head - length tail) 0 @ tail,
                                    rest3)))))"

definition parse_ip :: "string \<Rightarrow> ip_addr option" where
  "parse_ip s =
     (case read_ipv4 s of
        Some ([a, b, c, d], []) \<Rightarrow> Some (V4 (of_nat a) (of_nat b) (of_nat c) (of_nat d))
      | Some _ \<Rightarrow> None
      | None \<Rightarrow>
          (case read_ipv6 s of
             Some (gs, []) \<Rightarrow> Some (V6 (map of_nat gs))
           | _ \<Rightarrow> None))"

section \<open>Display\<close>

definition show_ipv4 :: "nat \<Rightarrow> nat \<Rightarrow> nat \<Rightarrow> nat \<Rightarrow> string" where
  "show_ipv4 a b c d = join_with ''.'' [show_nat a, show_nat b, show_nat c, show_nat d]"

fun show_hex :: "nat \<Rightarrow> string" where
  "show_hex n =
     (let d = (\<lambda>k. char_of (if k < 10 then 48 + k else 87 + k))
      in if n < 16 then [d n] else show_hex (n div 16) @ [d (n mod 16)])"

declare show_hex.simps [simp del]

text \<open>
  The first longest run of zero groups, as its start and length: \<open>longest\<close> is the best run
  so far and \<open>current\<close> the one being extended.
\<close>

fun zero_runs :: "nat \<Rightarrow> nat \<times> nat \<Rightarrow> nat \<times> nat \<Rightarrow> nat list \<Rightarrow> nat \<times> nat" where
  "zero_runs i longest current [] = longest"
| "zero_runs i longest current (g # gs) =
     (if g = 0 then
        (let cur = (if snd current = 0 then i else fst current, snd current + 1);
             lon = (if snd cur > snd longest then cur else longest)
         in zero_runs (Suc i) lon cur gs)
      else zero_runs (Suc i) longest (0, 0) gs)"

definition show_ipv6 :: "nat list \<Rightarrow> string" where
  "show_ipv6 gs =
     (if take 6 gs = [0, 0, 0, 0, 0, 65535] \<and> length gs = 8 then
        ''::ffff:'' @ show_ipv4 (gs ! 6 div 256) (gs ! 6 mod 256) (gs ! 7 div 256) (gs ! 7 mod 256)
      else
        (case zero_runs 0 (0, 0) (0, 0) gs of
           (start, len) \<Rightarrow>
             if len > 1 then
               join_with '':'' (map show_hex (take start gs)) @ ''::'' @
               join_with '':'' (map show_hex (drop (start + len) gs))
             else join_with '':'' (map show_hex gs)))"

fun show_ip :: "ip_addr \<Rightarrow> string" where
  "show_ip (V4 a b c d) = show_ipv4 (unat a) (unat b) (unat c) (unat d)"
| "show_ip (V6 gs) = show_ipv6 (map unat gs)"

section \<open>The text of an IPv4 address parses back\<close>

lemma hex_value_digit [simp]: "d < 10 \<Longrightarrow> hex_value (digit_char d) = Some d"
  by (simp add: hex_value_def digit_char_def Let_def)

lemma digit_value_digit [simp]: "d < 10 \<Longrightarrow> digit_value 10 (digit_char d) = Some d"
  by (simp add: digit_value_def)

lemma digit_char_zero_iff: "d < 10 \<Longrightarrow> CHR ''0'' = digit_char d \<longleftrightarrow> d = 0"
proof -
  assume "d < 10"
  then have "of_char (digit_char d) = (48 + d :: nat)" by (simp add: digit_char_def)
  moreover have "of_char CHR ''0'' = (48 :: nat)" by simp
  ultimately show ?thesis by (metis add_cancel_right_right of_char_eq_iff)
qed

lemma show_nat_1: "n < 10 \<Longrightarrow> show_nat n = [digit_char n]"
  by (simp add: show_nat.simps)

lemma show_nat_2: "10 \<le> n \<Longrightarrow> n < 100 \<Longrightarrow> show_nat n = [digit_char (n div 10), digit_char (n mod 10)]"
  by (subst show_nat.simps) (simp add: show_nat_1)

lemma show_nat_3:
  "100 \<le> n \<Longrightarrow> n < 1000 \<Longrightarrow>
   show_nat n = [digit_char (n div 100), digit_char (n div 10 mod 10), digit_char (n mod 10)]"
  by (subst show_nat.simps) (simp add: show_nat_2 div_mult2_eq [symmetric])

definition not_digit_head :: "string \<Rightarrow> bool" where
  "not_digit_head s \<longleftrightarrow> (case s of [] \<Rightarrow> True | c # _ \<Rightarrow> digit_value 10 c = None)"

lemma read_digits_stop [simp]:
  "not_digit_head s \<Longrightarrow> read_digits 10 m mx acc k s = Some ((acc, k), s)"
  by (cases s) (auto simp: not_digit_head_def)

lemma read_octet_show:
  assumes "n \<le> 255" "not_digit_head s"
  shows "read_octet (show_nat n @ s) = Some (n, s)"
proof -
  consider "n < 10" | "10 \<le> n" "n < 100" | "100 \<le> n" "n < 1000" using assms(1) by linarith
  then show ?thesis
  proof cases
    case 1
    with assms show ?thesis by (simp add: read_octet_def read_number_def show_nat_1 Let_def)
  next
    case 2
    then have "n div 10 < 10" "n div 10 \<noteq> 0" "n div 10 \<le> 255" "n div 10 * 10 + n mod 10 = n" by auto
    with 2 assms show ?thesis
      by (simp add: read_octet_def read_number_def show_nat_2 Let_def digit_char_zero_iff)
  next
    case 3
    then have a: "n div 100 < 10" "n div 100 \<noteq> 0" "n div 100 \<le> 255" by auto
    have b: "n div 100 * 10 + n div 10 mod 10 = n div 10" "n div 10 * 10 + n mod 10 = n"
      "n div 10 \<le> 255"
      using div_mult2_eq [of n 10 10] assms(1) by auto
    from 3 assms a b show ?thesis
      by (simp add: read_octet_def read_number_def show_nat_3 Let_def digit_char_zero_iff)
  qed
qed

lemma read_ipv4_show_append:
  assumes "a \<le> 255" "b \<le> 255" "c \<le> 255" "d \<le> 255" "not_digit_head s"
  shows "read_ipv4 (show_ipv4 a b c d @ s) = Some ([a, b, c, d], s)"
proof -
  have dot: "not_digit_head (CHR ''.'' # t)" for t
    by (simp add: not_digit_head_def digit_value_def hex_value_def)
  have oct: "read_octet (show_nat n @ CHR ''.'' # t) = Some (n, CHR ''.'' # t)" if "n \<le> 255" for n t
    using read_octet_show [OF that dot] .
  have octets: "read_octets i (Suc n) t =
     (case read_separator CHR ''.'' i read_octet t of
        None \<Rightarrow> None
      | Some (v, rest) \<Rightarrow> map_option (\<lambda>(vs, r). (v # vs, r)) (read_octets (Suc i) n rest))" for i n t
    by (auto split: option.splits)
  have four: "(4 :: nat) = Suc (Suc (Suc (Suc 0)))" by simp
  show ?thesis
    unfolding read_ipv4_def four
    by (simp add: octets show_ipv4_def read_separator_def read_given_char_def oct assms
        read_octet_show [OF assms(4,5)] del: read_octets.simps(2))
qed

lemma read_ipv4_show:
  "a \<le> 255 \<Longrightarrow> b \<le> 255 \<Longrightarrow> c \<le> 255 \<Longrightarrow> d \<le> 255 \<Longrightarrow>
   read_ipv4 (show_ipv4 a b c d) = Some ([a, b, c, d], [])"
  using read_ipv4_show_append [of a b c d "[]"] by (simp add: not_digit_head_def)

lemma unat_u8_le: "unat (x :: u8) \<le> 255"
  using unsigned_less [of x, where ?'a = nat] by simp

lemma parse_show_ipv4: "parse_ip (show_ip (V4 a b c d)) = Some (V4 a b c d)"
  by (simp add: parse_ip_def read_ipv4_show unat_u8_le)

section \<open>Socket addresses\<close>

text \<open>
  \<open>SocketAddr::from_str\<close>: an IPv4 address, or an IPv6 address in brackets with an optional
  scope, then a colon and the port. Numbers without a digit limit are bounded by their value.
\<close>

definition read_port :: "nat reader" where
  "read_port s =
     (case read_given_char CHR '':'' s of
        None \<Rightarrow> None
      | Some (_, rest) \<Rightarrow> read_number 10 (Suc (length rest)) True 65535 rest)"

definition skip_scope :: "string \<Rightarrow> string" where
  "skip_scope s =
     (case read_given_char CHR ''%'' s of
        None \<Rightarrow> s
      | Some (_, rest) \<Rightarrow>
          (case read_number 10 (Suc (length rest)) True 4294967295 rest of
             None \<Rightarrow> s
           | Some (_, rest') \<Rightarrow> rest'))"

definition parse_socket_addr :: "string \<Rightarrow> (ip_addr \<times> nat) option" where
  "parse_socket_addr s =
     (case (case read_ipv4 s of
              None \<Rightarrow> None
            | Some (gs, rest) \<Rightarrow> map_option (\<lambda>(port, r). (gs, port, r)) (read_port rest)) of
        Some ([a, b, c, d], port, r) \<Rightarrow>
          if r = [] then Some (V4 (of_nat a) (of_nat b) (of_nat c) (of_nat d), port) else None
      | _ \<Rightarrow>
          (case read_given_char CHR ''['' s of
             None \<Rightarrow> None
           | Some (_, rest) \<Rightarrow>
               (case read_ipv6 rest of
                  None \<Rightarrow> None
                | Some (gs, rest1) \<Rightarrow>
                    (case read_given_char CHR '']'' (skip_scope rest1) of
                       None \<Rightarrow> None
                     | Some (_, rest2) \<Rightarrow>
                         (case read_port rest2 of
                            Some (port, []) \<Rightarrow> Some (V6 (map of_nat gs), port)
                          | _ \<Rightarrow> None)))))"

text \<open>
  Reading back an address and a port as \<open>host:port\<close> is formatted from them.
\<close>

lemma read_digits_all:
  assumes "k + length s < m" "parse_digits mx acc s = Some n" "\<And>c. c \<in> set s \<Longrightarrow> is_ascii_digit c"
  shows "read_digits 10 m mx acc k s = Some ((n, k + length s), [])"
  using assms
proof (induction s arbitrary: acc k)
  case Nil
  then show ?case by simp
next
  case (Cons c s)
  have "is_ascii_digit c" using Cons.prems(3) by simp
  then have "digit_value 10 c = Some (byte c - 48)"
    by (auto simp: digit_value_def hex_value_def is_ascii_digit_def Let_def)
  with Cons show ?case
    by (auto simp: Let_def split: if_splits)
qed

end
