(* ===== verification/Client_Ip.thy ===== *)
theory Client_Ip
  imports Ip_Addr Validation
begin

text \<open>
  Which room a connection belongs to: the first part of \<open>handle_connection\<close> in
  \<open>signal/src/server.rs\<close> (request classification, the handshake callback that reads the
  forwarding headers, the choice of the effective address) and \<open>is_private_ip\<close>.
\<close>

section \<open>Request classification\<close>

definition http_ok_body :: string where
  "http_ok_body = ''bolt-rendezvous OK''"

definition crlf :: string where
  "crlf = [CHR 0x0D, CHR 0x0A]"

definition http_ok_response :: string where
  "http_ok_response =
     ''HTTP/1.1 200 OK'' @ crlf @ ''Content-Type: text/plain'' @ crlf @ ''Content-Length: '' @
     show_nat (length http_ok_body) @ crlf @ ''Connection: close'' @ crlf @ crlf @ http_ok_body"

text \<open>
  What the handler does with the first bytes of a connection: give up when peeking fails,
  answer a plain HTTP request, or go on with the WebSocket handshake. Replacing ill-formed
  bytes (\<open>from_utf8_lossy\<close>) neither creates nor destroys ASCII bytes, so the search runs on
  the bytes themselves.
\<close>

datatype peek_outcome = PeekFailed | PlainHttp string | Handshake

definition classify_request :: "string option \<Rightarrow> peek_outcome" where
  "classify_request peeked =
     (case peeked of
        None \<Rightarrow> PeekFailed
      | Some bytes \<Rightarrow>
          if \<not> contains ''upgrade: websocket'' (to_ascii_lowercase (take 4096 bytes))
          then PlainHttp http_ok_response else Handshake)"

section \<open>Forwarding headers\<close>

text \<open>
  A header as the handshake callback sees it: absent, present but not text
  (\<open>to_str\<close> fails), or its text.
\<close>

datatype header = NoHeader | NotText | HeaderText string

definition is_ip :: "string \<Rightarrow> bool" where
  "is_ip s \<longleftrightarrow> parse_ip s \<noteq> None"

definition forwarded_xff :: "header \<Rightarrow> string option" where
  "forwarded_xff xff =
     (case xff of
        HeaderText value \<Rightarrow>
          (let raw_ip = trim (hd (split_on CHR '','' value))
           in if is_ip raw_ip then Some raw_ip else None)
      | _ \<Rightarrow> None)"

definition forwarded_for :: "header \<Rightarrow> header \<Rightarrow> string option" where
  "forwarded_for fly xff =
     (case fly of
        HeaderText value \<Rightarrow>
          (let ip_str = trim value
           in if is_ip ip_str then Some ip_str else forwarded_xff xff)
      | _ \<Rightarrow> forwarded_xff xff)"

section \<open>Private addresses\<close>

definition second_octet_in :: "nat \<Rightarrow> nat \<Rightarrow> string \<Rightarrow> bool" where
  "second_octet_in lo hi ip =
     (case split_on CHR ''.'' ip of
        _ # second # _ \<Rightarrow>
          (case parse_unsigned u8_max second of None \<Rightarrow> False | Some n \<Rightarrow> lo \<le> n \<and> n \<le> hi)
      | _ \<Rightarrow> False)"

definition is_private_ip :: "string \<Rightarrow> bool" where
  "is_private_ip ip \<longleftrightarrow>
     (if ip = ''127.0.0.1'' then True
      else if prefix ''10.'' ip then True
      else if prefix ''192.168.'' ip then True
      else if prefix ''169.254.'' ip then True
      else if prefix ''172.'' ip \<and> second_octet_in 16 31 ip then True
      else if prefix ''100.'' ip \<and> second_octet_in 64 127 ip then True
      else if ip = ''::1'' then True
      else if prefix ''fc'' ip \<or> prefix ''fd'' ip then True
      else if prefix ''fe80'' ip then True
      else False)"

section \<open>Effective address\<close>

definition raw_client_ip :: "ip_addr list \<Rightarrow> ip_addr \<Rightarrow> string option \<Rightarrow> string" where
  "raw_client_ip trusted_proxies addr forwarded_ip =
     (case forwarded_ip of
        Some ip \<Rightarrow>
          (if addr \<in> set trusted_proxies then ip
           else if is_private_ip (show_ip addr) \<and> ip \<noteq> [] then ip
           else show_ip addr)
      | None \<Rightarrow> show_ip addr)"

definition client_room :: "ip_addr list \<Rightarrow> ip_addr \<Rightarrow> header \<Rightarrow> header \<Rightarrow> string" where
  "client_room trusted_proxies addr fly xff =
     (let raw_ip = raw_client_ip trusted_proxies addr (forwarded_for fly xff)
      in if is_private_ip raw_ip then ''local'' else raw_ip)"

section \<open>IPv4 addresses in text\<close>

text \<open>The address text of an IPv4 address, octet by octet.\<close>

lemma show_ipv4_split:
  "split_on CHR ''.'' (show_ipv4 a b c d) = [show_nat a, show_nat b, show_nat c, show_nat d]"
proof -
  have "CHR ''.'' \<notin> set (show_nat n)" for n
    using show_nat_digits [of "CHR ''.''" n] by (auto simp: is_ascii_digit_def)
  then show ?thesis unfolding show_ipv4_def
    by (intro split_join) auto
qed

text \<open>A textual prefix test on the first octets is a numeric test.\<close>

lemma digits_sep_prefix_iff:
  assumes "CHR ''.'' \<notin> set x" "CHR ''.'' \<notin> set y"
  shows "prefix (x @ ''.'') (y @ ''.'' @ t) \<longleftrightarrow> x = y"
proof
  assume "prefix (x @ ''.'') (y @ ''.'' @ t)"
  then obtain u where "x @ CHR ''.'' # u = y @ CHR ''.'' # t" by (auto simp: prefix_def)
  then have "split_on CHR ''.'' (x @ CHR ''.'' # u) = split_on CHR ''.'' (y @ CHR ''.'' # t)"
    by simp
  then show "x = y" using assms by (simp add: split_on_append_sep)
qed simp

lemma dot_not_show_nat: "CHR ''.'' \<notin> set (show_nat n)"
  using show_nat_digits [of "CHR ''.''" n] by (auto simp: is_ascii_digit_def)

lemma show_ipv4_append:
  "show_ipv4 a b c d = show_nat a @ ''.'' @ show_nat b @ ''.'' @ show_nat c @ ''.'' @ show_nat d"
  by (simp add: show_ipv4_def)

lemma prefix_octet: "prefix (show_nat m @ ''.'') (show_ipv4 a b c d) \<longleftrightarrow> a = m"
  unfolding show_ipv4_append digits_sep_prefix_iff [OF dot_not_show_nat dot_not_show_nat]
  by (auto simp: show_nat_inj)

lemma prefix_two_octets:
  "prefix (show_nat m @ ''.'' @ show_nat n @ ''.'') (show_ipv4 a b c d) \<longleftrightarrow> a = m \<and> b = n"
proof -
  have "a = m" if "prefix (show_nat m @ ''.'' @ t) (show_ipv4 a b c d)" for t
    using that prefix_octet [of m a b c d] by (auto simp: prefix_def)
  moreover have "prefix (show_nat m @ ''.'' @ show_nat n @ ''.'') (show_ipv4 m b c d) \<longleftrightarrow> b = n"
    using digits_sep_prefix_iff [OF dot_not_show_nat dot_not_show_nat,
        of n b "show_nat c @ ''.'' @ show_nat d"]
    by (auto simp: show_ipv4_append show_nat_inj)
  ultimately show ?thesis by blast
qed

lemma second_octet_show:
  "b \<le> 255 \<Longrightarrow> second_octet_in lo hi (show_ipv4 a b c d) \<longleftrightarrow> lo \<le> b \<and> b \<le> hi"
  by (simp add: second_octet_in_def show_ipv4_split parse_show_nat u8_max_def)

lemma show_ipv4_inj:
  "show_ipv4 a b c d = show_ipv4 a' b' c' d' \<longleftrightarrow> a = a' \<and> b = b' \<and> c = c' \<and> d = d'"
  by (metis show_ipv4_split show_nat_inj list.inject)

lemma show_ipv4_hd: "is_ascii_digit (hd (show_ipv4 a b c d))"
  using show_nat_digits [OF hd_in_set [OF show_nat_nonempty], of a]
  by (simp add: show_ipv4_append hd_append show_nat_nonempty)

lemma show_ipv4_last: "is_ascii_digit (last (show_ipv4 a b c d))"
  using show_nat_digits [OF last_in_set [OF show_nat_nonempty], of d]
  by (simp add: show_ipv4_append last_append show_nat_nonempty)

lemma show_ipv4_nonempty: "show_ipv4 a b c d \<noteq> []"
  by (simp add: show_ipv4_append)

lemma trim_show_ipv4: "trim (show_ipv4 a b c d) = show_ipv4 a b c d"
  using show_ipv4_hd [of a b c d] show_ipv4_last [of a b c d]
  by (intro trim_visible) (auto simp: show_ipv4_nonempty is_ascii_digit_def)

lemma prefix_hd: "prefix (x # xs) s \<Longrightarrow> hd s = x"
  by (auto simp: prefix_def)

text \<open>The ranges the textual tests decide, over the octets.\<close>

definition private_v4 :: "nat \<Rightarrow> nat \<Rightarrow> nat \<Rightarrow> nat \<Rightarrow> bool" where
  "private_v4 a b c d \<longleftrightarrow>
     (a = 127 \<and> b = 0 \<and> c = 0 \<and> d = 1) \<or> a = 10 \<or> (a = 192 \<and> b = 168) \<or> (a = 169 \<and> b = 254) \<or>
     (a = 172 \<and> 16 \<le> b \<and> b \<le> 31) \<or> (a = 100 \<and> 64 \<le> b \<and> b \<le> 127)"

lemma is_private_show_ipv4:
  assumes "b \<le> 255"
  shows "is_private_ip (show_ipv4 a b c d) \<longleftrightarrow> private_v4 a b c d"
proof -
  let ?s = "show_ipv4 a b c d"
  have texts: "show_nat 10 = ''10''" "show_nat 192 = ''192''" "show_nat 168 = ''168''"
    "show_nat 169 = ''169''" "show_nat 254 = ''254''" "show_nat 172 = ''172''" "show_nat 100 = ''100''"
    "show_ipv4 127 0 0 1 = ''127.0.0.1''"
    by code_simp+
  have eq: "?s = ''127.0.0.1'' \<longleftrightarrow> a = 127 \<and> b = 0 \<and> c = 0 \<and> d = 1"
    using show_ipv4_inj [of a b c d 127 0 0 1] unfolding texts .
  have pre: "prefix ''10.'' ?s \<longleftrightarrow> a = 10" "prefix ''172.'' ?s \<longleftrightarrow> a = 172"
    "prefix ''100.'' ?s \<longleftrightarrow> a = 100" "prefix ''192.168.'' ?s \<longleftrightarrow> a = 192 \<and> b = 168"
    "prefix ''169.254.'' ?s \<longleftrightarrow> a = 169 \<and> b = 254"
    using prefix_octet [of 10 a b c d] prefix_octet [of 172 a b c d] prefix_octet [of 100 a b c d]
      prefix_two_octets [of 192 168 a b c d] prefix_two_octets [of 169 254 a b c d]
    by (simp_all add: texts)
  have v6: "?s \<noteq> ''::1''" "\<not> prefix ''fc'' ?s" "\<not> prefix ''fd'' ?s" "\<not> prefix ''fe80'' ?s"
    using show_ipv4_hd [of a b c d] by (auto dest!: prefix_hd simp: is_ascii_digit_def)
  show ?thesis
    unfolding is_private_ip_def eq pre second_octet_show [OF assms] private_v4_def
    using v6 by auto
qed

lemma forwarded_text:
  "forwarded_for NoHeader (HeaderText (show_ip (V4 a b c d))) = Some (show_ip (V4 a b c d))"
proof -
  have "CHR '','' \<notin> set (show_ipv4 (unat a) (unat b) (unat c) (unat d))"
    using show_nat_digits [of "CHR '',''"] by (auto simp: show_ipv4_append is_ascii_digit_def)
  then have "hd (split_on CHR '','' (show_ip (V4 a b c d))) = show_ip (V4 a b c d)"
    by (simp add: split_on_no_sep)
  then show ?thesis
    using parse_show_ipv4 [of a b c d]
    by (simp add: forwarded_for_def forwarded_xff_def is_ip_def trim_show_ipv4)
qed

section \<open>Properties\<close>

text \<open>
  On the text of an IPv4 address, the prefix tests of \<open>is_private_ip\<close> decide exactly
  the loopback address 127.0.0.1 and the blocks 10.0.0.0/8, 192.168.0.0/16, 169.254.0.0/16,
  172.16.0.0/12 and 100.64.0.0/10.
\<close>

lemma private_ipv4_ranges:
  "is_private_ip (show_ip (V4 a b c d)) \<longleftrightarrow>
     (a, b, c, d) = (127, 0, 0, 1) \<or> a = 10 \<or> (a = 192 \<and> b = 168) \<or> (a = 169 \<and> b = 254) \<or>
     (a = 172 \<and> drop_bit 4 b = 1) \<or> (a = 100 \<and> drop_bit 6 b = 1)"
proof -
  have "drop_bit n b = 1 \<longleftrightarrow> unat b div 2 ^ n = 1" for n
    by (simp add: word_unat_eq_iff unat_drop_bit_eq) (simp add: drop_bit_eq_div)
  from this [of 4] this [of 6]
  have "drop_bit 4 b = 1 \<longleftrightarrow> 16 \<le> unat b \<and> unat b \<le> 31"
    "drop_bit 6 b = 1 \<longleftrightarrow> 64 \<le> unat b \<and> unat b \<le> 127"
    by auto
  then show ?thesis
    by (simp add: is_private_show_ipv4 unat_u8_le private_v4_def word_unat_eq_iff)
qed

text \<open>
  A connection from a public address that is not a configured proxy cannot choose its
  room: whatever forwarding headers it sends, it is put into the room of its socket address.
\<close>

lemma untrusted_headers_ignored:
  assumes "addr \<notin> set trusted_proxies" "\<not> is_private_ip (show_ip addr)"
  shows "client_room trusted_proxies addr fly xff = show_ip addr"
  using assms by (simp add: client_room_def raw_client_ip_def split: option.splits)

text \<open>
  An empty list of trusted proxies does not make the forwarding headers ignored. A
  connection from a private address is put into the room its header names, whatever the
  list says.
\<close>

lemma private_source_header_honoured:
  assumes "is_private_ip (show_ip addr)" "\<not> is_private_ip (show_ip (V4 a b c d))"
  shows "client_room [] addr NoHeader (HeaderText (show_ip (V4 a b c d))) = show_ip (V4 a b c d)"
  using assms unfolding client_room_def raw_client_ip_def forwarded_text
  by (simp add: show_ipv4_nonempty)

lemma private_source_header_honoured_witness:
  "client_room [] (V4 10 0 0 5) NoHeader (HeaderText (show_ip (V4 203 0 113 7)))
     = show_ip (V4 203 0 113 7)"
  by (rule private_source_header_honoured) (simp_all add: is_private_show_ipv4 private_v4_def)

end
