(* ===== verification/Connection.thy ===== *)
theory Connection
  imports Room_System Rate_Limit Client_Ip
begin

text \<open>
  The connection handler of \<open>signal/src/server.rs\<close>: after the handshake it owns a channel,
  a rate limiter and a phase, and reacts to what the WebSocket stream yields. The channel's
  receiver belongs to the connection's write task; \<open>write_task.abort()\<close> drops it. The JSON
  parser \<open>serde_json::from_str\<close> is the parameter \<open>from_str\<close>: it returns the message or
  the text of its error.
\<close>

section \<open>State and events\<close>

text \<open>What \<open>ws_stream_rx.next()\<close> yields: end of stream, an error, or a frame.\<close>

datatype ws_message =
    Text string | Binary string | PingFrame string | PongFrame string | CloseFrame | RawFrame string

type_synonym ws_next = "(string, ws_message) result option"

text \<open>The message loop waits at most \<open>IDLE_TIMEOUT\<close> seconds for the next item.\<close>

definition IDLE_TIMEOUT :: nat where "IDLE_TIMEOUT = 300"

datatype wait = Elapsed | Ready ws_next

datatype phase = Registering | Registered string u64 | Closed

record conn =
  conn_ip :: string
  conn_tx :: nat
  conn_limit :: rate_limit
  conn_phase :: phase

definition ws_config :: "nat \<times> nat" where
  "ws_config = (MAX_MESSAGE_BYTES, MAX_MESSAGE_BYTES)"

section \<open>Operations\<close>

text \<open>\<open>let _ = tx.send(m)\<close>: a failure to send to the connection's own peer is ignored.\<close>

definition reply :: "conn \<Rightarrow> 'v server_message \<Rightarrow> 'v rv_state \<Rightarrow> 'v rv_state" where
  "reply c m st = snd (send (conn_tx c) m st)"

definition abort_write :: "conn \<Rightarrow> 'v rv_state \<Rightarrow> 'v rv_state" where
  "abort_write c st = st\<lparr>chans := (chans st)(conn_tx c := (chans st (conn_tx c))\<lparr>rx_alive := False\<rparr>)\<rparr>"

definition close_unregistered :: "conn \<Rightarrow> 'v rv_state \<Rightarrow> conn \<times> 'v rv_state" where
  "close_unregistered c st = (c\<lparr>conn_phase := Closed\<rparr>, abort_write c st)"

definition finish_registration ::
    "string \<Rightarrow> string \<Rightarrow> device_type \<Rightarrow> string option \<Rightarrow> string option \<Rightarrow>
     conn \<Rightarrow> 'v rv_state \<Rightarrow> conn \<times> 'v rv_state" where
  "finish_registration code name dt url hash c st =
     (case validate_peer_code code of
        Inl e \<Rightarrow> close_unregistered c (reply c (ServerError e) st)
      | Inr code' \<Rightarrow>
          (let peer = \<lparr>peer_code = code', device_name = name, device_type = dt,
                       sender = conn_tx c, session_id = 0, wt_url = url, wt_cert_hash = hash\<rparr>
           in case add_peer (conn_ip c) peer st of
                (Inl e, st') \<Rightarrow> close_unregistered c (reply c (ServerError e) st')
              | (Inr (existing, sid), st') \<Rightarrow>
                  (c\<lparr>conn_phase := Registered code' sid\<rparr>, reply c (Peers existing) st')))"

definition register_message ::
    "(string, 'v client_message) result \<Rightarrow> conn \<Rightarrow> 'v rv_state \<Rightarrow> conn \<times> 'v rv_state" where
  "register_message msg c st =
     (case msg of
        Inr (Register code name dt url hash) \<Rightarrow>
          (case validate_device_name name of
             Inl e \<Rightarrow> (c, reply c (ServerError e) st)
           | Inr _ \<Rightarrow> finish_registration code name dt url hash c st)
      | Inr _ \<Rightarrow> (c, reply c (ServerError ''must send 'register' as first message'') st)
      | Inl e \<Rightarrow> (c, reply c (ServerError (''malformed message: '' @ e)) st))"

definition registration_step ::
    "(string \<Rightarrow> (string, 'v client_message) result) \<Rightarrow> nat \<Rightarrow> ws_next \<Rightarrow>
     conn \<Rightarrow> 'v rv_state \<Rightarrow> conn \<times> 'v rv_state" where
  "registration_step from_str now next c st =
     (case next of
        Some (Inr (Text text)) \<Rightarrow>
          (case rate_limit_check now (conn_limit c) of
             (r, rl) \<Rightarrow>
               (let c1 = c\<lparr>conn_limit := rl\<rparr>
                in case r of
                     Inl True \<Rightarrow> close_unregistered c1 st
                   | Inl False \<Rightarrow> (c1, reply c1 (ServerError ''rate limited'') st)
                   | Inr _ \<Rightarrow>
                       (case validate_message_size (length text) of
                          Inl e \<Rightarrow> (c1, reply c1 (ServerError e) st)
                        | Inr _ \<Rightarrow> register_message (from_str text) c1 st)))
      | Some (Inr (Binary _)) \<Rightarrow> (c, reply c (ServerError ''binary frames not accepted'') st)
      | Some (Inr (PingFrame _)) \<Rightarrow> (c, st)
      | Some (Inr (PongFrame _)) \<Rightarrow> (c, st)
      | Some (Inr CloseFrame) \<Rightarrow> close_unregistered c st
      | None \<Rightarrow> close_unregistered c st
      | Some (Inr (RawFrame _)) \<Rightarrow> (c, st)
      | Some (Inl _) \<Rightarrow> close_unregistered c st)"

definition quoted :: "string \<Rightarrow> string" where
  "quoted s = [CHR 0x27] @ s @ [CHR 0x27]"

text \<open>Relaying to a looked-up channel; the sender is told when the channel is closed.\<close>

definition relay :: "string \<Rightarrow> string \<Rightarrow> 'v \<Rightarrow> nat \<Rightarrow> conn \<Rightarrow> 'v rv_state \<Rightarrow> 'v rv_state" where
  "relay from to payload target c st =
     (case send target (ServerSignal from payload) st of
        (True, st') \<Rightarrow> st'
      | (False, st') \<Rightarrow>
          reply c (ServerError (''peer '' @ quoted to @ '' is no longer connected'')) st')"

definition handle_signal :: "string \<Rightarrow> string \<Rightarrow> 'v \<Rightarrow> conn \<Rightarrow> 'v rv_state \<Rightarrow> 'v rv_state" where
  "handle_signal code to payload c st =
     (case validate_signal_target to of
        Inl e \<Rightarrow> reply c (ServerError e) st
      | Inr to' \<Rightarrow>
          (case find_peer (conn_ip c) to' st of
             Some target \<Rightarrow> relay code to' payload target c st
           | None \<Rightarrow> reply c (ServerError (''peer '' @ quoted to' @ '' not found'')) st))"

definition handle_manual_signal ::
    "string \<Rightarrow> string \<Rightarrow> 'v \<Rightarrow> conn \<Rightarrow> 'v rv_state \<Rightarrow> 'v rv_state" where
  "handle_manual_signal code to payload c st =
     (case validate_signal_target to of
        Inl e \<Rightarrow> reply c (ServerError e) st
      | Inr to' \<Rightarrow>
          (case find_peer_manual to' st of
             Found target \<Rightarrow> relay code to' payload target c st
           | Ambiguous \<Rightarrow> reply c (ServerError (''peer '' @ quoted to' @ '' is ambiguous'')) st
           | NotFound \<Rightarrow> reply c (ServerError (''peer '' @ quoted to' @ '' not found'')) st))"

definition handle_client_message ::
    "string \<Rightarrow> (string, 'v client_message) result \<Rightarrow> conn \<Rightarrow> 'v rv_state \<Rightarrow> 'v rv_state" where
  "handle_client_message code msg c st =
     (case msg of
        Inr (Signal to payload) \<Rightarrow> handle_signal code to payload c st
      | Inr (ManualSignal to payload) \<Rightarrow> handle_manual_signal code to payload c st
      | Inr Ping \<Rightarrow> st
      | Inr (Register _ _ _ _ _) \<Rightarrow> reply c (ServerError ''already registered'') st
      | Inl e \<Rightarrow> reply c (ServerError (''malformed message: '' @ e)) st)"

definition cleanup :: "string \<Rightarrow> u64 \<Rightarrow> conn \<Rightarrow> 'v rv_state \<Rightarrow> conn \<times> 'v rv_state" where
  "cleanup code sid c st =
     (c\<lparr>conn_phase := Closed\<rparr>, abort_write c (remove_peer (conn_ip c) code sid st))"

definition message_step ::
    "(string \<Rightarrow> (string, 'v client_message) result) \<Rightarrow> nat \<Rightarrow> wait \<Rightarrow> string \<Rightarrow> u64 \<Rightarrow>
     conn \<Rightarrow> 'v rv_state \<Rightarrow> conn \<times> 'v rv_state" where
  "message_step from_str now w code sid c st =
     (case w of
        Elapsed \<Rightarrow> cleanup code sid c st
      | Ready next \<Rightarrow>
          (case next of
             Some (Inr (Text text)) \<Rightarrow>
               (case rate_limit_check now (conn_limit c) of
                  (r, rl) \<Rightarrow>
                    (let c1 = c\<lparr>conn_limit := rl\<rparr>
                     in case r of
                          Inl True \<Rightarrow> cleanup code sid c1 st
                        | Inl False \<Rightarrow> (c1, reply c1 (ServerError ''rate limited'') st)
                        | Inr _ \<Rightarrow>
                            (case validate_message_size (length text) of
                               Inl e \<Rightarrow> (c1, reply c1 (ServerError e) st)
                             | Inr _ \<Rightarrow> (c1, handle_client_message code (from_str text) c1 st))))
           | Some (Inr (Binary _)) \<Rightarrow> (c, reply c (ServerError ''binary frames not accepted'') st)
           | Some (Inr (PingFrame _)) \<Rightarrow> (c, st)
           | Some (Inr (PongFrame _)) \<Rightarrow> (c, st)
           | Some (Inr CloseFrame) \<Rightarrow> cleanup code sid c st
           | None \<Rightarrow> cleanup code sid c st
           | Some (Inr (RawFrame _)) \<Rightarrow> (c, st)
           | Some (Inl _) \<Rightarrow> cleanup code sid c st))"

text \<open>
  One turn of the handler. Before registration there is no timeout: a registering connection
  goes on waiting.
\<close>

definition conn_step ::
    "(string \<Rightarrow> (string, 'v client_message) result) \<Rightarrow> nat \<Rightarrow> wait \<Rightarrow>
     conn \<Rightarrow> 'v rv_state \<Rightarrow> conn \<times> 'v rv_state" where
  "conn_step from_str now w c st =
     (case conn_phase c of
        Registering \<Rightarrow>
          (case w of Elapsed \<Rightarrow> (c, st) | Ready next \<Rightarrow> registration_step from_str now next c st)
      | Registered code sid \<Rightarrow> message_step from_str now w code sid c st
      | Closed \<Rightarrow> (c, st))"

text \<open>The channel and the state of a connection once its handshake is done.\<close>

definition open_connection :: "string \<Rightarrow> nat \<Rightarrow> nat \<Rightarrow> 'v rv_state \<Rightarrow> conn \<times> 'v rv_state" where
  "open_connection ip tx now st =
     (\<lparr>conn_ip = ip, conn_tx = tx, conn_limit = rate_limit_new now, conn_phase = Registering\<rparr>,
      st\<lparr>chans := (chans st)(tx := \<lparr>rx_alive = True, queue = [], wire = []\<rparr>)\<rparr>)"

text \<open>The write task: it moves messages from the channel to the socket, in order.\<close>

definition write_task_step :: "nat \<Rightarrow> bool \<Rightarrow> 'v rv_state \<Rightarrow> 'v rv_state" where
  "write_task_step tx sink_ok st =
     (let ch = chans st tx
      in case queue ch of
           [] \<Rightarrow> st
         | m # ms \<Rightarrow>
             if \<not> rx_alive ch then st
             else if sink_ok then st\<lparr>chans := (chans st)(tx := ch\<lparr>queue := ms, wire := wire ch @ [m]\<rparr>)\<rparr>
             else st\<lparr>chans := (chans st)(tx := ch\<lparr>rx_alive := False, queue := ms\<rparr>)\<rparr>)"

text \<open>
  The whole handler on a connection of its own: the peeked bytes, the handshake (failed, or
  the two headers), and the timed events of the stream.
\<close>

datatype outcome = GaveUp | Answered string | Served conn

fun run_events ::
    "(string \<Rightarrow> (string, 'v client_message) result) \<Rightarrow> (nat \<times> wait) list \<Rightarrow>
     conn \<Rightarrow> 'v rv_state \<Rightarrow> conn \<times> 'v rv_state" where
  "run_events from_str [] c st = (c, st)"
| "run_events from_str ((now, w) # evs) c st =
     (case conn_step from_str now w c st of (c', st') \<Rightarrow> run_events from_str evs c' st')"

definition handle_connection ::
    "(string \<Rightarrow> (string, 'v client_message) result) \<Rightarrow> ip_addr list \<Rightarrow> ip_addr \<Rightarrow>
     string option \<Rightarrow> (header \<times> header) option \<Rightarrow> nat \<Rightarrow> nat \<Rightarrow> (nat \<times> wait) list \<Rightarrow>
     'v rv_state \<Rightarrow> outcome \<times> 'v rv_state" where
  "handle_connection from_str trusted_proxies addr peeked handshake tx now evs st =
     (case classify_request peeked of
        PeekFailed \<Rightarrow> (GaveUp, st)
      | PlainHttp response \<Rightarrow> (Answered response, st)
      | Handshake \<Rightarrow>
          (case handshake of
             None \<Rightarrow> (GaveUp, st)
           | Some (fly, xff) \<Rightarrow>
               (case open_connection (client_room trusted_proxies addr fly xff) tx now st of
                  (c, st1) \<Rightarrow>
                    (case run_events from_str evs c st1 of (c', st2) \<Rightarrow> (Served c', st2)))))"

section \<open>What a step puts into the queues\<close>

text \<open>
  \<open>emits P st st'\<close>: between the two states every queue only grew, and every message \<open>m\<close>
  appended to channel \<open>ch\<close> satisfies \<open>P ch m\<close>.
\<close>

definition emits :: "(nat \<Rightarrow> 'v server_message \<Rightarrow> bool) \<Rightarrow> 'v rv_state \<Rightarrow> 'v rv_state \<Rightarrow> bool" where
  "emits P st st' \<longleftrightarrow>
     (\<forall>ch. \<exists>ms. queue (chans st' ch) = queue (chans st ch) @ ms \<and> (\<forall>m\<in>set ms. P ch m))"

lemma emits_refl [simp, intro]: "emits P st st"
  by (simp add: emits_def)

lemma emits_trans:
  assumes "emits P s t" "emits P t u"
  shows "emits P s u"
  unfolding emits_def
proof
  fix ch
  obtain ms where ms: "queue (chans t ch) = queue (chans s ch) @ ms" "\<forall>m\<in>set ms. P ch m"
    using assms(1) unfolding emits_def by blast
  obtain ns where ns: "queue (chans u ch) = queue (chans t ch) @ ns" "\<forall>m\<in>set ns. P ch m"
    using assms(2) unfolding emits_def by blast
  from ms ns show "\<exists>ms. queue (chans u ch) = queue (chans s ch) @ ms \<and> (\<forall>m\<in>set ms. P ch m)"
    by (intro exI [of _ "ms @ ns"]) auto
qed

lemma emits_frame [simp]:
  "emits P st (st'\<lparr>rooms := r\<rparr>) = emits P st st'"
  "emits P st (st'\<lparr>next_session := n\<rparr>) = emits P st st'"
  "emits P (st\<lparr>next_session := n\<rparr>) st' = emits P st st'"
  "emits P st (abort_write c st') = emits P st st'"
  by (auto simp: emits_def abort_write_def)

lemma emits_send: "P tx m \<Longrightarrow> emits P st (snd (send tx m st))"
  by (auto simp: emits_def queue_send)

lemma emits_reply: "P (conn_tx c) m \<Longrightarrow> emits P st (reply c m st)"
  by (simp add: reply_def emits_send)

lemma emits_reply_after: "emits P st st' \<Longrightarrow> P (conn_tx c) m \<Longrightarrow> emits P st (reply c m st')"
  using emits_reply emits_trans by blast

lemma emits_broadcast: "(\<And>p. p \<in> set ps \<Longrightarrow> P (sender p) m) \<Longrightarrow> emits P st (broadcast m ps st)"
proof (induction ps arbitrary: st)
  case Nil
  then show ?case by simp
next
  case (Cons p ps)
  then have "emits P (snd (send (sender p) m st)) (broadcast m ps (snd (send (sender p) m st)))" by simp
  moreover have "emits P st (snd (send (sender p) m st))" using Cons.prems by (intro emits_send) simp
  ultimately show ?case using emits_trans by simp
qed

lemma emits_add_peer:
  assumes "rooms_inv st" "add_peer ip peer st = (r, st')"
    "\<And>p. p \<in> set (room_at ip st) \<Longrightarrow> P (sender p) (PeerJoined (to_peer_data peer))"
  shows "emits P st st'"
  using assms(1,2)
proof (cases rule: add_peer_cases)
  case added
  have "emits P (st\<lparr>next_session := next_session st + 1\<rparr>)
      (broadcast (PeerJoined (to_peer_data peer)) (others ip (peer_code peer) st)
        (st\<lparr>next_session := next_session st + 1\<rparr>))"
    using assms(3) by (intro emits_broadcast) (auto simp: others_def)
  with added(4) show ?thesis by simp
qed simp_all

lemma emits_remove_peer:
  assumes "rooms_inv st"
    "\<And>p. p \<in> set (room_at ip st) \<Longrightarrow> P (sender p) (PeerLeft code)"
  shows "emits P st (remove_peer ip code sid st)"
  using assms(2) by (auto simp: remove_peer_eq [OF assms(1)] others_def intro: emits_broadcast)

section \<open>Which room operation a step performs\<close>

lemma reply_frame [simp]:
  "rooms (reply c m st) = rooms st" "next_session (reply c m st) = next_session st"
  "rx_alive (chans (reply c m st) ch) = rx_alive (chans st ch)"
  by (simp_all add: reply_def)

lemma abort_write_frame [simp]:
  "rooms (abort_write c st) = rooms st" "next_session (abort_write c st) = next_session st"
  "queue (chans (abort_write c st) ch) = queue (chans st ch)"
  "rx_alive (chans (abort_write c st) ch) \<longleftrightarrow> ch \<noteq> conn_tx c \<and> rx_alive (chans st ch)"
  by (simp_all add: abort_write_def)

lemma abort_write_rooms [simp]:
  "rooms_inv (abort_write c st) = rooms_inv st" "directory (abort_write c st) = directory st"
  by (auto intro!: rooms_inv_cong directory_cong)

lemma own_channel:
  "ch \<noteq> conn_tx c \<Longrightarrow> chans (reply c m st) ch = chans st ch"
  "ch \<noteq> conn_tx c \<Longrightarrow> chans (abort_write c st) ch = chans st ch"
  by (simp_all add: reply_def send_def Let_def abort_write_def)

lemma relay_frame [simp]: "rooms (relay f to v target c st) = rooms st"
  by (simp add: relay_def send_def Let_def)

lemma handle_client_message_frame [simp]: "rooms (handle_client_message code msg c st) = rooms st"
  by (simp add: handle_client_message_def handle_signal_def handle_manual_signal_def
      split: sum.splits client_message.splits option.splits manual_peer_lookup.splits)

text \<open>
  A turn of the handler does one of four things to the rooms and the phase: nothing; give up
  a connection that is not registered; register; or leave.
\<close>

lemma finish_registration_cases:
  assumes "finish_registration code name dt url hash c st = (c', st')" "rooms_inv st"
  obtains (gave_up) "c' = c\<lparr>conn_phase := Closed\<rparr>" "rooms st' = rooms st"
    "\<not> rx_alive (chans st' (conn_tx c))" "\<And>ch. ch \<noteq> conn_tx c \<Longrightarrow> chans st' ch = chans st ch"
  | (registered) peer existing sid st1 where
      "add_peer (conn_ip c) peer st = (Inr (existing, sid), st1)"
      "validate_peer_code code = Inr (peer_code peer)"
      "sender peer = conn_tx c" "device_name peer = name" "device_type peer = dt"
      "wt_url peer = url" "wt_cert_hash peer = hash"
      "c' = c\<lparr>conn_phase := Registered (peer_code peer) sid\<rparr>"
      "st' = reply c (Peers existing) st1"
proof (cases "validate_peer_code code")
  case (Inl e)
  with assms(1) gave_up show ?thesis
    by (auto simp: finish_registration_def close_unregistered_def own_channel)
next
  case (Inr code')
  let ?peer = "\<lparr>peer_code = code', device_name = name, device_type = dt,
                 sender = conn_tx c, session_id = 0, wt_url = url, wt_cert_hash = hash\<rparr>"
  obtain r st1 where a: "add_peer (conn_ip c) ?peer st = (r, st1)" by fastforce
  show ?thesis
  proof (cases r)
    case (Inl e)
    have "rooms st1 = rooms st \<and> chans st1 = chans st"
      using assms(2) a Inl by (cases rule: add_peer_cases) auto
    with Inl Inr a assms(1) gave_up show ?thesis
      by (auto simp: finish_registration_def close_unregistered_def own_channel)
  next
    case (Inr x)
    then obtain existing sid where "r = Inr (existing, sid)" by (cases x) auto
    with \<open>validate_peer_code code = Inr code'\<close> a assms(1) registered [of ?peer existing sid st1]
    show ?thesis by (auto simp: finish_registration_def)
  qed
qed

lemmas conn_splits =
  option.splits sum.splits prod.splits bool.splits ws_message.splits client_message.splits

lemma validate_device_name_ok: "validate_device_name n = Inr u \<Longrightarrow> length n \<le> MAX_DEVICE_NAME_BYTES"
  by (auto simp: validate_device_name_def split: if_splits)

lemma register_message_cases:
  assumes "register_message msg c st = (c', st')" "rooms_inv st"
  obtains (stay) "c' = c" "rooms st' = rooms st" "\<And>ch. rx_alive (chans st' ch) = rx_alive (chans st ch)"
      "\<exists>e. st' = reply c (ServerError e) st"
  | (finished) code name dt url hash where "msg = Inr (Register code name dt url hash)"
      "length name \<le> MAX_DEVICE_NAME_BYTES"
      "finish_registration code name dt url hash c st = (c', st')"
proof (cases msg)
  case (Inl e)
  show ?thesis by (rule stay) (use assms(1) Inl in \<open>auto simp: register_message_def\<close>)
next
  case (Inr m)
  show ?thesis
  proof (cases m)
    case (Register code name dt url hash)
    show ?thesis
    proof (cases "validate_device_name name")
      case (Inl e)
      show ?thesis
        by (rule stay) (use assms(1) Inr Register Inl in \<open>auto simp: register_message_def\<close>)
    next
      case (Inr u)
      show ?thesis
      proof (rule finished)
        show "msg = Inr (Register code name dt url hash)" using \<open>msg = Inr m\<close> Register by simp
        show "length name \<le> MAX_DEVICE_NAME_BYTES" using validate_device_name_ok Inr .
        show "finish_registration code name dt url hash c st = (c', st')"
          using assms(1) \<open>msg = Inr m\<close> Register Inr by (simp add: register_message_def)
      qed
    qed
  next
    case (Signal to v)
    show ?thesis by (rule stay) (use assms(1) Inr Signal in \<open>auto simp: register_message_def\<close>)
  next
    case (ManualSignal to v)
    show ?thesis by (rule stay) (use assms(1) Inr ManualSignal in \<open>auto simp: register_message_def\<close>)
  next
    case Ping
    show ?thesis by (rule stay) (use assms(1) Inr Ping in \<open>auto simp: register_message_def\<close>)
  qed
qed

text \<open>
  What the registration loop does with one item: it only talks to its own peer, gives up, or
  hands a parsed message on with the limiter updated.
\<close>

lemma registration_step_cases:
  assumes "registration_step from_str now next c st = (c', st')"
  obtains (stay) "conn_phase c' = conn_phase c" "rooms st' = rooms st"
      "\<And>ch. rx_alive (chans st' ch) = rx_alive (chans st ch)"
      "st' = st \<or> (\<exists>e. st' = reply c (ServerError e) st)"
  | (gave_up) "conn_phase c' = Closed" "rooms st' = rooms st"
      "\<not> rx_alive (chans st' (conn_tx c))" "st' = abort_write c st"
  | (message) body rl where "next = Some (Inr (Text body))"
      "rate_limit_check now (conn_limit c) = (Inr (), rl)"
      "register_message (from_str body) (c\<lparr>conn_limit := rl\<rparr>) st = (c', st')"
proof -
  have r: "reply (c\<lparr>conn_limit := rl\<rparr>) m st = reply c m st"
    "abort_write (c\<lparr>conn_limit := rl\<rparr>) st = abort_write c st" for rl and m :: "'a server_message"
    by (simp_all add: reply_def abort_write_def)
  have "st' = st \<and> conn_phase c' = conn_phase c \<or>
    (\<exists>e. st' = reply c (ServerError e) st) \<and> conn_phase c' = conn_phase c \<or>
    conn_phase c' = Closed \<and> st' = abort_write c st \<or>
    (\<exists>body rl. next = Some (Inr (Text body)) \<and> rate_limit_check now (conn_limit c) = (Inr (), rl) \<and>
       register_message (from_str body) (c\<lparr>conn_limit := rl\<rparr>) st = (c', st'))"
  proof (cases "\<exists>body. next = Some (Inr (Text body))")
    case True
    then obtain body where n: "next = Some (Inr (Text body))" by blast
    obtain x rl where x: "rate_limit_check now (conn_limit c) = (x, rl)" by fastforce
    consider "x = Inl True" | "x = Inl False" | "x = Inr ()" by (cases x) auto
    then show ?thesis
    proof cases
      case 3
      with n x assms show ?thesis
        by (cases "validate_message_size (length body)")
          (auto simp: registration_step_def r)
    qed (use n x assms in \<open>auto simp: registration_step_def close_unregistered_def r\<close>)
  next
    case False
    with assms show ?thesis
      by (auto simp: registration_step_def close_unregistered_def split: option.splits sum.splits ws_message.splits)
  qed
  then consider (a) "st' = st \<or> (\<exists>e. st' = reply c (ServerError e) st)" "conn_phase c' = conn_phase c"
    | (b) "conn_phase c' = Closed" "st' = abort_write c st"
    | (c) body rl where "next = Some (Inr (Text body))" "rate_limit_check now (conn_limit c) = (Inr (), rl)"
       "register_message (from_str body) (c\<lparr>conn_limit := rl\<rparr>) st = (c', st')"
    by blast
  then show thesis
  proof cases
    case a
    then show ?thesis by (intro stay) auto
  next
    case b
    then show ?thesis by (intro gave_up) auto
  next
    case c
    then show ?thesis by (rule message)
  qed
qed

lemma message_step_cases:
  assumes "message_step from_str now w code sid c st = (c', st')"
  obtains (stay) "conn_phase c' = conn_phase c" "st' = st \<or> (\<exists>e. st' = reply c (ServerError e) st)"
  | (left) "conn_phase c' = Closed" "st' = abort_write c (remove_peer (conn_ip c) code sid st)"
  | (message) body rl where "w = Ready (Some (Inr (Text body)))"
      "rate_limit_check now (conn_limit c) = (Inr (), rl)" "c' = c\<lparr>conn_limit := rl\<rparr>"
      "st' = handle_client_message code (from_str body) (c\<lparr>conn_limit := rl\<rparr>) st"
proof -
  have r: "reply (c\<lparr>conn_limit := rl\<rparr>) m st = reply c m st"
    "abort_write (c\<lparr>conn_limit := rl\<rparr>) st = abort_write c st" for rl and m :: "'a server_message" and st
    by (simp_all add: reply_def abort_write_def)
  have "st' = st \<and> conn_phase c' = conn_phase c \<or>
    (\<exists>e. st' = reply c (ServerError e) st) \<and> conn_phase c' = conn_phase c \<or>
    conn_phase c' = Closed \<and> st' = abort_write c (remove_peer (conn_ip c) code sid st) \<or>
    (\<exists>body rl. w = Ready (Some (Inr (Text body))) \<and> rate_limit_check now (conn_limit c) = (Inr (), rl) \<and>
       c' = c\<lparr>conn_limit := rl\<rparr> \<and>
       st' = handle_client_message code (from_str body) (c\<lparr>conn_limit := rl\<rparr>) st)"
  proof (cases "\<exists>body. w = Ready (Some (Inr (Text body)))")
    case True
    then obtain body where n: "w = Ready (Some (Inr (Text body)))" by blast
    obtain x rl where x: "rate_limit_check now (conn_limit c) = (x, rl)" by fastforce
    consider "x = Inl True" | "x = Inl False" | "x = Inr ()" by (cases x) auto
    then show ?thesis
    proof cases
      case 3
      with n x assms show ?thesis
        by (cases "validate_message_size (length body)") (auto simp: message_step_def Let_def r)
    qed (use n x assms in \<open>auto simp: message_step_def cleanup_def r\<close>)
  next
    case False
    with assms show ?thesis
      by (auto simp: message_step_def cleanup_def
          split: wait.splits option.splits sum.splits ws_message.splits)
  qed
  then consider (a) "st' = st \<or> (\<exists>e. st' = reply c (ServerError e) st)" "conn_phase c' = conn_phase c"
    | (b) "conn_phase c' = Closed" "st' = abort_write c (remove_peer (conn_ip c) code sid st)"
    | (c) body rl where "w = Ready (Some (Inr (Text body)))"
       "rate_limit_check now (conn_limit c) = (Inr (), rl)" "c' = c\<lparr>conn_limit := rl\<rparr>"
       "st' = handle_client_message code (from_str body) (c\<lparr>conn_limit := rl\<rparr>) st"
    by blast
  then show thesis
    by cases (rule stay left message; assumption)+
qed

lemma conn_step_cases:
  assumes "conn_step from_str now w c st = (c', st')" "rooms_inv st"
  obtains (stay) "conn_phase c' = conn_phase c" "rooms st' = rooms st"
      "\<And>ch. rx_alive (chans st' ch) = rx_alive (chans st ch)"
  | (gave_up) "conn_phase c = Registering" "conn_phase c' = Closed" "rooms st' = rooms st"
      "\<not> rx_alive (chans st' (conn_tx c))"
  | (registered) peer existing sid st1 where
      "conn_phase c = Registering" "conn_phase c' = Registered (peer_code peer) sid"
      "add_peer (conn_ip c) peer st = (Inr (existing, sid), st1)"
      "rooms st' = rooms st1" "sender peer = conn_tx c"
      "valid_code (peer_code peer)" "length (device_name peer) \<le> MAX_DEVICE_NAME_BYTES"
  | (left) code sid where
      "conn_phase c = Registered code sid" "conn_phase c' = Closed"
      "st' = abort_write c (remove_peer (conn_ip c) code sid st)"
proof (cases "conn_phase c")
  case Registering
  show ?thesis
  proof (cases w)
    case Elapsed
    with Registering assms(1) stay show ?thesis by (simp add: conn_step_def)
  next
    case (Ready nxt)
    with Registering assms(1) have step: "registration_step from_str now nxt c st = (c', st')"
      by (simp add: conn_step_def)
    then show ?thesis
    proof (cases rule: registration_step_cases)
      case (message body rl)
      from message(3) assms(2) show ?thesis
      proof (cases rule: register_message_cases)
        case (finished code name dt url hash)
        from finished(3) assms(2) show ?thesis
        proof (cases rule: finish_registration_cases)
          case gave_up
          with Registering that(2) show ?thesis by simp
        next
          case (registered peer existing sid st1)
          then have "valid_code (peer_code peer)" by (blast intro: reg.result_valid)
          with registered finished(2) Registering that(3) [of peer sid existing st1]
          show ?thesis by simp
        qed
      qed (use Registering stay in simp)
    qed (use Registering that(1,2) in simp_all)
  qed
next
  case (Registered code sid)
  with assms(1) have "message_step from_str now w code sid c st = (c', st')"
    by (simp add: conn_step_def)
  then show ?thesis
  proof (cases rule: message_step_cases)
    case stay
    with that(1) show ?thesis by auto
  next
    case left
    with Registered that(4) show ?thesis by simp
  next
    case (message body rl)
    have "rx_alive (chans (handle_client_message code m c1 st) ch) = rx_alive (chans st ch)" for m c1 ch
      by (simp add: handle_client_message_def handle_signal_def handle_manual_signal_def relay_def send_def Let_def
          split: sum.splits client_message.splits option.splits manual_peer_lookup.splits)
    with message that(1) show ?thesis by simp
  qed
next
  case Closed
  with assms(1) stay show ?thesis by (simp add: conn_step_def)
qed

section \<open>Who may be told what\<close>

definition asks ::
    "(string \<Rightarrow> (string, 'v client_message) result) \<Rightarrow> wait \<Rightarrow> 'v client_message \<Rightarrow> bool" where
  "asks from_str w msg \<longleftrightarrow>
     (case w of Ready (Some (Inr (Text body))) \<Rightarrow> from_str body = Inr msg | _ \<Rightarrow> False)"

text \<open>
  The messages a turn of connection \<open>c\<close> may put into the queue of channel \<open>ch\<close>. A relayed
  signal carries the connection's own registered code and the payload it was asked to relay,
  and goes to the holder of the target code: in the connection's own room for a signal, in the
  only room that has the code for a manual one. Joins and departures concern the connection
  itself and go to its own room. Answers go to the connection's own peer.
\<close>

definition may_send ::
    "(string \<Rightarrow> (string, 'v client_message) result) \<Rightarrow> wait \<Rightarrow> conn \<Rightarrow> 'v rv_state \<Rightarrow>
     nat \<Rightarrow> 'v server_message \<Rightarrow> bool" where
  "may_send from_str w c st ch m \<longleftrightarrow>
     (case m of
        ServerSignal from payload \<Rightarrow>
          (\<exists>sid. conn_phase c = Registered from sid) \<and>
          (\<exists>to p. sender p = ch \<and>
             (asks from_str w (Signal to payload) \<and>
              directory st (conn_ip c, strip_hyphens to) = Some p \<or>
              asks from_str w (ManualSignal to payload) \<and>
              (\<exists>ip. rooms_with (strip_hyphens to) st = {ip} \<and>
                    directory st (ip, strip_hyphens to) = Some p)))
      | PeerJoined d \<Rightarrow>
          conn_phase c = Registering \<and> valid_code (pd_peer_code d) \<and>
          (\<exists>p\<in>set (room_at (conn_ip c) st). sender p = ch)
      | PeerLeft code \<Rightarrow>
          (\<exists>sid. conn_phase c = Registered code sid) \<and>
          (\<exists>p\<in>set (room_at (conn_ip c) st). sender p = ch)
      | Peers _ \<Rightarrow> ch = conn_tx c
      | ServerError _ \<Rightarrow> ch = conn_tx c)"

lemma emits_finish_registration:
  assumes "rooms_inv st" "conn_phase c = Registering" "conn_tx c1 = conn_tx c" "conn_ip c1 = conn_ip c"
    "finish_registration code name dt url hash c1 st = (c', st')"
  shows "emits (may_send from_str w c st) st st'"
proof (cases "validate_peer_code code")
  case (Inl e)
  then have "st' = abort_write c1 (reply c1 (ServerError e) st)"
    using assms(5) by (auto simp: finish_registration_def close_unregistered_def)
  then show ?thesis using assms(3) by (simp add: emits_reply may_send_def)
next
  case (Inr code')
  define peer where "peer = \<lparr>peer_code = code', device_name = name, device_type = dt,
    sender = conn_tx c1, session_id = 0, wt_url = url, wt_cert_hash = hash\<rparr>"
  obtain r st1 where a: "add_peer (conn_ip c) peer st = (r, st1)" by fastforce
  have "emits (may_send from_str w c st) st st1"
    by (rule emits_add_peer [OF assms(1) a])
      (use assms(2) reg.result_valid [OF Inr] in
        \<open>auto simp: may_send_def to_peer_data_def peer_def\<close>)
  then have "emits (may_send from_str w c st) st (reply c1 m st1)"
    if "may_send from_str w c st (conn_tx c) m" for m
    using that assms(3) emits_reply_after by metis
  moreover have "\<exists>m. (st' = reply c1 m st1 \<or> st' = abort_write c1 (reply c1 m st1)) \<and>
      may_send from_str w c st (conn_tx c) m"
    using assms(4,5) Inr a
    by (auto simp: finish_registration_def close_unregistered_def may_send_def peer_def [symmetric]
        split: sum.splits)
  ultimately show ?thesis by auto
qed

lemma emits_relay:
  assumes "may_send from_str w c st target (ServerSignal code payload)" "conn_tx c1 = conn_tx c"
  shows "emits (may_send from_str w c st) st (relay code to payload target c1 st)"
proof -
  have "emits (may_send from_str w c st) st (snd (send target (ServerSignal code payload) st))"
    using assms(1) by (rule emits_send)
  then show ?thesis
    using assms(2)
    by (auto simp: relay_def may_send_def intro: emits_reply_after split: prod.splits bool.splits)
qed

lemma emits_error: "conn_tx c1 = conn_tx c \<Longrightarrow> emits (may_send from_str w c st) st (reply c1 (ServerError e) st)"
  by (rule emits_reply) (simp add: may_send_def)

lemma emits_handle_client_message:
  assumes "rooms_inv st" "conn_phase c = Registered code sid" "w = Ready (Some (Inr (Text body)))"
    "conn_tx c1 = conn_tx c" "conn_ip c1 = conn_ip c"
  shows "emits (may_send from_str w c st) st (handle_client_message code (from_str body) c1 st)"
proof (cases "from_str body")
  case (Inl e)
  then show ?thesis using assms(4) by (simp add: handle_client_message_def emits_error)
next
  case (Inr msg)
  show ?thesis
  proof (cases msg)
    case (Signal to payload)
    have "may_send from_str w c st target (ServerSignal code payload)"
      if "validate_signal_target to = Inr to'" "find_peer (conn_ip c) to' st = Some target" for to' target
      using that Inr Signal assms(2,3)
      by (auto simp: may_send_def asks_def find_peer_directory tgt.norm_ok)
    then show ?thesis
      using Inr Signal assms(4,5)
      by (auto simp: handle_client_message_def handle_signal_def
          intro: emits_error emits_relay split: sum.splits option.splits)
  next
    case (ManualSignal to payload)
    have "may_send from_str w c st target (ServerSignal code payload)"
      if "validate_signal_target to = Inr to'" "find_peer_manual to' st = Found target" for to' target
    proof -
      have "to' = strip_hyphens to" using that(1) tgt.norm_ok by blast
      with that(2) obtain ip p where "rooms_with (strip_hyphens to) st = {ip}"
        "directory st (ip, strip_hyphens to) = Some p" "sender p = target"
        using find_peer_manual_found [OF assms(1)] by blast
      then show ?thesis using Inr ManualSignal assms(2,3)
        by (auto simp: may_send_def asks_def)
    qed
    then show ?thesis
      using Inr ManualSignal assms(4)
      by (auto simp: handle_client_message_def handle_manual_signal_def
          intro: emits_error emits_relay split: sum.splits manual_peer_lookup.splits)
  qed (use Inr assms(4) in \<open>auto simp: handle_client_message_def intro: emits_error\<close>)
qed

lemma conn_step_emits:
  assumes "rooms_inv st" "conn_step from_str now w c st = (c', st')"
  shows "emits (may_send from_str w c st) st st'"
proof (cases "conn_phase c")
  case Registering
  show ?thesis
  proof (cases w)
    case Elapsed
    with Registering assms(2) show ?thesis by (simp add: conn_step_def)
  next
    case (Ready nxt)
    with Registering assms(2) have "registration_step from_str now nxt c st = (c', st')"
      by (simp add: conn_step_def)
    then show ?thesis
    proof (cases rule: registration_step_cases)
      case (message body rl)
      then show ?thesis
        using assms(1) Registering emits_finish_registration [of st c "c\<lparr>conn_limit := rl\<rparr>"]
          emits_error [of "c\<lparr>conn_limit := rl\<rparr>" c]
        by (auto simp: register_message_def split: sum.splits client_message.splits)
    qed (auto simp: emits_error)
  qed
next
  case (Registered code sid)
  with assms(2) have "message_step from_str now w code sid c st = (c', st')"
    by (simp add: conn_step_def)
  then show ?thesis
  proof (cases rule: message_step_cases)
    case left
    have "emits (may_send from_str w c st) st (remove_peer (conn_ip c) code sid st)"
      using Registered by (intro emits_remove_peer [OF assms(1)]) (auto simp: may_send_def)
    with left show ?thesis by simp
  next
    case (message body rl)
    with emits_handle_client_message [OF assms(1) Registered] show ?thesis by simp
  qed (auto simp: emits_error)
next
  case Closed
  with assms(2) show ?thesis by (simp add: conn_step_def)
qed

section \<open>The identity of a connection\<close>

text \<open>A connection keeps its room and its channel for life.\<close>

lemma conn_step_fixed:
  assumes "conn_step from_str now w c st = (c', st')"
  shows "conn_ip c' = conn_ip c" "conn_tx c' = conn_tx c"
proof -
  have f: "finish_registration code name dt url hash c st = (c', st') \<Longrightarrow>
      conn_ip c' = conn_ip c \<and> conn_tx c' = conn_tx c" for code name dt url hash c c' st st'
    by (auto simp: finish_registration_def close_unregistered_def Let_def
        split: sum.splits prod.splits)
  have m: "register_message msg c st = (c', st') \<Longrightarrow>
      conn_ip c' = conn_ip c \<and> conn_tx c' = conn_tx c" for msg c c' st st'
    by (auto simp: register_message_def dest: f split: sum.splits client_message.splits)
  have r: "registration_step from_str now nxt c st = (c', st') \<Longrightarrow>
      conn_ip c' = conn_ip c \<and> conn_tx c' = conn_tx c" for nxt
    by (auto simp: registration_step_def close_unregistered_def Let_def dest: m
        split: option.splits sum.splits ws_message.splits prod.splits bool.splits)
  have "message_step from_str now w code sid c st = (c', st') \<Longrightarrow>
      conn_ip c' = conn_ip c \<and> conn_tx c' = conn_tx c" for code sid
    by (auto simp: message_step_def cleanup_def Let_def
        split: wait.splits option.splits sum.splits ws_message.splits prod.splits bool.splits)
  with assms r show "conn_ip c' = conn_ip c" "conn_tx c' = conn_tx c"
    by (auto simp: conn_step_def split: phase.splits wait.splits)
qed

lemma run_events_fixed:
  "run_events from_str evs c st = (c', st') \<Longrightarrow> conn_ip c' = conn_ip c \<and> conn_tx c' = conn_tx c"
proof (induction from_str evs c st rule: run_events.induct)
  case (2 from_str now w evs c st)
  obtain c1 st1 where "conn_step from_str now w c st = (c1, st1)" by fastforce
  with 2 conn_step_fixed [OF this] show ?case by auto
qed simp

end
