(* ===== verification/Connection_Properties.thy ===== *)
theory Connection_Properties
  imports Connection
begin

text \<open>
  What the connection handler guarantees for one turn, whatever the other connections did
  before: who may be told what, that signals are delivered, that nothing happens before
  registration, and that leaving cleans up.
\<close>

section \<open>A registered connection to try things on\<close>

text \<open>
  The state with one peer, code \<open>AAA\<close> at 203.0.113.7 on channel 0, and the connection on
  channel 1 that registered \<open>BBB\<close> in the same room.
\<close>

definition peer_a :: peer_info where
  "peer_a = make_peer ''AAA'' ''First'' 0"

definition conn_b :: "phase \<Rightarrow> conn" where
  "conn_b ph = \<lparr>conn_ip = ''203.0.113.7'', conn_tx = 1, conn_limit = rate_limit_new 0, conn_phase = ph\<rparr>"

definition state_a :: "nat rv_state" where
  "state_a = live_peer ''203.0.113.7'' peer_a"

lemma state_a_inv: "rooms_inv state_a"
  by (simp add: state_a_def live_peer_inv)

lemma state_a_directory:
  "directory state_a = [(''203.0.113.7'', ''AAA'') \<mapsto> peer_a\<lparr>session_id := 1\<rparr>]"
  by (auto simp: state_a_def peer_a_def directory_def room_at_def fun_eq_iff)

lemma state_a_chans [simp]: "chans state_a c = \<lparr>rx_alive = True, queue = [], wire = []\<rparr>"
  by (simp add: state_a_def)

lemma peer_a_sender [simp]: "sender peer_a = 0"
  by (simp add: peer_a_def)

lemma fresh_limit: "rate_limit_check 0 (rate_limit_new 0) =
    (Inr (), \<lparr>remaining = 49, window_start = 0, consecutive_violations = 0\<rparr>)"
  by (simp add: rate_limit_check_def rate_limit_new_def rate_limit_consts one_second_def)

lemma valid_AAA: "validate_signal_target ''AAA'' = Inr ''AAA''"
proof -
  have "valid_code ''AAA''" by code_simp
  then show ?thesis by (rule tgt.norm_valid)
qed

section \<open>Properties\<close>

text \<open>
  C4: relays are authentic and stay inside the room. Whatever one turn of a connection adds
  to any queue is allowed by \<open>may_send\<close>: a relayed signal carries the code the connection
  registered and the payload of the message just received, and reaches only the holder of the
  target code in the connection's own room, or for a manual signal the holder in the only room
  that has the code; joins and departures go to the own room only; every other answer goes to
  the connection's own peer.
\<close>

theorem turn_tells_only:
  assumes "rooms_inv st"
  shows "emits (may_send from_str w c st) st (snd (conn_step from_str now w c st))"
  using conn_step_emits [OF assms] by (metis prod.collapse)

theorem turn_tells_only_witness:
  "emits (may_send (\<lambda>_. Inr (Signal ''AAA'' 5)) (Ready (Some (Inr (Text ''x'')))) (conn_b (Registered ''BBB'' 2)) state_a)
     state_a (snd (conn_step (\<lambda>_. Inr (Signal ''AAA'' 5)) 0 (Ready (Some (Inr (Text ''x''))))
                (conn_b (Registered ''BBB'' 2)) state_a))"
  by (rule turn_tells_only [OF state_a_inv])

text \<open>
  C19: a signal to a peer of the same room is delivered. A registered connection within its
  rate and size limits that sends a signal to a code of its room, in any hyphenation, adds one
  message with its own code and the payload to that peer's queue, if the peer's receiver still
  exists; nothing else changes and the connection stays registered.
\<close>

theorem signal_delivered:
  assumes "conn_phase c = Registered code sid" "rate_limit_check now (conn_limit c) = (Inr (), rl)"
    "length body \<le> MAX_MESSAGE_BYTES" "from_str body = Inr (Signal to payload)"
    "validate_signal_target to = Inr to'" "directory st (conn_ip c, to') = Some p"
    "rx_alive (chans st (sender p))"
  shows "conn_step from_str now (Ready (Some (Inr (Text body)))) c st =
    (c\<lparr>conn_limit := rl\<rparr>,
     st\<lparr>chans := (chans st)(sender p := (chans st (sender p))
          \<lparr>queue := queue (chans st (sender p)) @ [ServerSignal code payload]\<rparr>)\<rparr>)"
  using assms
  by (simp add: conn_step_def message_step_def validate_message_size_def handle_client_message_def
      handle_signal_def find_peer_directory relay_def send_def Let_def)

theorem signal_delivered_witness:
  "queue (chans (snd (conn_step (\<lambda>_. Inr (Signal ''AAA'' (5 :: nat))) 0 (Ready (Some (Inr (Text ''x''))))
      (conn_b (Registered ''BBB'' 2)) state_a)) 0) = [ServerSignal ''BBB'' 5]"
  by (subst signal_delivered [where code = "''BBB''" and sid = 2 and to = "''AAA''" and payload = 5
        and to' = "''AAA''" and p = "peer_a\<lparr>session_id := 1\<rparr>"
        and rl = "\<lparr>remaining = 49, window_start = 0, consecutive_violations = 0\<rparr>"])
    (simp_all add: conn_b_def fresh_limit MAX_MESSAGE_BYTES_def valid_AAA state_a_directory)

text \<open>
  A signal never crosses rooms. If no peer of the connection's room holds the target
  code, the only effect on the server's state is the answer \<open>not found\<close> to the sender,
  whichever rooms elsewhere have that code.
\<close>

lemma signal_other_room_refused:
  assumes "conn_phase c = Registered code sid" "rate_limit_check now (conn_limit c) = (Inr (), rl)"
    "length body \<le> MAX_MESSAGE_BYTES" "from_str body = Inr (Signal to payload)"
    "validate_signal_target to = Inr to'" "directory st (conn_ip c, to') = None"
  shows "conn_step from_str now (Ready (Some (Inr (Text body)))) c st =
    (c\<lparr>conn_limit := rl\<rparr>,
     snd (send (conn_tx c) (ServerError (''peer '' @ quoted to' @ '' not found'')) st))"
  using assms
  by (simp add: conn_step_def message_step_def validate_message_size_def handle_client_message_def
      handle_signal_def find_peer_directory reply_def Let_def)

lemma signal_other_room_refused_witness:
  "rooms (snd (conn_step (\<lambda>_. Inr (Signal ''AAA'' (5 :: nat))) 0 (Ready (Some (Inr (Text ''x''))))
      (conn_b (Registered ''BBB'' 2)\<lparr>conn_ip := ''198.51.100.1''\<rparr>) state_a)) = rooms state_a"
  by (subst signal_other_room_refused [where code = "''BBB''" and sid = 2 and to = "''AAA''"
        and payload = 5 and to' = "''AAA''"
        and rl = "\<lparr>remaining = 49, window_start = 0, consecutive_violations = 0\<rparr>"])
    (simp_all add: conn_b_def fresh_limit MAX_MESSAGE_BYTES_def valid_AAA state_a_directory)

text \<open>
  A connection that has not registered has no effect on others. Unless the turn ends
  with the connection registered, the rooms and every channel but its own stay as they are.
\<close>

lemma unregistered_harmless:
  assumes "rooms_inv st" "conn_phase c = Registering" "conn_step from_str now w c st = (c', st')"
    "\<not> (\<exists>code sid. conn_phase c' = Registered code sid)"
  shows "rooms st' = rooms st \<and> (\<forall>ch. ch \<noteq> conn_tx c \<longrightarrow> chans st' ch = chans st ch)"
proof (cases w)
  case Elapsed
  with assms show ?thesis by (simp add: conn_step_def)
next
  case (Ready nxt)
  with assms have "registration_step from_str now nxt c st = (c', st')" by (simp add: conn_step_def)
  then show ?thesis
  proof (cases rule: registration_step_cases)
    case (message body rl)
    from message(3) assms(1) show ?thesis
    proof (cases rule: register_message_cases)
      case stay
      then show ?thesis by (auto simp: own_channel)
    next
      case (finished code name dt url hash)
      from finished(3) assms(1) show ?thesis
        by (cases rule: finish_registration_cases) (use assms(4) in auto)
    qed
  qed (auto simp: own_channel)
qed

lemma unregistered_harmless_witness:
  "rooms (snd (conn_step (\<lambda>_. Inr (Signal ''AAA'' (5 :: nat))) 0 (Ready (Some (Inr (Text ''x''))))
      (conn_b Registering) state_a)) = rooms state_a"
proof -
  let ?w = "Ready (Some (Inr (Text ''x'')))" and ?f = "\<lambda>_. Inr (Signal ''AAA'' (5 :: nat))"
  obtain c' st' where s: "conn_step ?f 0 ?w (conn_b Registering) state_a = (c', st')" by fastforce
  then have "conn_phase c' = Registering"
    by (auto simp: conn_step_def registration_step_def conn_b_def fresh_limit register_message_def
        validate_message_size_def MAX_MESSAGE_BYTES_def Let_def)
  then show ?thesis
    using unregistered_harmless [OF state_a_inv _ s] s by (simp add: conn_b_def)
qed

text \<open>
  Leaving cleans up. When a registered connection times out, is closed by the client or
  fails, it becomes closed, its receiver is dropped, its entry is taken out of the directory
  if the entry is still its own, and another connection's entry under its code is kept.
\<close>

lemma leaving_cleans_up:
  assumes "rooms_inv st" "conn_phase c = Registered code sid"
    "w \<in> {Elapsed, Ready None, Ready (Some (Inl e)), Ready (Some (Inr CloseFrame))}"
    "conn_step from_str now w c st = (c', st')"
  shows "conn_phase c' = Closed \<and> \<not> rx_alive (chans st' (conn_tx c)) \<and>
    directory st' =
      (case directory st (conn_ip c, code) of
         None \<Rightarrow> directory st
       | Some p \<Rightarrow> if session_id p = sid then (directory st)((conn_ip c, code) := None)
                   else directory st)"
proof -
  let ?t = "remove_peer (conn_ip c) code sid st"
  have "c' = c\<lparr>conn_phase := Closed\<rparr>" "st' = abort_write c ?t"
    using assms(2-4) by (auto simp: conn_step_def message_step_def cleanup_def)
  moreover have "directory (abort_write c ?t) = directory ?t" by (rule directory_cong) simp
  ultimately show ?thesis using rm.dir_remove [OF assms(1)] by simp
qed

lemma leaving_cleans_up_witness:
  "directory (snd (conn_step (\<lambda>_. Inl []) 0 Elapsed
     \<lparr>conn_ip = ''203.0.113.7'', conn_tx = 0, conn_limit = rate_limit_new 0,
       conn_phase = Registered ''AAA'' 1\<rparr> state_a)) = Map.empty"
proof -
  let ?c = "\<lparr>conn_ip = ''203.0.113.7'', conn_tx = 0, conn_limit = rate_limit_new 0,
       conn_phase = Registered ''AAA'' 1\<rparr>"
  obtain c' st' where s: "conn_step (\<lambda>_. Inl []) 0 Elapsed ?c state_a = (c', st')" by fastforce
  from leaving_cleans_up [OF state_a_inv _ _ s, of "''AAA''" 1] s show ?thesis
    by (simp add: state_a_directory)
qed



end
