(* ===== verification/Server_System.thy ===== *)
theory Server_System
  imports Connection_Properties
begin

text \<open>
  All connections of the server at once. The state is the shared room manager with its
  channels and the connection handlers by channel number. A step opens a connection, lets one
  handler take a turn on any event at any time, or lets one write task move a message to its
  socket or fail. Turns are atomic here; the theory on interleavings looks inside the two
  room-manager operations that are not.
\<close>

section \<open>The system\<close>

record 'v sys =
  srv :: "'v rv_state"
  conns :: "nat \<Rightarrow> conn option"

definition sys_new :: "'v sys" where
  "sys_new = \<lparr>srv = room_manager_new, conns = Map.empty\<rparr>"

inductive sys_step ::
    "(string \<Rightarrow> (string, 'v client_message) result) \<Rightarrow> 'v sys \<Rightarrow> 'v sys \<Rightarrow> bool"
  for from_str :: "string \<Rightarrow> (string, 'v client_message) result" where
  sys_open: "conns s tx = None \<Longrightarrow> open_connection ip tx now (srv s) = (c, st) \<Longrightarrow>
     sys_step from_str s (s\<lparr>srv := st, conns := (conns s)(tx \<mapsto> c)\<rparr>)"
| sys_turn: "conns s tx = Some c \<Longrightarrow> conn_step from_str now w c (srv s) = (c', st) \<Longrightarrow>
     sys_step from_str s (s\<lparr>srv := st, conns := (conns s)(tx \<mapsto> c')\<rparr>)"
| sys_write: "sys_step from_str s (s\<lparr>srv := write_task_step tx ok (srv s)\<rparr>)"

section \<open>Invariant\<close>

text \<open>
  Every listed peer is backed: its channel belongs to a connection of that room which is
  registered under exactly that code and session.
\<close>

definition backed :: "'v sys \<Rightarrow> string \<Rightarrow> string \<Rightarrow> peer_info \<Rightarrow> bool" where
  "backed s ip code p \<longleftrightarrow>
     (case conns s (sender p) of
        None \<Rightarrow> False
      | Some c \<Rightarrow> conn_ip c = ip \<and> conn_phase c = Registered code (session_id p))"

definition sys_inv :: "'v sys \<Rightarrow> bool" where
  "sys_inv s \<longleftrightarrow>
     rooms_inv (srv s) \<and>
     (\<forall>tx c. conns s tx = Some c \<longrightarrow>
        conn_tx c = tx \<and> (conn_phase c \<noteq> Closed \<longrightarrow> rate_limit_open (conn_limit c))) \<and>
     (\<forall>ip code p. directory (srv s) (ip, code) = Some p \<longrightarrow>
        valid_code code \<and> length (device_name p) \<le> MAX_DEVICE_NAME_BYTES \<and> backed s ip code p)"

lemma sys_inv_backed: "sys_inv s \<Longrightarrow> directory (srv s) (ip, code) = Some p \<Longrightarrow> backed s ip code p"
  unfolding sys_inv_def by blast

lemma conn_step_limit:
  assumes "conn_step from_str now w c st = (c', st')" "rate_limit_open (conn_limit c)"
    "conn_phase c' \<noteq> Closed"
  shows "rate_limit_open (conn_limit c')"
proof -
  have f: "finish_registration code name dt url hash c st = (c', st') \<Longrightarrow> conn_limit c' = conn_limit c"
    for code name dt url hash c c' st st'
    by (auto simp: finish_registration_def close_unregistered_def Let_def split: sum.splits prod.splits)
  have m: "register_message msg c st = (c', st') \<Longrightarrow> conn_limit c' = conn_limit c" for msg c c' st st'
    by (auto simp: register_message_def dest: f split: sum.splits client_message.splits)
  have open_after: "rate_limit_open rl"
    if "rate_limit_check now (conn_limit c) = (x, rl)" "x \<noteq> Inl True" for x rl
    using check_open [OF that(1) assms(2) that(2)] .
  have r: "rate_limit_open (conn_limit c')" if "registration_step from_str now nxt c st = (c', st')" for nxt
    using that assms(2,3)
    by (auto simp: registration_step_def close_unregistered_def Let_def dest!: m dest: open_after
        split: option.splits sum.splits ws_message.splits prod.splits bool.splits)
  have "rate_limit_open (conn_limit c')" if "message_step from_str now w code sid c st = (c', st')" for code sid
    using that assms(2,3)
    by (auto simp: message_step_def cleanup_def Let_def dest: open_after
        split: wait.splits option.splits sum.splits ws_message.splits prod.splits bool.splits)
  with assms r show ?thesis
    by (auto simp: conn_step_def split: phase.splits wait.splits)
qed

text \<open>One turn of one handler keeps the invariant, case by case.\<close>

lemma backed_other:
  "conns t (sender p) = conns s (sender p) \<Longrightarrow> backed t ip code p = backed s ip code p"
  by (simp add: backed_def)

lemma sys_inv_turn:
  assumes "sys_inv s" "conns s tx = Some c" "conn_step from_str now w c (srv s) = (c', st)"
  shows "sys_inv (s\<lparr>srv := st, conns := (conns s)(tx \<mapsto> c')\<rparr>)" (is "sys_inv ?t")
proof -
  have inv: "rooms_inv (srv s)" and tx: "conn_tx c = tx"
    using assms(1,2) unfolding sys_inv_def by blast+
  note fixed = conn_step_fixed [OF assms(3)]
  have limit: "rate_limit_open (conn_limit c')" if "conn_phase c' \<noteq> Closed"
  proof -
    have "conn_phase c \<noteq> Closed" using that assms(3) by (auto simp: conn_step_def)
    then show ?thesis
      using conn_step_limit [OF assms(3) _ that] assms(1,2) unfolding sys_inv_def by blast
  qed
  have entry: "valid_code code \<and> length (device_name p) \<le> MAX_DEVICE_NAME_BYTES \<and> backed ?t ip code p"
    if "directory (srv s) (ip, code) = Some p"
      "sender p \<noteq> tx \<or> conn_phase c' = conn_phase c" for ip code p
  proof -
    have "backed s ip code p" "valid_code code" "length (device_name p) \<le> MAX_DEVICE_NAME_BYTES"
      using that(1) assms(1) unfolding sys_inv_def by blast+
    then show ?thesis using that(2) fixed assms(2) by (auto simp: backed_def)
  qed
  have mine: "conn_ip c = ip \<and> conn_phase c = Registered code (session_id p)"
    if "directory (srv s) (ip, code) = Some p" "sender p = tx" for ip code p
    using sys_inv_backed [OF assms(1) that(1)] that(2) assms(2) by (simp add: backed_def)
  have "rooms_inv st \<and> (\<forall>ip code p. directory st (ip, code) = Some p \<longrightarrow>
      valid_code code \<and> length (device_name p) \<le> MAX_DEVICE_NAME_BYTES \<and> backed ?t ip code p)"
    using assms(3) inv
  proof (cases rule: conn_step_cases)
    case stay
    with inv entry directory_cong [of st "srv s"] rooms_inv_cong [of st "srv s"] show ?thesis by auto
  next
    case gave_up
    with inv entry mine directory_cong [of st "srv s"] rooms_inv_cong [of st "srv s"] show ?thesis
      by (metis phase.distinct(1))
  next
    case (registered peer existing sid st1)
    have "directory st = (directory (srv s))((conn_ip c, peer_code peer) \<mapsto> peer\<lparr>session_id := sid\<rparr>)"
      using directory_add_peer [OF inv registered(3)] directory_cong [OF registered(4)] by simp
    moreover have "rooms_inv st"
      using rooms_inv_add_peer [OF inv registered(3)] rooms_inv_cong [OF registered(4)] by simp
    moreover have "backed ?t (conn_ip c) (peer_code peer) (peer\<lparr>session_id := sid\<rparr>)"
      using registered(2,5) tx fixed by (simp add: backed_def)
    moreover have "sender p \<noteq> tx" if "directory (srv s) (ip, code) = Some p" for ip code p
      using mine [OF that] registered(1) by auto
    ultimately show ?thesis using registered(6,7) entry by (auto split: if_splits)
  next
    case (left code sid)
    have d: "directory st = directory (remove_peer (conn_ip c) code sid (srv s))"
      using left(3) by simp
    have "rooms_inv st"
      using rooms_inv_remove_peer [OF inv] left(3) by simp
    moreover have "sender p \<noteq> tx \<and> directory (srv s) (ip, k) = Some p"
      if "directory st (ip, k) = Some p" for ip k p
    proof -
      have old: "directory (srv s) (ip, k) = Some p"
        using that by (auto simp: d directory_remove_peer [OF inv] split: if_splits)
      have "sender p \<noteq> tx"
      proof
        assume "sender p = tx"
        from mine [OF old this] left(1) have "ip = conn_ip c" "k = code" "session_id p = sid" by auto
        with old that show False
          by (simp add: d directory_remove_peer [OF inv] holds_session_def)
      qed
      with old show ?thesis by simp
    qed
    ultimately show ?thesis using entry by blast
  qed
  moreover have "conn_tx c'' = tx' \<and> (conn_phase c'' \<noteq> Closed \<longrightarrow> rate_limit_open (conn_limit c''))"
    if "conns ?t tx' = Some c''" for tx' c''
    using that assms(1) fixed tx limit unfolding sys_inv_def by (auto split: if_splits)
  ultimately show ?thesis unfolding sys_inv_def by simp
qed

lemma sys_inv_open:
  assumes "sys_inv s" "conns s tx = None" "open_connection ip tx now (srv s) = (c, st)"
  shows "sys_inv (s\<lparr>srv := st, conns := (conns s)(tx \<mapsto> c)\<rparr>)" (is "sys_inv ?t")
proof -
  have rooms: "rooms st = rooms (srv s)" using assms(3) by (auto simp: open_connection_def)
  have "backed ?t i code p" if "directory (srv s) (i, code) = Some p" for i code p
    using sys_inv_backed [OF assms(1) that] assms(2) by (auto simp: backed_def split: option.splits)
  then have "\<forall>i code p. directory st (i, code) = Some p \<longrightarrow>
      valid_code code \<and> length (device_name p) \<le> MAX_DEVICE_NAME_BYTES \<and> backed ?t i code p"
    using assms(1) unfolding directory_cong [OF rooms] sys_inv_def by blast
  moreover have "conn_tx c' = tx' \<and> (conn_phase c' \<noteq> Closed \<longrightarrow> rate_limit_open (conn_limit c'))"
    if "conns ?t tx' = Some c'" for tx' c'
    using that assms(1,3) new_open [of now] unfolding sys_inv_def
    by (auto simp: open_connection_def split: if_splits)
  ultimately show ?thesis
    using assms(1) rooms_inv_cong [OF rooms] unfolding sys_inv_def by simp
qed

lemma write_task_frame [simp]:
  "rooms (write_task_step tx ok st) = rooms st"
  "next_session (write_task_step tx ok st) = next_session st"
  by (simp_all add: write_task_step_def Let_def split: list.splits)

lemma sys_inv_write: "sys_inv s \<Longrightarrow> sys_inv (s\<lparr>srv := write_task_step tx ok (srv s)\<rparr>)"
  using directory_cong [of "write_task_step tx ok (srv s)" "srv s"]
    rooms_inv_cong [of "write_task_step tx ok (srv s)" "srv s"]
  by (simp add: sys_inv_def backed_def)

lemma sys_inv_new: "sys_inv sys_new"
  by (simp add: sys_inv_def sys_new_def rooms_inv_new)

interpretation ssys: invariant_system "\<lambda>s. s = sys_new" "sys_step from_str" sys_inv
  by unfold_locales
    (auto elim!: sys_step.cases simp: sys_inv_new intro: sys_inv_open sys_inv_turn sys_inv_write)

text \<open>Channels identify peers: no two peers of a room share one.\<close>

lemma sys_inv_senders:
  assumes "sys_inv s"
  shows "distinct (map sender (room_at ip (srv s)))"
proof -
  have inv: "rooms_inv (srv s)" using assms by (simp add: sys_inv_def)
  have "p = q" if "p \<in> set (room_at ip (srv s))" "q \<in> set (room_at ip (srv s))" "sender p = sender q" for p q
  proof -
    from that have d: "directory (srv s) (ip, peer_code p) = Some p"
      "directory (srv s) (ip, peer_code q) = Some q"
      using directory_iff [OF inv] by auto
    from sys_inv_backed [OF assms d(1)] sys_inv_backed [OF assms d(2)] that(3)
    have "peer_code p = peer_code q" by (auto simp: backed_def split: option.splits)
    with d show ?thesis by (metis option.inject)
  qed
  moreover have "distinct (room_at ip (srv s))"
    using rooms_inv_room_ok [OF inv, of ip] by (simp add: room_ok_def distinct_map)
  ultimately show ?thesis by (simp add: distinct_map inj_on_def)
qed

text \<open>The listed peers have different connections.\<close>

lemma backedD:
  "backed s ip code p \<Longrightarrow>
     \<exists>c. conns s (sender p) = Some c \<and> conn_ip c = ip \<and> conn_phase c = Registered code (session_id p)"
  by (cases "conns s (sender p)") (simp_all add: backed_def)

lemma sys_inv_sender_inj:
  assumes "sys_inv s"
  shows "inj_on (\<lambda>k. sender (the (directory (srv s) k))) (dom (directory (srv s)))"
proof (rule inj_onI)
  fix k k' assume "k \<in> dom (directory (srv s))" "k' \<in> dom (directory (srv s))"
    and same: "sender (the (directory (srv s) k)) = sender (the (directory (srv s) k'))"
  then obtain ip code p ip' code' p' where k: "k = (ip, code)" "directory (srv s) (ip, code) = Some p"
    and k': "k' = (ip', code')" "directory (srv s) (ip', code') = Some p'"
    by (cases k; cases k') auto
  have "sender p = sender p'" using same k k' by simp
  with backedD [OF sys_inv_backed [OF assms k(2)]] backedD [OF sys_inv_backed [OF assms k'(2)]]
  have "ip = ip'" "code = code'" by auto
  then show "k = k'" using k(1) k'(1) by simp
qed

section \<open>Concrete runs\<close>

text \<open>The system after one client has connected and registered the code \<open>AAA\<close>.\<close>

definition register_a :: "string \<Rightarrow> (string, nat client_message) result" where
  "register_a s =
     (if s = ''register'' then Inr (Register ''AAA'' ''First'' Desktop None None)
      else if s = ''signal'' then Inr (Signal ''BBB'' 7)
      else if s = ''join'' then Inr (Register ''BBB'' ''Second'' Phone None None)
      else Inl ''expected value'')"

definition sys_events :: "(nat \<times> string) list \<Rightarrow> nat sys \<Rightarrow> nat sys" where
  "sys_events evs s =
     fold (\<lambda>(tx, body) s.
       case conns s tx of
         None \<Rightarrow> s
       | Some c \<Rightarrow>
           (case conn_step register_a 0 (Ready (Some (Inr (Text body)))) c (srv s) of
              (c', st) \<Rightarrow> s\<lparr>srv := st, conns := (conns s)(tx \<mapsto> c')\<rparr>)) evs s"

definition sys_connect :: "nat \<Rightarrow> nat sys \<Rightarrow> nat sys" where
  "sys_connect tx s =
     (case open_connection ''203.0.113.7'' tx 0 (srv s) of
        (c, st) \<Rightarrow> s\<lparr>srv := st, conns := (conns s)(tx \<mapsto> c)\<rparr>)"

lemma reach_connect:
  "reachable (\<lambda>s. s = sys_new) (sys_step register_a) s \<Longrightarrow> conns s tx = None \<Longrightarrow>
   reachable (\<lambda>s. s = sys_new) (sys_step register_a) (sys_connect tx s)"
  by (auto simp: sys_connect_def split: prod.splits intro: reach_step sys_open)

lemma reach_events:
  "reachable (\<lambda>s. s = sys_new) (sys_step register_a) s \<Longrightarrow>
   reachable (\<lambda>s. s = sys_new) (sys_step register_a) (sys_events evs s)"
proof (induction evs arbitrary: s)
  case Nil
  then show ?case by (simp add: sys_events_def)
next
  case (Cons e evs)
  obtain tx body where e: "e = (tx, body)" by fastforce
  let ?s = "sys_events [e] s"
  have "reachable (\<lambda>s. s = sys_new) (sys_step register_a) ?s"
    using Cons.prems
    by (auto simp: sys_events_def e split: option.splits prod.splits intro: reach_step sys_turn)
  from Cons.IH [OF this] show ?case by (simp add: sys_events_def)
qed

definition sys_a :: "nat sys" where
  "sys_a = sys_events [(0, ''register'')] (sys_connect 0 sys_new)"

lemma sys_a_reachable: "reachable (\<lambda>s. s = sys_new) (sys_step register_a) sys_a"
  unfolding sys_a_def
  by (intro reach_events reach_connect) (auto intro: reach_init simp: sys_new_def)

lemma valid_codes:
  "validate_peer_code ''AAA'' = Inr ''AAA''" "validate_peer_code ''BBB'' = Inr ''BBB''"
  "validate_signal_target ''BBB'' = Inr ''BBB''"
proof -
  have "valid_code ''AAA''" "valid_code ''BBB''" by code_simp+
  then show "validate_peer_code ''AAA'' = Inr ''AAA''" "validate_peer_code ''BBB'' = Inr ''BBB''"
    "validate_signal_target ''BBB'' = Inr ''BBB''"
    by (auto intro: reg.norm_valid tgt.norm_valid)
qed

lemma second_check:
  "rate_limit_check 0 \<lparr>remaining = 49, window_start = 0, consecutive_violations = 0\<rparr> =
     (Inr (), \<lparr>remaining = 48, window_start = 0, consecutive_violations = 0\<rparr>)"
  by (simp add: rate_limit_check_def rate_limit_consts one_second_def Let_def)

lemmas run_eval =
  sys_events_def sys_connect_def sys_new_def open_connection_def fresh_limit second_check
  register_a_def valid_codes conn_step_def registration_step_def validate_message_size_def
  register_message_def validate_device_name_def finish_registration_def Let_def reply_def
  MAX_MESSAGE_BYTES_def MAX_DEVICE_NAME_BYTES_def add_peer_def add_peer_refused_def
  add_peer_entry_def room_at_def room_manager_new_def MAX_ROOMS_def MAX_PEERS_PER_ROOM_def
  send_def remove_at_def to_peer_data_def message_step_def handle_client_message_def
  handle_signal_def find_peer_def relay_def

lemma sys_a_eq:
  "sys_a =
     \<lparr>srv = \<lparr>rooms = [(''203.0.113.7'', [\<lparr>peer_code = ''AAA'', device_name = ''First'',
               device_type = Desktop, sender = 0, session_id = 1, wt_url = None, wt_cert_hash = None\<rparr>])],
             next_session = 2,
             chans = (\<lambda>_. \<lparr>rx_alive = False, queue = [], wire = []\<rparr>)
                       (0 := \<lparr>rx_alive = True, queue = [Peers []], wire = []\<rparr>)\<rparr>,
      conns = [0 \<mapsto> \<lparr>conn_ip = ''203.0.113.7'', conn_tx = 0,
                      conn_limit = \<lparr>remaining = 49, window_start = 0, consecutive_violations = 0\<rparr>,
                      conn_phase = Registered ''AAA'' 1\<rparr>]\<rparr>"
  unfolding sys_a_def by (simp add: run_eval)

text \<open>
  A second client registers \<open>BBB\<close> in the room, then a third registers \<open>AAA\<close> there: the
  first connection is replaced.
\<close>

definition sys_replaced :: "nat sys" where
  "sys_replaced = sys_events [(1, ''register'')] (sys_connect 1
     (sys_events [(2, ''join'')] (sys_connect 2 sys_a)))"

lemma sys_replaced_reachable: "reachable (\<lambda>s. s = sys_new) (sys_step register_a) sys_replaced"
proof -
  have free: "conns (sys_events [(2, body)] (sys_connect 2 sys_a)) 1 = None" "conns sys_a 2 = None" for body
    by (simp_all add: sys_a_eq sys_events_def sys_connect_def split: prod.splits)
  show ?thesis
    unfolding sys_replaced_def
    by (intro reach_events reach_connect sys_a_reachable free)
qed

section \<open>Properties\<close>

text \<open>
  The directory and the connections agree, at every moment of every run of the server
  and for any behaviour of the clients: the room table keeps its limits, every listed code is
  a valid one, and behind every listed peer stands the connection that owns its channel,
  still registered in that room under that code with that session.
\<close>

lemma listed_peers_backed:
  assumes "reachable (\<lambda>s. s = sys_new) (sys_step from_str) s"
  shows "rooms_inv (srv s) \<and>
    (\<forall>ip code p. directory (srv s) (ip, code) = Some p \<longrightarrow>
       valid_code code \<and> length (device_name p) \<le> 256 \<and>
       (\<exists>c. conns s (sender p) = Some c \<and> conn_ip c = ip \<and> conn_tx c = sender p \<and>
            conn_phase c = Registered code (session_id p)))"
proof -
  have inv: "sys_inv s" using ssys.inv_reachable [OF assms] .
  have "\<exists>c. conns s (sender p) = Some c \<and> conn_ip c = ip \<and> conn_tx c = sender p \<and>
      conn_phase c = Registered code (session_id p)"
    if "directory (srv s) (ip, code) = Some p" for ip code p
    using sys_inv_backed [OF inv that] inv unfolding sys_inv_def
    by (auto simp: backed_def split: option.splits)
  with inv show ?thesis unfolding sys_inv_def MAX_DEVICE_NAME_BYTES_def by blast
qed

lemma listed_peers_backed_witness:
  "\<exists>c. conns sys_a 0 = Some c \<and> conn_phase c = Registered ''AAA'' 1"
proof -
  have "directory (srv sys_a) (''203.0.113.7'', ''AAA'') =
      Some \<lparr>peer_code = ''AAA'', device_name = ''First'', device_type = Desktop, sender = 0,
            session_id = 1, wt_url = None, wt_cert_hash = None\<rparr>"
    by (simp add: sys_a_eq directory_def room_at_def)
  with listed_peers_backed [OF sys_a_reachable] show ?thesis by fastforce
qed

text \<open>
  Nothing leaks. When every connection has been closed, however each of them ended, the
  room table is empty.
\<close>

lemma no_peer_outlives_connections:
  assumes "reachable (\<lambda>s. s = sys_new) (sys_step from_str) s"
    "\<And>tx c. conns s tx = Some c \<Longrightarrow> conn_phase c = Closed"
  shows "rooms (srv s) = [] \<and> peer_count (srv s) = 0 \<and> room_count (srv s) = 0"
proof -
  have inv: "sys_inv s" using ssys.inv_reachable [OF assms(1)] .
  have "directory (srv s) (ip, code) = None" for ip code
  proof (rule ccontr)
    assume "directory (srv s) (ip, code) \<noteq> None"
    then obtain p where "directory (srv s) (ip, code) = Some p" by blast
    from sys_inv_backed [OF inv this] obtain c where
      "conns s (sender p) = Some c" "conn_phase c = Registered code (session_id p)"
      by (auto simp: backed_def split: option.splits)
    with assms(2) show False by fastforce
  qed
  then have "dom (directory (srv s)) = {}" by (auto simp: dom_def)
  moreover have "rooms_inv (srv s)" using inv by (simp add: sys_inv_def)
  ultimately have "peer_count (srv s) = 0 \<and> room_count (srv s) = 0"
    by (simp add: peer_count_card room_count_card)
  then show ?thesis by (simp add: room_count_def)
qed

lemma no_peer_outlives_connections_witness:
  "rooms (srv (case conn_step register_a 0 (Ready None)
        \<lparr>conn_ip = ''203.0.113.7'', conn_tx = 0,
         conn_limit = \<lparr>remaining = 49, window_start = 0, consecutive_violations = 0\<rparr>,
         conn_phase = Registered ''AAA'' 1\<rparr> (srv sys_a) of
      (c, st) \<Rightarrow> sys_a\<lparr>srv := st, conns := (conns sys_a)(0 \<mapsto> c)\<rparr>)) = []"
proof -
  let ?c = "\<lparr>conn_ip = ''203.0.113.7'', conn_tx = 0,
         conn_limit = \<lparr>remaining = 49, window_start = 0, consecutive_violations = 0\<rparr>,
         conn_phase = Registered ''AAA'' 1\<rparr>"
  obtain c st where step: "conn_step register_a 0 (Ready None) ?c (srv sys_a) = (c, st)" by fastforce
  then have closed: "conn_phase c = Closed" by (auto simp: conn_step_def message_step_def cleanup_def)
  let ?s = "sys_a\<lparr>srv := st, conns := (conns sys_a)(0 \<mapsto> c)\<rparr>"
  have "sys_step register_a sys_a ?s"
    by (rule sys_turn [OF _ step]) (simp add: sys_a_eq)
  then have "reachable (\<lambda>s. s = sys_new) (sys_step register_a) ?s"
    using reach_step [OF sys_a_reachable] by blast
  moreover have "conn_phase c' = Closed" if "conns ?s tx = Some c'" for tx c'
    using that closed by (auto simp: sys_a_eq split: if_splits)
  ultimately show ?thesis using no_peer_outlives_connections [of register_a ?s] step by simp
qed

text \<open>
  Replacing a connection does not close it. In a reachable state the code \<open>AAA\<close> of a
  room belongs to session 3, yet the connection of session 1, which it replaced, is still
  registered; a signal it sends is relayed to \<open>BBB\<close> in the name of \<open>AAA\<close>.
\<close>

lemma replaced_connection_still_relays:
  "reachable (\<lambda>s. s = sys_new) (sys_step register_a) sys_replaced \<and>
   map_option session_id (directory (srv sys_replaced) (''203.0.113.7'', ''AAA'')) = Some 3 \<and>
   map_option conn_phase (conns sys_replaced 0) = Some (Registered ''AAA'' 1) \<and>
   queue (chans (srv (sys_events [(0, ''signal'')] sys_replaced)) 2) =
     queue (chans (srv sys_replaced) 2) @ [ServerSignal ''AAA'' 7]"
proof (intro conjI)
  show "map_option session_id (directory (srv sys_replaced) (''203.0.113.7'', ''AAA'')) = Some 3"
    unfolding sys_replaced_def sys_a_eq by (simp add: run_eval directory_def)
  show "map_option conn_phase (conns sys_replaced 0) = Some (Registered ''AAA'' 1)"
    unfolding sys_replaced_def sys_a_eq by (simp add: run_eval)
  show "queue (chans (srv (sys_events [(0, ''signal'')] sys_replaced)) 2) =
     queue (chans (srv sys_replaced) 2) @ [ServerSignal ''AAA'' 7]"
    unfolding sys_replaced_def sys_a_eq by (simp add: run_eval)
qed (rule sys_replaced_reachable)

end
