(* ===== verification/Delivery.thy ===== *)
theory Delivery
  imports Server_System
begin

text \<open>
  The channel of a connection and its write task, over whole runs of the server: what is put
  into the queue of a channel reaches its socket in that order, once.
\<close>

definition grows :: "'v rv_state \<Rightarrow> 'v rv_state \<Rightarrow> bool" where
  "grows st st' \<longleftrightarrow>
     (\<forall>ch. wire (chans st' ch) = wire (chans st ch) \<and>
        (rx_alive (chans st' ch) \<longrightarrow> rx_alive (chans st ch)) \<and>
        prefix (queue (chans st ch)) (queue (chans st' ch)))"

named_theorems grows_intros \<open>steps that only append to queues\<close>

lemma grows_refl [grows_intros]: "grows st st"
  by (simp add: grows_def)

lemma grows_trans: "grows a b \<Longrightarrow> grows b c \<Longrightarrow> grows a c"
  unfolding grows_def by (metis prefix_order.trans)

lemma grows_send [grows_intros]: "grows st st1 \<Longrightarrow> grows st (snd (send tx m st1))"
  by (erule grows_trans) (simp add: grows_def send_def Let_def)

lemma grows_rooms [grows_intros]:
  "grows st st1 \<Longrightarrow> grows st (st1\<lparr>rooms := r\<rparr>)" "grows st st1 \<Longrightarrow> grows st (st1\<lparr>next_session := n\<rparr>)"
  by (simp_all add: grows_def)

lemma grows_reply [grows_intros]: "grows st st1 \<Longrightarrow> grows st (reply c m st1)"
  by (simp add: reply_def grows_send)

lemma grows_abort [grows_intros]: "grows st st1 \<Longrightarrow> grows st (abort_write c st1)"
  by (erule grows_trans) (simp add: grows_def abort_write_def)

lemma grows_broadcast [grows_intros]: "grows st st1 \<Longrightarrow> grows st (broadcast m ps st1)"
  by (induction ps arbitrary: st1) (auto intro: grows_send)

lemma grows_add_peer [grows_intros]: "grows st st1 \<Longrightarrow> grows st (snd (add_peer ip peer st1))"
  by (auto simp: add_peer_def add_peer_entry_def Let_def split: sum.splits prod.splits intro!: grows_intros)

lemma grows_remove_peer [grows_intros]: "grows st st1 \<Longrightarrow> grows st (remove_peer ip code sid st1)"
  by (auto simp: remove_peer_def remove_peer_locked_def remove_room_def Let_def
      split: option.splits prod.splits if_splits intro!: grows_intros)

lemma grows_relay [grows_intros]: "grows st st1 \<Longrightarrow> grows st (relay from to payload target c st1)"
  using grows_send [of st st1 target "ServerSignal from payload"]
  by (auto simp: relay_def split: prod.splits bool.splits intro!: grows_intros)

lemma grows_handle [grows_intros]: "grows st st1 \<Longrightarrow> grows st (handle_client_message code msg c st1)"
  by (auto simp: handle_client_message_def handle_signal_def handle_manual_signal_def
      split: sum.splits client_message.splits option.splits manual_peer_lookup.splits intro!: grows_intros)

lemma grows_finish [grows_intros]:
  "grows st st1 \<Longrightarrow> grows st (snd (finish_registration code name dt url hash c st1))"
  using grows_add_peer [of st st1 "conn_ip c"]
  by (auto simp: finish_registration_def close_unregistered_def Let_def split: sum.splits prod.splits
      intro!: grows_intros) (metis snd_conv)+

lemma grows_conn_step: "grows st (snd (conn_step from_str now w c st))"
  by (auto simp: conn_step_def registration_step_def message_step_def register_message_def cleanup_def
      close_unregistered_def Let_def
      split: phase.splits wait.splits option.splits sum.splits ws_message.splits prod.splits
        bool.splits client_message.splits intro!: grows_intros)

section \<open>Order\<close>

text \<open>Everything ever handed to the channel of a connection, in order.\<close>

definition handed :: "'v rv_state \<Rightarrow> nat \<Rightarrow> 'v server_message list" where
  "handed st ch = wire (chans st ch) @ queue (chans st ch)"

definition in_order :: "nat \<Rightarrow> 'v rv_state \<Rightarrow> 'v rv_state \<Rightarrow> bool" where
  "in_order tx st st' \<longleftrightarrow>
     prefix (wire (chans st tx)) (wire (chans st' tx)) \<and>
     (rx_alive (chans st' tx) \<longrightarrow> rx_alive (chans st tx) \<and> prefix (handed st tx) (handed st' tx))"

lemma in_order_refl: "in_order tx st st"
  by (simp add: in_order_def)

lemma in_order_trans: "in_order tx a b \<Longrightarrow> in_order tx b c \<Longrightarrow> in_order tx a c"
  unfolding in_order_def by (meson prefix_order.trans)

lemma in_order_grows: "grows st st' \<Longrightarrow> in_order tx st st'"
  by (auto simp: in_order_def grows_def handed_def)

lemma in_order_write: "in_order tx st (write_task_step tx' ok st)"
  by (auto simp: in_order_def handed_def write_task_step_def Let_def split: list.splits)

lemma in_order_open: "open_connection ip tx' now st = (c, st') \<Longrightarrow> tx' \<noteq> tx \<Longrightarrow> in_order tx st st'"
  by (auto simp: in_order_def handed_def open_connection_def)

text \<open>A write task that is given its turns empties the queue onto the wire.\<close>

lemma write_queue:
  assumes "rx_alive (chans st tx)"
  shows "\<exists>n. wire (chans ((write_task_step tx True ^^ n) st) tx) = handed st tx \<and>
    rooms ((write_task_step tx True ^^ n) st) = rooms st"
  using assms
proof (induction "queue (chans st tx)" arbitrary: st)
  case Nil
  then show ?case by (intro exI [of _ 0]) (simp add: handed_def)
next
  case (Cons m ms)
  let ?st = "write_task_step tx True st"
  have ch: "chans ?st tx = (chans st tx)\<lparr>queue := ms, wire := wire (chans st tx) @ [m]\<rparr>"
    and same: "rooms ?st = rooms st"
    using Cons(2) [symmetric] Cons(3) by (simp_all add: write_task_step_def Let_def)
  obtain n where n: "wire (chans ((write_task_step tx True ^^ n) ?st) tx) = handed ?st tx"
    "rooms ((write_task_step tx True ^^ n) ?st) = rooms ?st"
    using Cons(1) [of ?st] Cons(3) ch by auto
  have "handed ?st tx = handed st tx"
    using Cons(2) [symmetric] unfolding handed_def ch by simp
  with n same show ?case by (intro exI [of _ "Suc n"]) (simp add: funpow_swap1 del: funpow.simps(2) add: funpow_Suc_right)
qed

section \<open>Runs of turns\<close>

definition ordered :: "nat \<Rightarrow> 'v sys \<Rightarrow> 'v sys \<Rightarrow> bool" where
  "ordered tx s t \<longleftrightarrow> in_order tx (srv s) (srv t) \<and> (conns s tx \<noteq> None \<longrightarrow> conns t tx \<noteq> None)"

lemma ordered_step:
  assumes "sys_step from_str s t" "conns s tx \<noteq> None"
  shows "ordered tx s t"
  using assms(1)
proof (cases rule: sys_step.cases)
  case (sys_open tx' ip now c st)
  then have "tx' \<noteq> tx" using assms(2) by auto
  with sys_open in_order_open [of ip tx' now "srv s" c st tx] show ?thesis by (simp add: ordered_def)
next
  case (sys_turn tx' c now w c' st)
  with grows_conn_step [of "srv s" from_str now w c] show ?thesis by (simp add: ordered_def in_order_grows)
next
  case (sys_write tx' ok)
  with in_order_write show ?thesis by (simp add: ordered_def)
qed

lemma ordered_run:
  assumes "(sys_step from_str)\<^sup>*\<^sup>* s t" "conns s tx \<noteq> None"
  shows "ordered tx s t"
  using assms(1)
proof (induction rule: rtranclp_induct)
  case base
  show ?case by (simp add: ordered_def in_order_refl)
next
  case (step t u)
  then have "conns t tx \<noteq> None" using assms(2) by (simp add: ordered_def)
  from step(3) ordered_step [OF step(2) this] show ?case
    unfolding ordered_def using in_order_trans by blast
qed

lemma sys_writes: "(sys_step from_str)\<^sup>*\<^sup>* s (s\<lparr>srv := (write_task_step tx True ^^ n) (srv s)\<rparr>)"
proof (induction n)
  case (Suc n)
  with sys_write [of from_str "s\<lparr>srv := (write_task_step tx True ^^ n) (srv s)\<rparr>" tx True]
  show ?case by (simp add: rtranclp.rtrancl_into_rtrancl)
qed simp

lemma write_all:
  assumes "rx_alive (chans (srv s) tx)"
  shows "\<exists>t. (sys_step from_str)\<^sup>*\<^sup>* s t \<and> rooms (srv t) = rooms (srv s) \<and>
    wire (chans (srv t) tx) = handed (srv s) tx"
proof -
  obtain n where "wire (chans ((write_task_step tx True ^^ n) (srv s)) tx) = handed (srv s) tx"
    "rooms ((write_task_step tx True ^^ n) (srv s)) = rooms (srv s)"
    using write_queue [OF assms] by blast
  with sys_writes [of from_str s n tx] show ?thesis by (intro exI) auto
qed

text \<open>
  Messages arrive in order, once. From any state in which a connection exists, through any
  run of the server, its socket only ever gets more; as long as the receiver of its channel
  lives, everything handed to the channel before stays in front of everything handed to it
  later, on the wire or in the queue, none lost and none twice; and the write task can put all
  of it on the wire.
\<close>

lemma messages_in_order:
  assumes "(sys_step from_str)\<^sup>*\<^sup>* s t" "conns s tx = Some c"
  shows "prefix (wire (chans (srv s) tx)) (wire (chans (srv t) tx)) \<and>
    (rx_alive (chans (srv t) tx) \<longrightarrow>
       prefix (handed (srv s) tx) (handed (srv t) tx) \<and>
       (\<exists>u. (sys_step from_str)\<^sup>*\<^sup>* t u \<and> wire (chans (srv u) tx) = handed (srv t) tx))"
  using ordered_run [OF assms(1), of tx] write_all [of t tx from_str] assms(2)
  by (auto simp: ordered_def in_order_def)

lemma messages_in_order_witness:
  "\<exists>u. (sys_step register_a)\<^sup>*\<^sup>* sys_a u \<and> wire (chans (srv u) 0) = [Peers []]"
proof -
  have "conns sys_a 0 \<noteq> None" "rx_alive (chans (srv sys_a) 0)" "handed (srv sys_a) 0 = [Peers []]"
    by (simp_all add: sys_a_eq handed_def)
  then show ?thesis using messages_in_order [OF rtranclp.rtrancl_refl, of sys_a 0 _ register_a] by auto
qed

end
