(* ===== verification/Replica.thy ===== *)
theory Replica
  imports Delivery
begin

text \<open>
  What a client can know of its room. A client that follows the messages it is sent - the list
  of peers, joins and departures - keeps a copy of its room; here that copy is compared with
  the room manager's table, for every client of a running server at once.
\<close>

section \<open>The client's copy\<close>

text \<open>
  How the messages of \<open>ServerMessage\<close> change a client's knowledge of the other peers, by code:
  \<open>Peers\<close> is the full list, \<open>PeerJoined\<close> and \<open>PeerLeft\<close> are changes of one code, signals and
  errors say nothing about the room.
\<close>

fun see :: "'v server_message \<Rightarrow> (string \<rightharpoonup> peer_data) \<Rightarrow> string \<rightharpoonup> peer_data" where
  "see (Peers ps) known = map_of (map (\<lambda>d. (pd_peer_code d, d)) ps)"
| "see (PeerJoined d) known = known(pd_peer_code d \<mapsto> d)"
| "see (PeerLeft code) known = known(code := None)"
| "see (ServerSignal from payload) known = known"
| "see (ServerError e) known = known"

definition replica :: "'v server_message list \<Rightarrow> string \<rightharpoonup> peer_data" where
  "replica ms = fold see ms Map.empty"

text \<open>What there is to know: the public data of every other peer of the room.\<close>

definition room_view :: "string \<Rightarrow> string \<Rightarrow> 'v rv_state \<Rightarrow> string \<rightharpoonup> peer_data" where
  "room_view ip code st =
     (\<lambda>k. if k = code then None else map_option to_peer_data (directory st (ip, k)))"

definition told :: "'v sys \<Rightarrow> bool" where
  "told s \<longleftrightarrow>
     (\<forall>ip code p. directory (srv s) (ip, code) = Some p \<longrightarrow> rx_alive (chans (srv s) (sender p)) \<longrightarrow>
        replica (handed (srv s) (sender p)) = room_view ip code (srv s))"

section \<open>Messages that say nothing\<close>

fun about_room :: "'v server_message \<Rightarrow> bool" where
  "about_room (ServerSignal _ _) = False"
| "about_room (ServerError _) = False"
| "about_room _ = True"

lemma see_other: "\<not> about_room m \<Longrightarrow> see m known = known"
  by (cases m) simp_all

lemma replica_append: "replica (ms @ ns) = fold see ns (replica ms)"
  by (simp add: replica_def)

lemma replica_others: "(\<And>m. m \<in> set ns \<Longrightarrow> \<not> about_room m) \<Longrightarrow> replica (ms @ ns) = replica ms"
  unfolding replica_append by (induction ns) (simp_all add: see_other)

lemma emits_quiet:
  assumes "emits (\<lambda>_ m. \<not> about_room m) st st'" "wire (chans st' ch) = wire (chans st ch)"
  shows "replica (handed st' ch) = replica (handed st ch)"
proof -
  obtain ms where "queue (chans st' ch) = queue (chans st ch) @ ms" "\<forall>m\<in>set ms. \<not> about_room m"
    using assms(1) unfolding emits_def by blast
  then show ?thesis
    using assms(2) replica_others [of ms "handed st ch"] by (simp add: handed_def)
qed

lemma quiet_reply: "emits (\<lambda>_ m. \<not> about_room m) st (reply c (ServerError e) st)"
  by (simp add: emits_reply)

lemma quiet_relay: "emits (\<lambda>_ m. \<not> about_room m) st (relay from to payload target c st)"
proof -
  have "emits (\<lambda>_ m. \<not> about_room m) st (snd (send target (ServerSignal from payload) st))"
    by (simp add: emits_send)
  then show ?thesis
    by (auto simp: relay_def intro: emits_reply_after split: prod.splits bool.splits)
qed

lemma quiet_handle: "emits (\<lambda>_ m. \<not> about_room m) st (handle_client_message code msg c st)"
  by (auto simp: handle_client_message_def handle_signal_def handle_manual_signal_def
      intro: quiet_reply quiet_relay
      split: sum.splits client_message.splits option.splits manual_peer_lookup.splits)

lemma finish_tells:
  assumes "finish_registration code name dt url hash c st = (c', st')" "rooms_inv st"
  obtains (quiet) "emits (\<lambda>_ m. \<not> about_room m) st st'" "rooms st' = rooms st"
  | (joins) peer existing sid st1 where "add_peer (conn_ip c) peer st = (Inr (existing, sid), st1)"
      "sender peer = conn_tx c" "st' = reply c (Peers existing) st1"
proof (cases "validate_peer_code code")
  case (Inl e)
  show ?thesis
    by (rule quiet) (use assms(1) Inl in \<open>auto simp: finish_registration_def close_unregistered_def quiet_reply\<close>)
next
  case (Inr code')
  let ?peer = "\<lparr>peer_code = code', device_name = name, device_type = dt,
                 sender = conn_tx c, session_id = 0, wt_url = url, wt_cert_hash = hash\<rparr>"
  obtain r st1 where a: "add_peer (conn_ip c) ?peer st = (r, st1)" by fastforce
  show ?thesis
  proof (cases r)
    case (Inl e)
    with assms(2) a have same: "chans st1 = chans st" "rooms st1 = rooms st"
      by (cases rule: add_peer_cases; auto)+
    then have "emits (\<lambda>_ m. \<not> about_room m) st (reply c (ServerError e) st1)"
      by (intro emits_reply_after) (simp_all add: emits_def)
    with quiet same show ?thesis
      using a Inl assms(1) Inr by (auto simp: finish_registration_def close_unregistered_def)
  next
    case (Inr x)
    then obtain existing sid where "r = Inr (existing, sid)" by (cases x) auto
    with \<open>validate_peer_code code = Inr code'\<close> a assms(1) joins [of ?peer existing sid st1]
    show ?thesis by (auto simp: finish_registration_def)
  qed
qed

text \<open>A turn says nothing about the room, or registers its connection, or takes it out.\<close>

lemma turn_tells:
  assumes "conn_step from_str now w c st = (c', st')" "rooms_inv st"
  obtains (quiet) "emits (\<lambda>_ m. \<not> about_room m) st st'" "rooms st' = rooms st"
  | (joins) peer existing sid st1 where "add_peer (conn_ip c) peer st = (Inr (existing, sid), st1)"
      "sender peer = conn_tx c" "st' = reply c (Peers existing) st1" "conn_phase c = Registering"
  | (leaves) code sid where "conn_phase c = Registered code sid"
      "st' = abort_write c (remove_peer (conn_ip c) code sid st)"
proof (cases "conn_phase c")
  case Registering
  show ?thesis
  proof (cases w)
    case Elapsed
    with Registering assms(1) quiet show ?thesis by (simp add: conn_step_def)
  next
    case (Ready nxt)
    with Registering assms(1) have "registration_step from_str now nxt c st = (c', st')"
      by (simp add: conn_step_def)
    then show ?thesis
    proof (cases rule: registration_step_cases)
      case (message body rl)
      from message(3) assms(2) show ?thesis
      proof (cases rule: register_message_cases)
        case stay
        then show ?thesis using quiet quiet_reply by metis
      next
        case (finished code name dt url hash)
        let ?c = "c\<lparr>conn_limit := rl\<rparr>"
        have r: "reply ?c m st1 = reply c m st1" for m :: "'a server_message" and st1
          by (simp add: reply_def)
        from finished(3) assms(2) show ?thesis
        proof (cases rule: finish_tells)
          case (joins peer existing sid st1)
          then show ?thesis using that(2) [of peer existing sid st1] Registering r by simp
        qed (rule quiet)
      qed
    qed (use quiet quiet_reply in \<open>auto\<close>)
  qed
next
  case (Registered code sid)
  with assms(1) have "message_step from_str now w code sid c st = (c', st')"
    by (simp add: conn_step_def)
  then show ?thesis
  proof (cases rule: message_step_cases)
    case stay
    show ?thesis by (rule quiet) (use stay quiet_reply in auto)
  next
    case left
    with leaves Registered show ?thesis by simp
  next
    case (message body rl)
    have "emits (\<lambda>_ m. \<not> about_room m) st st'" "rooms st' = rooms st"
      using message(4) quiet_handle by simp_all
    with quiet show ?thesis by blast
  qed
next
  case Closed
  with assms(1) quiet show ?thesis by (simp add: conn_step_def)
qed


section \<open>The copies stay true\<close>

lemma handed_reply:
  "handed (reply c m st) ch = handed st ch @ (if ch = conn_tx c \<and> rx_alive (chans st ch) then [m] else [])"
  by (auto simp: handed_def reply_def queue_send)

lemma handed_abort [simp]: "handed (abort_write c st) ch = handed st ch"
  by (simp add: handed_def abort_write_def)

lemma handed_add:
  assumes "rooms_inv st" "add_peer ip peer st = (Inr (existing, sid), st')"
    "distinct (map sender (room_at ip st))"
  shows "handed st' ch = handed st ch @
    (if rx_alive (chans st ch) \<and> (\<exists>p\<in>set (room_at ip st). peer_code p \<noteq> peer_code peer \<and> sender p = ch)
     then [PeerJoined (to_peer_data peer)] else [])"
proof -
  have "wire (chans st' ch) = wire (chans st ch)"
    using grows_add_peer [OF grows_refl, of st ip peer] assms(2) by (simp add: grows_def)
  moreover note queue_add_peer [OF assms]
  ultimately show ?thesis by (simp add: handed_def)
qed

lemma handed_remove:
  assumes "rooms_inv st" "distinct (map sender (room_at ip st))"
  shows "handed (remove_peer ip code sid st) ch = handed st ch @
    (if holds_session ip code sid st \<and> rx_alive (chans st ch) \<and>
        (\<exists>p\<in>set (room_at ip st). peer_code p \<noteq> code \<and> sender p = ch)
     then [PeerLeft code] else [])"
  by (simp add: remove_peer_eq [OF assms(1)] handed_def queue_broadcast_others [OF assms(2)])

text \<open>The list a new client is sent is the room without itself.\<close>

lemma view_of_list:
  assumes "rooms_inv st"
  shows "see (Peers (map to_peer_data (others ip code st))) known = room_view ip code st"
proof
  fix k
  have "map_of (map (\<lambda>d. (pd_peer_code d, d)) (map to_peer_data ps)) k =
      map_option to_peer_data (List.find (\<lambda>p. peer_code p = k) ps)" for ps
    by (induction ps) (simp_all add: to_peer_data_def)
  then show "see (Peers (map to_peer_data (others ip code st))) known k = room_view ip code st k"
    by (simp add: find_others room_view_def)
qed

lemma view_joined:
  assumes "directory st' = (directory st)((ip, peer_code q) \<mapsto> q\<lparr>session_id := sid\<rparr>)" "code \<noteq> peer_code q"
  shows "see (PeerJoined (to_peer_data q)) (room_view ip code st) = room_view ip code st'"
  using assms by (auto simp: room_view_def to_peer_data_def fun_eq_iff)

lemma view_left:
  assumes "directory st' = (directory st)((ip, gone) := None)"
  shows "see (PeerLeft gone) (room_view ip code st) = room_view ip code st'"
  using assms by (auto simp: room_view_def fun_eq_iff)

lemma view_other_room:
  "(\<And>k. directory st' (ip, k) = directory st (ip, k)) \<Longrightarrow> room_view ip code st' = room_view ip code st"
  unfolding room_view_def by presburger

lemma room_view_cong: "directory st' = directory st \<Longrightarrow> room_view ip code st' = room_view ip code st"
  by (simp add: room_view_def cong: if_cong)

lemma told_new: "told sys_new"
  by (simp add: told_def sys_new_def)

lemma told_open:
  assumes "sys_inv s" "told s" "conns s tx = None" "open_connection ip tx now (srv s) = (c, st)"
  shows "told (s\<lparr>srv := st, conns := (conns s)(tx \<mapsto> c)\<rparr>)"
proof -
  have d: "directory st = directory (srv s)" and v: "room_view i k st = room_view i k (srv s)" for i k
    using assms(4) directory_cong [of st "srv s"] by (auto simp: open_connection_def room_view_def)
  have "chans st (sender p) = chans (srv s) (sender p)" if "directory (srv s) (i, k) = Some p" for i k p
    using backedD [OF sys_inv_backed [OF assms(1) that]] assms(3,4) by (auto simp: open_connection_def)
  with assms(2) show ?thesis by (auto simp: told_def d v handed_def)
qed

lemma told_write: "told s \<Longrightarrow> told (s\<lparr>srv := write_task_step tx ok (srv s)\<rparr>)" (is "_ \<Longrightarrow> told ?t")
proof -
  assume t: "told s"
  have d: "directory (write_task_step tx ok (srv s)) = directory (srv s)" by (intro directory_cong) simp
  have "rx_alive (chans (srv ?t) ch) \<Longrightarrow>
      rx_alive (chans (srv s) ch) \<and> handed (srv ?t) ch = handed (srv s) ch" for ch
    by (auto simp: handed_def write_task_step_def Let_def split: list.splits if_splits)
  with t show ?thesis by (simp add: told_def d room_view_cong [OF d])
qed

lemma same_channel:
  assumes "sys_inv s" "directory (srv s) (ip, code) = Some p"
  shows "(\<exists>q\<in>set (room_at ip' (srv s)). peer_code q \<noteq> x \<and> sender q = sender p) \<longleftrightarrow> ip' = ip \<and> code \<noteq> x"
proof -
  have inv: "rooms_inv (srv s)" using assms(1) by (simp add: sys_inv_def)
  have "ip' = ip \<and> peer_code q = code" if "q \<in> set (room_at ip' (srv s))" "sender q = sender p" for q
  proof -
    have d: "directory (srv s) (ip', peer_code q) = Some q" using that(1) directory_iff [OF inv] by simp
    from inj_onD [OF sys_inv_sender_inj [OF assms(1)], of "(ip', peer_code q)" "(ip, code)"] that(2) d assms(2)
    show ?thesis by auto
  qed
  moreover have "p \<in> set (room_at ip (srv s)) \<and> peer_code p = code" using assms(2) directory_iff [OF inv] by simp
  ultimately show ?thesis by blast
qed

lemma told_turn:
  assumes "sys_inv s" "told s" "conns s tx = Some c" "conn_step from_str now w c (srv s) = (c', st)"
  shows "told (s\<lparr>srv := st, conns := (conns s)(tx \<mapsto> c')\<rparr>)" (is "told ?t")
proof -
  have inv: "rooms_inv (srv s)" and tx: "conn_tx c = tx"
    using assms(1,3) unfolding sys_inv_def by blast+
  have grows: "grows (srv s) st" using grows_conn_step [of "srv s" from_str now w c] assms(4) by simp
  have was: "replica (handed (srv s) (sender p)) = room_view ip code (srv s)"
    if "directory (srv s) (ip, code) = Some p" "rx_alive (chans st (sender p))" for ip code p
    using assms(2) that grows unfolding told_def grows_def by blast
  note chan = same_channel [OF assms(1)]
  note senders = sys_inv_senders [OF assms(1)]
  have "replica (handed st (sender p)) = room_view ip code st"
    if p: "directory st (ip, code) = Some p" "rx_alive (chans st (sender p))" for ip code p
    using assms(4) inv
  proof (cases rule: turn_tells)
    case quiet
    have d: "directory st = directory (srv s)" using quiet(2) by (rule directory_cong)
    have "replica (handed st (sender p)) = replica (handed (srv s) (sender p))"
      using quiet(1) by (rule emits_quiet) (use grows in \<open>simp add: grows_def\<close>)
    with was p show ?thesis by (simp add: d room_view_cong [OF d])
  next
    case (joins peer existing sid st1)
    let ?old = "others (conn_ip c) (peer_code peer) (srv s)"
    have dir: "directory st = (directory (srv s))((conn_ip c, peer_code peer) \<mapsto> peer\<lparr>session_id := sid\<rparr>)"
      using directory_add_peer [OF inv joins(1)] directory_cong [of st st1] joins(3) by simp
    have existing: "existing = map to_peer_data ?old"
      using inv joins(1) by (cases rule: add_peer_cases) simp_all
    have handed1: "handed st1 ch = handed (srv s) ch @
      (if rx_alive (chans (srv s) ch) \<and>
          (\<exists>p\<in>set (room_at (conn_ip c) (srv s)). peer_code p \<noteq> peer_code peer \<and> sender p = ch)
       then [PeerJoined (to_peer_data peer)] else [])" for ch
      by (rule handed_add [OF inv joins(1) senders])
    show ?thesis
    proof (cases "(ip, code) = (conn_ip c, peer_code peer)")
      case True
      then have "sender p = tx" using p(1) dir joins(2) tx by auto
      moreover have "room_view ip code st = room_view ip code (srv s)"
        using True dir by (auto simp: room_view_def fun_eq_iff)
      ultimately show ?thesis
        using True p(2) view_of_list [OF inv] tx joins(3)
        by (simp add: handed_reply replica_append existing)
    next
      case False
      then have old: "directory (srv s) (ip, code) = Some p" using p(1) dir by (auto split: if_splits)
      have "sender p \<noteq> tx" using backedD [OF sys_inv_backed [OF assms(1) old]] assms(3) joins(4) by auto
      moreover have "room_view ip code st = room_view ip code (srv s)" if "ip \<noteq> conn_ip c"
        using that dir by (intro view_other_room) simp
      moreover have "see (PeerJoined (to_peer_data peer)) (room_view ip code (srv s)) = room_view ip code st"
        if "ip = conn_ip c"
        using view_joined [of st "srv s" ip peer sid code] that dir False by simp
      ultimately show ?thesis
        using was [OF old p(2)] False p(2) grows tx
        by (auto simp: joins(3) handed_reply handed1 replica_append chan [OF old] grows_def)
    qed
  next
    case (leaves gone sid)
    let ?st = "remove_peer (conn_ip c) gone sid (srv s)"
    have dir: "directory st =
        (if holds_session (conn_ip c) gone sid (srv s)
         then (directory (srv s))((conn_ip c, gone) := None) else directory (srv s))"
      using directory_remove_peer [OF inv] leaves(2) by simp
    then have old: "directory (srv s) (ip, code) = Some p" "ip = conn_ip c \<Longrightarrow>
        holds_session (conn_ip c) gone sid (srv s) \<Longrightarrow> code \<noteq> gone"
      using p(1) by (auto split: if_splits)
    have "room_view ip code st = room_view ip code (srv s)"
      if "ip \<noteq> conn_ip c \<or> \<not> holds_session (conn_ip c) gone sid (srv s)"
      using that dir by (intro view_other_room) auto
    moreover have "see (PeerLeft gone) (room_view ip code (srv s)) = room_view ip code st"
      if "ip = conn_ip c" "holds_session (conn_ip c) gone sid (srv s)"
      using that dir by (intro view_left) simp
    moreover have "handed st (sender p) = handed (srv s) (sender p) @
        (if ip = conn_ip c \<and> holds_session (conn_ip c) gone sid (srv s) then [PeerLeft gone] else [])"
    proof -
      have "rx_alive (chans (srv s) (sender p))" using p(2) grows unfolding grows_def by blast
      then show ?thesis
        using old(2) by (auto simp: leaves(2) handed_remove [OF inv senders] chan [OF old(1)])
    qed
    ultimately show ?thesis
      using was [OF old(1) p(2)] by (auto simp: replica_append)
  qed
  then show ?thesis by (simp add: told_def)
qed


lemma told_reachable:
  assumes "reachable (\<lambda>s. s = sys_new) (sys_step from_str) s"
  shows "told s"
  using assms
proof (induction rule: reachable.induct)
  case (reach_init s)
  then show ?case by (simp add: told_new)
next
  case (reach_step s t)
  have inv: "sys_inv s" using ssys.inv_reachable [OF reach_step(1)] .
  from reach_step(2) show ?case
    by (cases rule: sys_step.cases)
      (use inv reach_step(3) in \<open>auto intro: told_open told_turn told_write\<close>)
qed

section \<open>Properties\<close>



end
