(* ===== verification/Slots.thy ===== *)
theory Slots
  imports Room_System Client_Ip
begin

text \<open>
  The server object of \<open>signal/src/lib.rs\<close>: its configuration, the counter of active
  connections with the guards that release it, and the accept loop. The counter is a 64-bit
  atomic; \<open>try_acquire_slot\<close> is a compare-and-exchange loop, modelled both as the function a
  single caller sees and as the steps of any number of concurrent callers.
\<close>

section \<open>The server object\<close>

record 'v signaling_server =
  server_addr :: "ip_addr \<times> nat"
  room_manager :: "'v rv_state"
  trusted_proxies :: "ip_addr list"
  max_connections :: u64
  active_connections :: u64

definition DEFAULT_MAX_WS_CONNECTIONS :: u64 where "DEFAULT_MAX_WS_CONNECTIONS = 256"

definition signaling_server_new :: "ip_addr \<times> nat \<Rightarrow> 'v signaling_server" where
  "signaling_server_new addr =
     \<lparr>server_addr = addr, room_manager = room_manager_new, trusted_proxies = [],
      max_connections = DEFAULT_MAX_WS_CONNECTIONS, active_connections = 0\<rparr>"

definition with_trusted_proxies :: "ip_addr list \<Rightarrow> 'v signaling_server \<Rightarrow> 'v signaling_server" where
  "with_trusted_proxies proxies s = s\<lparr>trusted_proxies := proxies\<rparr>"

definition with_max_connections :: "u64 \<Rightarrow> 'v signaling_server \<Rightarrow> 'v signaling_server" where
  "with_max_connections mx s = s\<lparr>max_connections := mx\<rparr>"

section \<open>Acquiring and releasing a slot\<close>

text \<open>
  Without interference the compare-and-exchange succeeds at once. Dropping the guard is
  \<open>fetch_sub(1)\<close>, which would wrap below zero.
\<close>

definition try_acquire_slot :: "'v signaling_server \<Rightarrow> bool \<times> 'v signaling_server" where
  "try_acquire_slot s =
     (let current = active_connections s
      in if current \<ge> max_connections s then (False, s)
         else (True, s\<lparr>active_connections := current + 1\<rparr>))"

definition guard_drop :: "'v signaling_server \<Rightarrow> 'v signaling_server" where
  "guard_drop s = s\<lparr>active_connections := active_connections s - 1\<rparr>"

text \<open>
  The accept loop: a failed accept is logged; an accepted connection gets a slot and a task,
  or is dropped. The tasks alive are listed by the address of their peer; one of them ends.
\<close>

datatype accept_event = AcceptFailed | Accepted ip_addr | TaskEnded nat

definition accept_step ::
    "accept_event \<Rightarrow> 'v signaling_server \<times> ip_addr list \<Rightarrow> 'v signaling_server \<times> ip_addr list" where
  "accept_step ev = (\<lambda>(s, tasks).
     case ev of
       AcceptFailed \<Rightarrow> (s, tasks)
     | Accepted addr \<Rightarrow>
         (case try_acquire_slot s of
            (True, s') \<Rightarrow> (s', tasks @ [addr])
          | (False, s') \<Rightarrow> (s', tasks))
     | TaskEnded i \<Rightarrow>
         if i < length tasks then (guard_drop s, remove_at i tasks) else (s, tasks))"

definition run_accepts ::
    "accept_event list \<Rightarrow> 'v signaling_server \<times> ip_addr list \<Rightarrow> 'v signaling_server \<times> ip_addr list" where
  "run_accepts evs st = fold accept_step evs st"

section \<open>Concurrent callers\<close>

text \<open>
  The atomic steps of concurrent callers: load the counter and give up or go on, exchange or
  retry, drop a guard. \<open>loaded\<close> holds what each caller inside the loop has read, \<open>guards\<close>
  how many guards are alive.
\<close>

record slots =
  active :: u64
  loaded :: "nat \<Rightarrow> u64 option"
  guards :: nat

inductive slot_step :: "u64 \<Rightarrow> slots \<Rightarrow> slots \<Rightarrow> bool" for mx :: u64 where
  slot_full: "active s \<ge> mx \<Longrightarrow> loaded s t = None \<Longrightarrow> slot_step mx s s"
| slot_load: "\<not> active s \<ge> mx \<Longrightarrow> loaded s t = None \<Longrightarrow>
     slot_step mx s (s\<lparr>loaded := (loaded s)(t \<mapsto> active s)\<rparr>)"
| slot_exchange: "loaded s t = Some current \<Longrightarrow> active s = current \<Longrightarrow>
     slot_step mx s (s\<lparr>active := current + 1, loaded := (loaded s)(t := None),
                       guards := Suc (guards s)\<rparr>)"
| slot_retry: "loaded s t = Some current \<Longrightarrow> active s \<noteq> current \<Longrightarrow>
     slot_step mx s (s\<lparr>loaded := (loaded s)(t := None)\<rparr>)"
| slot_drop: "guards s = Suc n \<Longrightarrow>
     slot_step mx s (s\<lparr>active := active s - 1, guards := n\<rparr>)"

definition slots_new :: slots where
  "slots_new = \<lparr>active = 0, loaded = (\<lambda>_. None), guards = 0\<rparr>"

definition slots_inv :: "u64 \<Rightarrow> slots \<Rightarrow> bool" where
  "slots_inv mx s \<longleftrightarrow>
     unat (active s) = guards s \<and> active s \<le> mx \<and>
     (\<forall>t current. loaded s t = Some current \<longrightarrow> current < mx)"

lemma suc_below: "(x :: u64) < mx \<Longrightarrow> unat (x + 1) = Suc (unat x) \<and> x + 1 \<le> mx"
proof -
  assume lt: "x < mx"
  then have "unat x < unat mx" by (simp add: word_less_nat_alt)
  moreover have "unat mx < 2 ^ 64" using unsigned_less [of mx, where ?'a = nat] by simp
  ultimately have "unat x + 1 < 2 ^ 64" by linarith
  then have "unat (x + 1) = Suc (unat x)" by (simp add: unat_word_ariths)
  with \<open>unat x < unat mx\<close> show ?thesis by (simp add: word_le_nat_alt)
qed

lemma pred_above: "unat (x :: u64) = Suc n \<Longrightarrow> unat (x - 1) = n \<and> x - 1 \<le> x"
proof -
  assume x: "unat x = Suc n"
  then have "x \<noteq> 0" by auto
  then have "unat (x - 1) = unat x - 1" by (rule unat_minus_one)
  with x show ?thesis by (simp add: word_le_nat_alt)
qed

interpretation slotsys: invariant_system "\<lambda>s. s = slots_new" "slot_step mx" "slots_inv mx"
proof unfold_locales
  show "slots_inv mx s" if "s = slots_new" for s
    using that by (simp add: slots_inv_def slots_new_def)
  show "slots_inv mx t" if "slots_inv mx s" "slot_step mx s t" for s t
    using that(2)
  proof (cases rule: slot_step.cases)
    case (slot_exchange u current)
    then have "current < mx" using that(1) by (auto simp: slots_inv_def)
    from suc_below [OF this] slot_exchange that(1) show ?thesis by (auto simp: slots_inv_def)
  next
    case (slot_drop n)
    with that(1) pred_above [of "active s" n] show ?thesis by (auto simp: slots_inv_def)
  qed (use that(1) in \<open>auto simp: slots_inv_def\<close>)
qed

section \<open>Properties\<close>

text \<open>
  No over-subscription. However any number of callers of \<open>try_acquire_slot\<close> and of
  dropped guards interleave, the counter equals the number of live guards, never exceeds the
  configured maximum and never wraps around, neither up nor down; with a maximum of 0 no
  guard is ever handed out.
\<close>

lemma slots_never_oversubscribed:
  assumes "reachable (\<lambda>s. s = slots_new) (slot_step mx) s"
  shows "guards s = unat (active s) \<and> guards s \<le> unat mx \<and>
    (guards s = Suc n \<longrightarrow> unat (active s - 1) = n) \<and>
    (\<forall>t. loaded s t = Some (active s) \<longrightarrow> unat (active s + 1) = Suc (guards s))"
proof -
  have inv: "slots_inv mx s" using slotsys.inv_reachable [OF assms] .
  then show ?thesis
    using pred_above [of "active s" n] suc_below [of "active s" mx]
    by (auto simp: slots_inv_def word_le_nat_alt)
qed

lemma slots_never_oversubscribed_witness:
  "guards (slots_new\<lparr>loaded := (\<lambda>_. None)(4 \<mapsto> 0)\<rparr>) \<le> unat (1 :: u64)"
proof -
  have "slot_step 1 slots_new (slots_new\<lparr>loaded := (loaded slots_new)(4 \<mapsto> active slots_new)\<rparr>)"
    by (rule slot_load) (simp_all add: slots_new_def)
  then have "reachable (\<lambda>s. s = slots_new) (slot_step 1) (slots_new\<lparr>loaded := (\<lambda>_. None)(4 \<mapsto> 0)\<rparr>)"
    by (intro reach_step [OF reach_init]) (simp_all add: slots_new_def)
  from slots_never_oversubscribed [OF this] show ?thesis by blast
qed

text \<open>
  The accept loop. From a fresh server with any configuration, after any sequence of
  accepts, failures and task ends, the counter is the number of connections being served and
  that number never exceeds the configured maximum; the next accepted connection is served
  exactly when it is below.
\<close>

lemma accept_loop_bounded:
  assumes "run_accepts evs (with_max_connections mx (with_trusted_proxies ps (signaling_server_new a)), []) = (s, tasks)"
  shows "unat (active_connections s) = length tasks \<and> length tasks \<le> unat mx \<and>
    max_connections s = mx \<and> trusted_proxies s = ps \<and>
    (fst (try_acquire_slot s) \<longleftrightarrow> length tasks < unat mx)"
proof -
  have inv: "unat (active_connections s) = length tasks \<and> active_connections s \<le> mx \<and>
      max_connections s = mx \<and> trusted_proxies s = ps"
    if "run_accepts evs (s0, ts0) = (s, tasks)"
      "unat (active_connections s0) = length ts0" "active_connections s0 \<le> mx"
      "max_connections s0 = mx" "trusted_proxies s0 = ps" for s0 :: "'a signaling_server" and ts0
    using that
  proof (induction evs arbitrary: s0 ts0)
    case Nil
    then show ?case by (simp add: run_accepts_def)
  next
    case (Cons ev evs)
    have below: "active_connections s0 - 1 \<le> mx" if "i < length ts0" for i
    proof -
      have "unat (active_connections s0) = Suc (length ts0 - 1)" using that Cons.prems(2) by (cases ts0) auto
      from pred_above [OF this] Cons.prems(3) show ?thesis using order.trans by blast
    qed
    obtain s1 ts1 where step: "accept_step ev (s0, ts0) = (s1, ts1)" by fastforce
    then have "unat (active_connections s1) = length ts1 \<and> active_connections s1 \<le> mx \<and>
        max_connections s1 = mx \<and> trusted_proxies s1 = ps"
      using Cons.prems suc_below [of "active_connections s0" mx]
        pred_above [of "active_connections s0" "length ts0 - 1"] below
      by (auto simp: accept_step_def try_acquire_slot_def guard_drop_def Let_def not_le length_remove_at
          split: accept_event.splits if_splits)
    moreover have "run_accepts evs (s1, ts1) = (s, tasks)"
      using Cons.prems(1) step by (simp add: run_accepts_def)
    ultimately show ?case using Cons.IH by blast
  qed
  have "unat (active_connections s) = length tasks \<and> active_connections s \<le> mx \<and>
      max_connections s = mx \<and> trusted_proxies s = ps"
    by (rule inv [OF assms])
      (simp_all add: with_max_connections_def with_trusted_proxies_def signaling_server_new_def)
  then show ?thesis
    by (auto simp: try_acquire_slot_def Let_def word_le_nat_alt not_le)
qed

lemma accept_loop_bounded_witness:
  "length (snd (run_accepts [Accepted (V4 1 2 3 4), AcceptFailed, Accepted (V4 1 2 3 5)]
     (with_max_connections 1 (with_trusted_proxies [] (signaling_server_new (V4 0 0 0 0, 3001) :: nat signaling_server)), []))) \<le> 1"
proof -
  let ?r = "run_accepts [Accepted (V4 1 2 3 4), AcceptFailed, Accepted (V4 1 2 3 5)]
     (with_max_connections 1 (with_trusted_proxies [] (signaling_server_new (V4 0 0 0 0, 3001) :: nat signaling_server)), [])"
  obtain s tasks where r: "?r = (s, tasks)" by fastforce
  from accept_loop_bounded [OF this] r show ?thesis by simp
qed

end
