(* ===== verification/Whole_Server.thy ===== *)
theory Whole_Server
  imports Server_System Slots
begin

text \<open>
  The server as it runs: the accept loop of \<open>signal/src/lib.rs\<close> with its connection slots
  around the connection handlers of \<open>signal/src/server.rs\<close>. An accepted connection holds a
  slot from before its task starts until the task ends, through the peek, the handshake and
  all turns of its handler. The runs of this system refine those of the handlers alone, so
  everything shown there holds here, and the slots bound what the room table can hold.
\<close>

section \<open>Tasks\<close>

text \<open>
  A task first peeks and shakes hands for the address it was accepted from, then handles its
  connection. Handlers are kept by their channel after they have ended.
\<close>

datatype task = Accepting ip_addr | Handling

record 'v whole =
  server :: "'v signaling_server"
  tasks :: "nat \<Rightarrow> task option"
  handlers :: "nat \<Rightarrow> conn option"

definition whole_new :: "ip_addr \<times> nat \<Rightarrow> ip_addr list \<Rightarrow> u64 \<Rightarrow> 'v whole" where
  "whole_new addr proxies mx =
     \<lparr>server = with_max_connections mx (with_trusted_proxies proxies (signaling_server_new addr)),
      tasks = Map.empty, handlers = Map.empty\<rparr>"

definition set_rooms :: "'v rv_state \<Rightarrow> 'v whole \<Rightarrow> 'v whole" where
  "set_rooms st f = f\<lparr>server := (server f)\<lparr>room_manager := st\<rparr>\<rparr>"

definition end_task :: "nat \<Rightarrow> 'v whole \<Rightarrow> 'v whole" where
  "end_task tx f = f\<lparr>server := guard_drop (server f), tasks := (tasks f)(tx := None)\<rparr>"

inductive whole_step ::
    "(string \<Rightarrow> (string, 'v client_message) result) \<Rightarrow> 'v whole \<Rightarrow> 'v whole \<Rightarrow> bool"
  for from_str :: "string \<Rightarrow> (string, 'v client_message) result" where
  whole_accept: "try_acquire_slot (server f) = (True, s) \<Longrightarrow> tasks f tx = None \<Longrightarrow> handlers f tx = None \<Longrightarrow>
     whole_step from_str f (f\<lparr>server := s, tasks := (tasks f)(tx \<mapsto> Accepting addr)\<rparr>)"
| whole_reject: "try_acquire_slot (server f) = (False, s) \<Longrightarrow>
     whole_step from_str f (f\<lparr>server := s\<rparr>)"
| whole_answered: "tasks f tx = Some (Accepting addr) \<Longrightarrow>
     handle_connection from_str (trusted_proxies (server f)) addr peeked None tx now []
       (room_manager (server f)) = (r, st) \<Longrightarrow>
     whole_step from_str f (end_task tx (set_rooms st f))"
| whole_open: "tasks f tx = Some (Accepting addr) \<Longrightarrow> classify_request peeked = Handshake \<Longrightarrow>
     open_connection (client_room (trusted_proxies (server f)) addr fly xff) tx now
       (room_manager (server f)) = (c, st) \<Longrightarrow>
     whole_step from_str f (set_rooms st
       (f\<lparr>tasks := (tasks f)(tx \<mapsto> Handling), handlers := (handlers f)(tx \<mapsto> c)\<rparr>))"
| whole_turn: "tasks f tx = Some Handling \<Longrightarrow> handlers f tx = Some c \<Longrightarrow>
     conn_step from_str now w c (room_manager (server f)) = (c', st) \<Longrightarrow>
     whole_step from_str f (set_rooms st (f\<lparr>handlers := (handlers f)(tx \<mapsto> c')\<rparr>))"
| whole_end: "tasks f tx = Some Handling \<Longrightarrow> handlers f tx = Some c \<Longrightarrow> conn_phase c = Closed \<Longrightarrow>
     whole_step from_str f (end_task tx f)"
| whole_write: "whole_step from_str f
     (set_rooms (write_task_step tx ok (room_manager (server f))) f)"

section \<open>Refinement\<close>

text \<open>What the system of handlers sees of the server.\<close>

definition handler_view :: "'v whole \<Rightarrow> 'v sys" where
  "handler_view f = \<lparr>srv = room_manager (server f), conns = handlers f\<rparr>"

definition whole_inv :: "ip_addr list \<Rightarrow> u64 \<Rightarrow> 'v whole \<Rightarrow> bool" where
  "whole_inv proxies mx f \<longleftrightarrow>
     finite (dom (tasks f)) \<and>
     unat (active_connections (server f)) = card (dom (tasks f)) \<and>
     active_connections (server f) \<le> mx \<and>
     max_connections (server f) = mx \<and> trusted_proxies (server f) = proxies \<and>
     (\<forall>tx addr. tasks f tx = Some (Accepting addr) \<longrightarrow> handlers f tx = None) \<and>
     (\<forall>tx c. handlers f tx = Some c \<longrightarrow> conn_phase c \<noteq> Closed \<longrightarrow> tasks f tx = Some Handling)"

lemma slot_frame [simp]:
  "room_manager (guard_drop s) = room_manager s" "trusted_proxies (guard_drop s) = trusted_proxies s"
  "max_connections (guard_drop s) = max_connections s"
  "active_connections (guard_drop s) = active_connections s - 1"
  by (simp_all add: guard_drop_def)

lemma acquired:
  assumes "try_acquire_slot s = (True, s')"
  shows "s' = s\<lparr>active_connections := active_connections s + 1\<rparr>" "active_connections s < max_connections s"
  using assms by (auto simp: try_acquire_slot_def Let_def not_le split: if_splits)

lemma refused: "try_acquire_slot s = (False, s') \<Longrightarrow> s' = s"
  by (auto simp: try_acquire_slot_def Let_def split: if_splits)

lemma answered_frame:
  "handle_connection from_str ps addr peeked None tx now [] st = (r, st') \<Longrightarrow> st' = st"
  by (auto simp: handle_connection_def split: peek_outcome.splits)

lemma whole_inv_end:
  assumes "whole_inv proxies mx f" "tasks f tx = Some t"
    "\<And>c. handlers f tx = Some c \<Longrightarrow> conn_phase c = Closed"
  shows "whole_inv proxies mx (end_task tx f)"
proof -
  have "tx \<in> dom (tasks f)" using assms(2) by blast
  then obtain n where n: "card (dom (tasks f)) = Suc n"
    using assms(1) by (metis card_Suc_Diff1 whole_inv_def)
  then have "card (dom (tasks f) - {tx}) = n"
    using assms(1) \<open>tx \<in> dom (tasks f)\<close> by (simp add: whole_inv_def)
  moreover have "unat (active_connections (server f) - 1) = n \<and>
      active_connections (server f) - 1 \<le> active_connections (server f)"
    using assms(1) n by (intro pred_above) (simp add: whole_inv_def)
  ultimately show ?thesis
    using assms unfolding whole_inv_def end_task_def by (auto intro: order.trans)
qed

lemma whole_inv_new: "whole_inv proxies mx (whole_new addr proxies mx)"
  by (simp add: whole_inv_def whole_new_def with_max_connections_def with_trusted_proxies_def
      signaling_server_new_def)

lemma whole_inv_step:
  assumes "whole_inv proxies mx f" "whole_step from_str f g"
  shows "whole_inv proxies mx g"
  using assms(2)
proof (cases rule: whole_step.cases)
  case (whole_accept s tx addr)
  have "active_connections (server f) < mx" using acquired(2) [OF whole_accept(2)] assms(1) by (simp add: whole_inv_def)
  from suc_below [OF this] assms(1) whole_accept(3,4) acquired(1) [OF whole_accept(2)]
  show ?thesis unfolding whole_accept(1) whole_inv_def by (auto simp: domIff card_insert_if)
next
  case (whole_answered tx addr peeked now r st)
  have "set_rooms st f = f" using answered_frame [OF whole_answered(3)] by (simp add: set_rooms_def)
  with whole_inv_end [OF assms(1) whole_answered(2)] assms(1) whole_answered(1,2) show ?thesis
    by (simp add: whole_inv_def)
next
  case (whole_end tx c)
  with whole_inv_end [OF assms(1) whole_end(2)] show ?thesis by simp
next
  case (whole_open tx addr peeked fly xff now c st)
  have "dom ((tasks f)(tx \<mapsto> Handling)) = dom (tasks f)" using whole_open(2) by auto
  with assms(1) whole_open(1,2) show ?thesis
    by (auto simp: whole_inv_def set_rooms_def simp del: dom_fun_upd)
qed (use assms(1) refused in \<open>auto simp: whole_inv_def set_rooms_def\<close>)

text \<open>Every step of the server is a step of the handlers or invisible to them.\<close>

lemma whole_step_simulated:
  assumes "whole_inv proxies mx f" "whole_step from_str f g"
  shows "handler_view g = handler_view f \<or> sys_step from_str (handler_view f) (handler_view g)"
  using assms(2)
proof (cases rule: whole_step.cases)
  case (whole_accept s tx addr)
  then show ?thesis using acquired(1) [OF whole_accept(2)] by (simp add: handler_view_def)
next
  case (whole_reject s)
  then show ?thesis using refused [OF whole_reject(2)] by (simp add: handler_view_def)
next
  case (whole_answered tx addr peeked now r st)
  then show ?thesis using answered_frame [OF whole_answered(3)]
    by (simp add: handler_view_def end_task_def set_rooms_def)
next
  case (whole_open tx addr peeked fly xff now c st)
  have "conns (handler_view f) tx = None"
    using assms(1) whole_open(2) by (simp add: whole_inv_def handler_view_def)
  from sys_open [OF this, of _ now c st from_str] whole_open show ?thesis
    by (simp add: handler_view_def set_rooms_def)
next
  case (whole_turn tx c now w c' st)
  from sys_turn [of "handler_view f" tx c from_str now w c' st] whole_turn show ?thesis
    by (simp add: handler_view_def set_rooms_def)
next
  case (whole_write tx ok)
  from sys_write [of from_str "handler_view f" tx ok] whole_write show ?thesis
    by (simp add: handler_view_def set_rooms_def)
qed (simp add: handler_view_def end_task_def)

lemma handler_view_new: "handler_view (whole_new addr proxies mx) = sys_new"
  by (simp add: handler_view_def whole_new_def sys_new_def with_max_connections_def
      with_trusted_proxies_def signaling_server_new_def)

interpretation wholesys: simulated_system
  "\<lambda>f. f = whole_new addr proxies mx" "whole_step from_str" "whole_inv proxies mx"
  "\<lambda>s. s = sys_new" "sys_step from_str" handler_view
  by unfold_locales
    (auto simp: whole_inv_new handler_view_new intro: whole_inv_step dest: whole_step_simulated)

section \<open>Properties\<close>

text \<open>
  The whole server keeps its connection limit, and its rooms obey it. In every run of the
  accept loop with its handlers, what the handlers do is a run of the handlers alone; the
  counter is the number of running tasks and at most the configured maximum; every listed
  peer has a running task of its own, so there are never more peers than connections; and the
  next connection is refused exactly when the maximum is reached.
\<close>

lemma whole_server_bounded:
  assumes "reachable (\<lambda>f. f = whole_new addr proxies mx) (whole_step from_str) f"
  shows "reachable (\<lambda>s. s = sys_new) (sys_step from_str) (handler_view f) \<and>
    unat (active_connections (server f)) = card (dom (tasks f)) \<and>
    peer_count (room_manager (server f)) \<le> card (dom (tasks f)) \<and> card (dom (tasks f)) \<le> unat mx \<and>
    (\<forall>k p. directory (room_manager (server f)) k = Some p \<longrightarrow> tasks f (sender p) = Some Handling) \<and>
    (fst (try_acquire_slot (server f)) \<longleftrightarrow> card (dom (tasks f)) < unat mx)"
proof -
  note inv = wholesys.inv_reachable [OF assms]
  note refines = wholesys.view_reachable [OF assms]
  note sinv = ssys.inv_reachable [OF refines]
  let ?d = "directory (room_manager (server f))"
  have rooms: "rooms_inv (room_manager (server f))" using sinv by (simp add: sys_inv_def handler_view_def)
  have task: "tasks f (sender p) = Some Handling" if "?d k = Some p" for k p
  proof -
    obtain ip code where "k = (ip, code)" by fastforce
    with that have "backed (handler_view f) ip code p"
      by (intro sys_inv_backed [OF sinv]) (simp add: handler_view_def)
    from backedD [OF this] obtain c where "handlers f (sender p) = Some c" "conn_phase c \<noteq> Closed"
      by (auto simp: handler_view_def)
    with inv show ?thesis unfolding whole_inv_def by blast
  qed
  have "peer_count (room_manager (server f)) = card (dom ?d)" by (rule peer_count_card [OF rooms])
  also have "\<dots> = card ((\<lambda>k. sender (the (?d k))) ` dom ?d)"
    using sys_inv_sender_inj [OF sinv] by (simp add: card_image handler_view_def)
  also have "\<dots> \<le> card (dom (tasks f))"
    using inv task by (intro card_mono) (auto simp: whole_inv_def)
  finally have "peer_count (room_manager (server f)) \<le> card (dom (tasks f))" .
  moreover have "card (dom (tasks f)) \<le> unat mx"
    using inv by (simp add: whole_inv_def word_le_nat_alt)
  moreover have "fst (try_acquire_slot (server f)) \<longleftrightarrow> card (dom (tasks f)) < unat mx"
    using inv by (auto simp: whole_inv_def try_acquire_slot_def Let_def word_le_nat_alt not_le)
  ultimately show ?thesis using inv refines task by (auto simp: whole_inv_def)
qed

lemma whole_server_bounded_witness:
  "\<exists>f :: nat whole. tasks f 0 = Some (Accepting (V4 1 2 3 4)) \<and>
     peer_count (room_manager (server f)) \<le> 1 \<and> \<not> fst (try_acquire_slot (server f))"
proof -
  let ?new = "whole_new (V4 0 0 0 0, 3001) [] 1 :: nat whole"
  let ?f = "?new\<lparr>server := (server ?new)\<lparr>active_connections := 1\<rparr>, tasks := [0 \<mapsto> Accepting (V4 1 2 3 4)]\<rparr>"
  have "whole_step register_a ?new (?new\<lparr>server := (server ?new)\<lparr>active_connections := 1\<rparr>,
      tasks := (tasks ?new)(0 \<mapsto> Accepting (V4 1 2 3 4))\<rparr>)"
    by (rule whole_accept)
      (simp_all add: whole_new_def try_acquire_slot_def with_max_connections_def
        with_trusted_proxies_def signaling_server_new_def)
  moreover have "tasks ?new = Map.empty" by (simp add: whole_new_def)
  ultimately have "reachable (\<lambda>f. f = ?new) (whole_step register_a) ?f"
    by (intro reach_step [OF reach_init]) simp_all
  from whole_server_bounded [OF this] show ?thesis by (intro exI [of _ ?f]) simp
qed

end
