(* ===== verification/Interleaving.thy ===== *)
theory Interleaving
  imports Room_System
begin

text \<open>
  The room manager at the grain of its locks. \<open>add_peer\<close> tests the room limit before it locks
  the entry of its address, and \<open>remove_peer\<close> deletes an emptied entry after it has released
  the lock; handlers on other threads run in between. The state adds to the manager the calls
  that are half done. At most \<open>k\<close> handlers are inside \<open>add_peer\<close> at a time (the connection
  limit bounds them).
\<close>

section \<open>Half-done operations\<close>

record 'v ivl =
  base :: "'v rv_state"
  adding :: "(string \<times> peer_info) multiset"
  emptied :: "string multiset"

definition ivl_new :: "'v ivl" where
  "ivl_new = \<lparr>base = room_manager_new, adding = {#}, emptied = {#}\<rparr>"

text \<open>The first half of \<open>add_peer\<close>: the session identifier and the test of the room limit.\<close>

definition add_peer_begin :: "string \<Rightarrow> peer_info \<Rightarrow> 'v rv_state \<Rightarrow> peer_info option \<times> 'v rv_state" where
  "add_peer_begin ip peer st =
     (let sid = next_session st;
          st0 = st\<lparr>next_session := sid + 1\<rparr>
      in (if add_peer_refused ip st0 then None else Some (peer\<lparr>session_id := sid\<rparr>), st0))"

text \<open>Run back to back, the two halves are the whole operation.\<close>

lemma add_peer_halves:
  "add_peer ip peer st =
     (case add_peer_begin ip peer st of
        (None, st0) \<Rightarrow> (Inl (''room limit reached ('' @ show_nat MAX_ROOMS @ '')''), st0)
      | (Some p, st0) \<Rightarrow>
          (case add_peer_entry ip p st0 of
             (Inl e, st') \<Rightarrow> (Inl e, st')
           | (Inr existing, st') \<Rightarrow> (Inr (existing, session_id p), st')))"
  by (simp add: add_peer_def add_peer_begin_def Let_def split: prod.splits sum.splits)

inductive ivl_step :: "nat \<Rightarrow> 'v ivl \<Rightarrow> 'v ivl \<Rightarrow> bool" for k :: nat where
  add_begin: "size (adding s) < k \<Longrightarrow> add_peer_begin ip peer (base s) = (Some p, st) \<Longrightarrow>
     ivl_step k s (s\<lparr>base := st, adding := add_mset (ip, p) (adding s)\<rparr>)"
| add_refused: "add_peer_begin ip peer (base s) = (None, st) \<Longrightarrow> ivl_step k s (s\<lparr>base := st\<rparr>)"
| add_finish: "(ip, p) \<in># adding s \<Longrightarrow> add_peer_entry ip p (base s) = (r, st) \<Longrightarrow>
     ivl_step k s (s\<lparr>base := st, adding := adding s - {#(ip, p)#}\<rparr>)"
| remove_begin: "remove_peer_locked ip code sid (base s) = (e, st) \<Longrightarrow>
     ivl_step k s (s\<lparr>base := st, emptied := emptied s + (if e then {#ip#} else {#})\<rparr>)"
| remove_finish: "ip \<in># emptied s \<Longrightarrow>
     ivl_step k s (s\<lparr>base := remove_room ip (base s), emptied := emptied s - {#ip#}\<rparr>)"
| ivl_channels: "ivl_step k s (s\<lparr>base := (base s)\<lparr>chans := cs\<rparr>\<rparr>)"

section \<open>Invariant\<close>

definition addrs :: "'v rv_state \<Rightarrow> string set" where
  "addrs st = fst ` set (rooms st)"

text \<open>The addresses some half-done registration will create a room for.\<close>

definition upcoming :: "'v ivl \<Rightarrow> string set" where
  "upcoming s = fst ` set_mset (adding s) - addrs (base s)"

definition ivl_inv :: "nat \<Rightarrow> 'v ivl \<Rightarrow> bool" where
  "ivl_inv k s \<longleftrightarrow>
     distinct (map fst (rooms (base s))) \<and>
     (\<forall>ip. room_ok (room_at ip (base s))) \<and>
     (\<forall>ip. map_of (rooms (base s)) ip = Some [] \<longrightarrow> ip \<in># emptied s) \<and>
     size (adding s) \<le> k \<and>
     card (addrs (base s)) + card (upcoming s) < MAX_ROOMS + k"

lemma finite_addrs [simp]: "finite (addrs st)" "finite (upcoming s)"
  by (simp_all add: addrs_def upcoming_def)

lemma addrs_rooms_cong: "rooms s = rooms t \<Longrightarrow> addrs s = addrs t"
  by (simp add: addrs_def)

text \<open>What the pieces do to the table.\<close>

lemma add_peer_entry_rooms:
  assumes "room_ok (room_at ip st)" "add_peer_entry ip peer st = (r, st')"
  shows "rooms st' = AList.update ip
    (if length (others ip (peer_code peer) st) \<ge> MAX_PEERS_PER_ROOM
     then others ip (peer_code peer) st else others ip (peer_code peer) st @ [peer]) (rooms st)"
proof -
  have "distinct (map peer_code (room_at ip st))" using assms(1) by (simp add: room_ok_def)
  then have r1: "(case position (\<lambda>p. peer_code p = peer_code peer) (room_at ip st) of
       None \<Rightarrow> room_at ip st | Some pos \<Rightarrow> remove_at pos (room_at ip st))
      = others ip (peer_code peer) st"
    unfolding others_def by (rule remove_position_eq_filter)
  show ?thesis
    using assms(2) unfolding add_peer_entry_def Let_def r1
    by (auto simp: update_last split: if_splits)
qed

lemma room_ok_entry:
  assumes "room_ok (room_at ip st)"
  shows "room_ok (if length (others ip (peer_code peer) st) \<ge> MAX_PEERS_PER_ROOM
     then others ip (peer_code peer) st else others ip (peer_code peer) st @ [peer])"
  using assms room_ok_filter [OF assms, of "\<lambda>p. peer_code p \<noteq> peer_code peer"]
  by (auto simp: others_def room_ok_def)

lemma addrs_update: "rooms st' = AList.update ip room (rooms st) \<Longrightarrow> addrs st' = insert ip (addrs st)"
  by (auto simp: addrs_def dom_update)

lemma add_finish_room:
  assumes "ivl_inv k s" "(ip, p) \<in># adding s" "add_peer_entry ip p (base s) = (r, st)"
  shows "ivl_inv k (s\<lparr>base := st, adding := adding s - {#(ip, p)#}\<rparr>)" (is "ivl_inv k ?t")
proof -
  let ?new = "if length (others ip (peer_code p) (base s)) \<ge> MAX_PEERS_PER_ROOM
     then others ip (peer_code p) (base s) else others ip (peer_code p) (base s) @ [p]"
  have ok: "room_ok (room_at ip (base s))" using assms(1) by (simp add: ivl_inv_def)
  note rooms = add_peer_entry_rooms [OF ok assms(3)]
  have "?new \<noteq> []" by (auto simp: MAX_PEERS_PER_ROOM_def)
  moreover have "room_ok ?new" by (rule room_ok_entry [OF ok])
  moreover have a: "addrs st = insert ip (addrs (base s))" using addrs_update [OF rooms] .
  moreover have "card (addrs st) + card (upcoming ?t) \<le> card (addrs (base s)) + card (upcoming s)"
  proof (cases "ip \<in> addrs (base s)")
    case True
    then have "upcoming ?t \<subseteq> upcoming s"
      by (auto simp: upcoming_def a dest: in_diffD)
    with True a show ?thesis by (simp add: insert_absorb card_mono)
  next
    case False
    have "upcoming ?t \<subseteq> upcoming s - {ip}"
      by (force simp: upcoming_def a dest: in_diffD)
    moreover have "ip \<in> upcoming s"
      using assms(2) False by (force simp: upcoming_def)
    ultimately have "card (upcoming ?t) \<le> card (upcoming s - {ip})" "ip \<in> upcoming s"
      by (simp_all add: card_mono del: card_Diff_singleton card_Diff_insert)
    moreover have "Suc (card (upcoming s - {ip})) = card (upcoming s)"
      using \<open>ip \<in> upcoming s\<close> by (intro card_Suc_Diff1) simp
    moreover have "card (addrs st) = Suc (card (addrs (base s)))" using False a by simp
    ultimately show ?thesis by linarith
  qed
  ultimately show ?thesis
    using assms(1,2) rooms unfolding ivl_inv_def
    by (auto simp: distinct_update update_conv' room_at_def size_Diff_singleton)
qed

lemma ivl_inv_frame:
  assumes "ivl_inv k s" "rooms st = rooms (base s)"
  shows "ivl_inv k (s\<lparr>base := st\<rparr>)"
proof -
  have "room_at ip st = room_at ip (base s)" for ip using room_at_cong [OF assms(2)] .
  moreover have "addrs st = addrs (base s)" using addrs_rooms_cong [OF assms(2)] .
  moreover have "upcoming (s\<lparr>base := st\<rparr>) = upcoming s" using calculation(2) by (simp add: upcoming_def)
  ultimately show ?thesis using assms unfolding ivl_inv_def by simp
qed

lemma add_begin_inv:
  assumes "ivl_inv k s" "size (adding s) < k" "add_peer_begin ip peer (base s) = (Some p, st)"
  shows "ivl_inv k (s\<lparr>base := st, adding := add_mset (ip, p) (adding s)\<rparr>)" (is "ivl_inv k ?t")
proof -
  have st: "rooms st = rooms (base s)" and free: "\<not> add_peer_refused ip (base s)"
    using assms(3) by (auto simp: add_peer_begin_def add_peer_refused_def Let_def split: if_splits)
  note at = room_at_cong [OF st] and addrs = addrs_rooms_cong [OF st]
  have "card (addrs st) + card (upcoming ?t) < MAX_ROOMS + k"
  proof (cases "ip \<in> addrs (base s)")
    case True
    then have "upcoming ?t = upcoming s" by (auto simp: upcoming_def addrs)
    with assms(1) addrs show ?thesis by (simp add: ivl_inv_def)
  next
    case False
    then have "map_of (rooms (base s)) ip = None" by (simp add: addrs_def map_of_eq_None_iff)
    with free have "length (rooms (base s)) < MAX_ROOMS" by (simp add: add_peer_refused_def)
    then have "card (addrs st) < MAX_ROOMS"
      using card_length [of "map fst (rooms (base s))"] by (simp add: addrs) (simp add: addrs_def)
    moreover have "card (upcoming ?t) \<le> size (adding ?t)"
    proof -
      have "card (upcoming ?t) \<le> card (fst ` set_mset (adding ?t))"
        by (auto simp: upcoming_def intro: card_mono)
      also have "\<dots> \<le> card (set_mset (adding ?t))" by (rule card_image_le) simp
      also have "\<dots> \<le> size (adding ?t)"
        by (metis size_mset_set size_mset_mono mset_set_set_mset_msubset)
      finally show ?thesis .
    qed
    ultimately show ?thesis using assms(2) by simp
  qed
  with assms(1,2) st at show ?thesis unfolding ivl_inv_def by simp
qed

lemma remove_begin_inv:
  assumes "ivl_inv k s" "remove_peer_locked ip code sid (base s) = (e, st)"
  shows "ivl_inv k (s\<lparr>base := st, emptied := emptied s + (if e then {#ip#} else {#})\<rparr>)"
proof (cases "map_of (rooms (base s)) ip")
  case None
  then have "st = base s" "\<not> e" using assms(2) by (simp_all add: remove_peer_locked_def)
  with assms(1) show ?thesis by (simp add: ivl_inv_def upcoming_def)
next
  case (Some room)
  define room' where "room' = filter (\<lambda>p. \<not> (peer_code p = code \<and> session_id p = sid)) room"
  have st: "rooms st = AList.update ip room' (rooms (base s))"
    and e: "e \<longleftrightarrow> length room' < length room \<and> room' = []"
    using assms(2) unfolding remove_peer_locked_def Some option.case Let_def room'_def [symmetric]
    by (auto split: if_splits)
  have room: "room = room_at ip (base s)" using Some by (simp add: room_at_def)
  have ok: "room_ok room'"
    using assms(1) room_ok_filter unfolding room'_def room ivl_inv_def by blast
  have "ip \<in> addrs (base s)" using Some map_of_eq_None_iff [of "rooms (base s)" ip] by (simp add: addrs_def)
  then have addrs: "addrs st = addrs (base s)" using addrs_update [OF st] by auto
  have "ip \<in># emptied s" if "room' = []" "\<not> e"
    using that e Some assms(1) unfolding ivl_inv_def by auto
  with assms(1) ok st addrs show ?thesis
    unfolding ivl_inv_def upcoming_def
    by (auto simp: distinct_update update_conv' room_at_def)
qed

lemma remove_finish_inv:
  assumes "ivl_inv k s" "ip \<in># emptied s"
  shows "ivl_inv k (s\<lparr>base := remove_room ip (base s), emptied := emptied s - {#ip#}\<rparr>)" (is "ivl_inv k ?t")
proof -
  let ?st = "remove_room ip (base s)"
  have addrs: "addrs ?st = addrs (base s) - {ip}"
    using delete_keys [of ip "rooms (base s)", THEN arg_cong, of set]
    by (simp add: addrs_def remove_room_def)
  have "card (addrs ?st) + card (upcoming ?t) \<le> card (addrs (base s)) + card (upcoming s)"
  proof (cases "ip \<in> addrs (base s)")
    case True
    have "upcoming ?t \<subseteq> insert ip (upcoming s)" by (auto simp: upcoming_def addrs)
    then have "card (upcoming ?t) \<le> card (insert ip (upcoming s))" by (intro card_mono) auto
    also have "\<dots> \<le> Suc (card (upcoming s))" by (simp add: card_insert_if)
    finally have "card (upcoming ?t) \<le> Suc (card (upcoming s))" .
    moreover have "Suc (card (addrs ?st)) = card (addrs (base s))"
      using True by (simp add: addrs card_Suc_Diff1 del: card_Diff_insert)
    ultimately show ?thesis by simp
  next
    case False
    then have "addrs ?st = addrs (base s)" "upcoming ?t = upcoming s"
      by (auto simp: addrs upcoming_def)
    then show ?thesis by simp
  qed
  moreover have "distinct (map fst (rooms ?st))" "map_of (rooms ?st) = (map_of (rooms (base s)))(ip := None)"
    using assms(1) by (simp_all add: ivl_inv_def remove_room_def distinct_delete delete_conv')
  moreover have "room_ok (room_at i ?st)" for i
    using assms(1) calculation(3) unfolding ivl_inv_def by (simp add: room_at_def)
  moreover have "i \<in># emptied s - {#ip#}" if "map_of (rooms ?st) i = Some []" for i
    using that assms(1) calculation(3) unfolding ivl_inv_def
    by (auto simp: in_diff_count split: if_splits)
  ultimately show ?thesis using assms(1) unfolding ivl_inv_def by simp
qed

lemma ivl_inv_new: "0 < k \<Longrightarrow> ivl_inv k ivl_new"
  by (simp add: ivl_inv_def ivl_new_def room_at_def room_manager_new_def addrs_def upcoming_def)

interpretation isys: invariant_system "\<lambda>s. s = ivl_new" "ivl_step (Suc k)" "ivl_inv (Suc k)"
proof unfold_locales
  fix s t :: "'v ivl"
  assume inv: "ivl_inv (Suc k) s"
  assume "ivl_step (Suc k) s t"
  then show "ivl_inv (Suc k) t"
  proof (cases rule: ivl_step.cases)
    case (add_refused ip peer st)
    then have "rooms st = rooms (base s)" by (auto simp: add_peer_begin_def Let_def)
    with add_refused inv show ?thesis by (simp add: ivl_inv_frame)
  next
    case (remove_begin ip code sid e st)
    with remove_begin_inv [OF inv remove_begin(2)] show ?thesis by simp
  qed (use inv in \<open>auto intro: add_begin_inv add_finish_room remove_finish_inv ivl_inv_frame\<close>)
qed (simp add: ivl_inv_new)

section \<open>Properties\<close>

text \<open>
  What the locks guarantee under any interleaving. With at most \<open>k + 1\<close> handlers inside
  \<open>add_peer\<close> at a time, addresses have one room each, no room ever exceeds 256 peers or
  holds a code twice, the table has at most \<open>k\<close> rooms more than its limit (the test of the
  limit is not atomic with the insertion), and a room without peers exists only while a
  \<open>remove_peer\<close> of its address is between its two halves.
\<close>

lemma interleaved_rooms_bounded:
  assumes "reachable (\<lambda>s. s = ivl_new) (ivl_step (Suc k)) s"
  shows "distinct (map fst (rooms (base s))) \<and>
    (\<forall>ip. length (room_at ip (base s)) \<le> 256 \<and> distinct (map peer_code (room_at ip (base s)))) \<and>
    room_count (base s) \<le> 65536 + k \<and>
    (\<forall>ip. map_of (rooms (base s)) ip = Some [] \<longrightarrow> ip \<in># emptied s)"
proof -
  have inv: "ivl_inv (Suc k) s" using isys.inv_reachable [OF assms] .
  have "card (addrs (base s)) = room_count (base s)"
    using inv distinct_card [of "map fst (rooms (base s))"]
    by (simp add: ivl_inv_def addrs_def room_count_def)
  with inv have "room_count (base s) \<le> 65536 + k"
    by (simp add: ivl_inv_def MAX_ROOMS_def)
  with inv show ?thesis by (auto simp: ivl_inv_def room_ok_def MAX_PEERS_PER_ROOM_def)
qed

lemma interleaved_rooms_bounded_witness:
  "room_count (base (ivl_new\<lparr>base := (room_manager_new :: nat rv_state)\<lparr>next_session := 2\<rparr>,
     adding := {#(''10.0.0.1'', make_peer ''AAA'' ''First'' 0\<lparr>session_id := 1\<rparr>)#}\<rparr>)) \<le> 65536"
proof -
  let ?p = "make_peer ''AAA'' ''First'' 0"
  let ?st = "(room_manager_new :: nat rv_state)\<lparr>next_session := 2\<rparr>"
  let ?s = "ivl_new\<lparr>base := ?st, adding := {#(''10.0.0.1'', ?p\<lparr>session_id := 1\<rparr>)#}\<rparr>"
  have "add_peer_begin ''10.0.0.1'' ?p (base ivl_new) = (Some (?p\<lparr>session_id := 1\<rparr>), ?st)"
    by (simp add: add_peer_begin_def add_peer_refused_def ivl_new_def room_manager_new_def Let_def
        MAX_ROOMS_def)
  from add_begin [OF _ this, of "Suc 0"]
  have "ivl_step (Suc 0) ivl_new ?s" by (simp add: ivl_new_def)
  then have "reachable (\<lambda>s. s = ivl_new) (ivl_step (Suc 0)) ?s"
    by (intro reach_step [OF reach_init]) simp_all
  from interleaved_rooms_bounded [OF this] show ?thesis by simp
qed


end
