(* ===== verification/Linearization.thy ===== *)
theory Linearization
  imports Interleaving
begin

text \<open>
  What the interleaved room manager still promises. Seen through the directory, every piece
  of a concurrent \<open>add_peer\<close> or \<open>remove_peer\<close> is one whole operation of the contract or
  nothing at all, at one moment between the call and its return; the only exception is the
  deletion of a room that has been refilled since it was found empty.
\<close>

section \<open>The abstract directory\<close>

type_synonym dir = "string \<times> string \<Rightarrow> peer_info option"

inductive dir_step :: "dir \<Rightarrow> dir \<Rightarrow> bool" where
  dir_idle: "dir_step d d"
| dir_put: "dir_step d (d((ip, peer_code p) \<mapsto> p))"
| dir_take: "d (ip, code) = Some p \<Longrightarrow> session_id p = sid \<Longrightarrow> dir_step d (d((ip, code) := None))"

definition forget_room :: "string \<Rightarrow> dir \<Rightarrow> dir" where
  "forget_room ip d = (\<lambda>(i, code). if i = ip then None else d (i, code))"

section \<open>The pieces, seen through the directory\<close>

lemma find_room_at: "List.find (\<lambda>p. peer_code p = code) (room_at ip st) = directory st (ip, code)"
  by (simp add: directory_def)

lemma find_removed:
  "distinct (map f room) \<Longrightarrow>
     List.find (\<lambda>p. f p = c) (filter (\<lambda>p. \<not> (f p = k \<and> Q p)) room) =
     (if c = k \<and> (\<exists>p. List.find (\<lambda>p. f p = k) room = Some p \<and> Q p) then None
      else List.find (\<lambda>p. f p = c) room)"
  by (induction room) (auto simp: find_None_iff image_iff)

lemma room_ok_others_full:
  assumes "room_ok (room_at ip st)" "length (others ip code st) \<ge> MAX_PEERS_PER_ROOM"
  shows "others ip code st = room_at ip st"
proof -
  have "length (others ip code st) \<le> length (room_at ip st)" by (simp add: others_def)
  moreover have "length (room_at ip st) \<le> MAX_PEERS_PER_ROOM"
    using assms(1) by (simp add: room_ok_def)
  ultimately have "length (filter (\<lambda>p. peer_code p \<noteq> code) (room_at ip st)) = length (room_at ip st)"
    using assms(2) unfolding others_def by linarith
  then have "\<forall>p\<in>set (room_at ip st). peer_code p \<noteq> code"
    by (metis (mono_tags, lifting) length_filter_less less_irrefl)
  then show ?thesis by (simp add: others_def)
qed

lemma add_peer_entry_dir:
  assumes "room_ok (room_at ip st)" "add_peer_entry ip p st = (r, st')"
  shows "directory st' = (case r of
      Inl _ \<Rightarrow> directory st | Inr _ \<Rightarrow> (directory st)((ip, peer_code p) \<mapsto> p))"
proof -
  have "distinct (map peer_code (room_at ip st))" using assms(1) by (simp add: room_ok_def)
  then have full: "(case r of Inl _ \<Rightarrow> True | Inr _ \<Rightarrow> False) \<longleftrightarrow>
      length (others ip (peer_code p) st) \<ge> MAX_PEERS_PER_ROOM"
    using assms(2) unfolding add_peer_entry_def Let_def others_def
    by (auto simp: remove_position_eq_filter split: if_splits)
  let ?room = "if length (others ip (peer_code p) st) \<ge> MAX_PEERS_PER_ROOM
     then others ip (peer_code p) st else others ip (peer_code p) st @ [p]"
  have st': "directory st' = directory (st\<lparr>rooms := AList.update ip ?room (rooms st)\<rparr>)"
    by (rule directory_cong) (simp add: add_peer_entry_rooms [OF assms])
  show ?thesis
  proof (cases "length (others ip (peer_code p) st) \<ge> MAX_PEERS_PER_ROOM")
    case True
    with full obtain e where "r = Inl e" by (cases r) auto
    with room_ok_others_full [OF assms(1) True] True show ?thesis
      unfolding st' by (intro ext) (auto simp: directory_update find_room_at)
  next
    case False
    have "List.find (\<lambda>q. peer_code q = c) (others ip (peer_code p) st @ [p]) =
        (if c = peer_code p then Some p else directory st (ip, c))" for c
      by (auto simp: find_append find_others split: option.split)
    then have "directory (st\<lparr>rooms := AList.update ip (others ip (peer_code p) st @ [p]) (rooms st)\<rparr>) (i, c) =
        (if i = ip then (if c = peer_code p then Some p else directory st (ip, c)) else directory st (i, c))" for i c
      by (simp only: directory_update)
    with False show ?thesis
      using full unfolding st' by (auto simp: fun_eq_iff split: sum.splits)
  qed
qed

lemma remove_peer_locked_dir:
  assumes "room_ok (room_at ip st)" "remove_peer_locked ip code sid st = (e, st')"
  shows "directory st' =
    (if \<exists>p. directory st (ip, code) = Some p \<and> session_id p = sid
     then (directory st)((ip, code) := None) else directory st)"
proof -
  have distinct: "distinct (map peer_code (room_at ip st))" using assms(1) by (simp add: room_ok_def)
  let ?room = "filter (\<lambda>p. \<not> (peer_code p = code \<and> session_id p = sid)) (room_at ip st)"
  have "directory st' = directory (st\<lparr>rooms := AList.update ip ?room (rooms st)\<rparr>)"
  proof (cases "map_of (rooms st) ip")
    case None
    with assms(2) show ?thesis
      by (intro ext) (auto simp: remove_peer_locked_def update_conv' room_at_def directory_def)
  next
    case (Some room)
    with assms(2) show ?thesis
      unfolding remove_peer_locked_def Let_def
      by (auto split: if_splits simp: room_at_def intro!: directory_cong)
  qed
  moreover have "directory (st\<lparr>rooms := AList.update ip ?room (rooms st)\<rparr>) (i, c) =
      (if i = ip then
         (if c = code \<and> (\<exists>p. directory st (ip, code) = Some p \<and> session_id p = sid)
          then None else directory st (ip, c))
       else directory st (i, c))" for i c
    by (simp only: directory_update find_removed [OF distinct] find_room_at)
  then have "directory (st\<lparr>rooms := AList.update ip ?room (rooms st)\<rparr>) =
      (if \<exists>p. directory st (ip, code) = Some p \<and> session_id p = sid
       then (directory st)((ip, code) := None) else directory st)"
    by (auto simp: fun_eq_iff)
  ultimately show ?thesis by simp
qed

lemma remove_room_dir:
  assumes "distinct (map fst (rooms st))"
  shows "directory (remove_room ip st) = forget_room ip (directory st)"
  using assms by (auto simp: directory_def forget_room_def remove_room_def room_at_def delete_conv' fun_eq_iff)

text \<open>
  Concurrent registrations and departures are linearisable, but for one race. Whatever
  runs in between, every piece of a half-done \<open>add_peer\<close> or \<open>remove_peer\<close> either leaves the
  directory alone or is one registration or one removal of a session's own entry; except that
  the second half of \<open>remove_peer\<close> forgets a whole room when the room has been refilled since
  the first half emptied it.
\<close>

lemma interleaving_linearizable:
  assumes "reachable (\<lambda>s. s = ivl_new) (ivl_step (Suc k)) s" "ivl_step (Suc k) s t"
  shows "dir_step (directory (base s)) (directory (base t)) \<or>
    (\<exists>ip. ip \<in># emptied s \<and> room_at ip (base s) \<noteq> [] \<and>
       directory (base t) = forget_room ip (directory (base s)))"
proof -
  have inv: "ivl_inv (Suc k) s" using isys.inv_reachable [OF assms(1)] .
  then have ok: "room_ok (room_at ip (base s))" for ip by (simp add: ivl_inv_def)
  show ?thesis
    using assms(2)
  proof (cases rule: ivl_step.cases)
    case (add_begin ip peer p st)
    then have "directory (base t) = directory (base s)"
      by (auto simp: add_peer_begin_def Let_def intro!: directory_cong)
    then show ?thesis using dir_idle by simp
  next
    case (add_refused ip peer st)
    then have "directory (base t) = directory (base s)"
      by (auto simp: add_peer_begin_def Let_def intro!: directory_cong)
    then show ?thesis using dir_idle by simp
  next
    case (add_finish ip p r st)
    with add_peer_entry_dir [OF ok add_finish(3)] show ?thesis
      using dir_idle dir_put by (cases r) auto
  next
    case (remove_begin ip code sid e st)
    with remove_peer_locked_dir [OF ok remove_begin(2)] show ?thesis
      using dir_idle dir_take by fastforce
  next
    case (remove_finish ip)
    have t: "directory (base t) = forget_room ip (directory (base s))"
      using remove_finish(1) remove_room_dir [of "base s" ip] inv by (simp add: ivl_inv_def)
    show ?thesis
    proof (cases "room_at ip (base s) = []")
      case True
      then have "forget_room ip (directory (base s)) = directory (base s)"
        by (auto simp: forget_room_def directory_def)
      with t show ?thesis using dir_idle by simp
    next
      case False
      with t remove_finish(2) show ?thesis by blast
    qed
  next
    case (ivl_channels cs)
    then have "directory (base t) = directory (base s)" by (auto intro!: directory_cong)
    then show ?thesis using dir_idle by simp
  qed
qed

lemma interleaving_linearizable_witness:
  "\<exists>t :: nat ivl. dir_step (directory (base (ivl_new :: nat ivl))) (directory (base t)) \<and> size (adding t) = 1"
proof -
  let ?p = "(make_peer ''AAA'' ''First'' 0)\<lparr>session_id := 1\<rparr>"
  let ?t = "ivl_new\<lparr>base := room_manager_new\<lparr>next_session := 2\<rparr>,
    adding := {#(''10.0.0.1'', ?p)#}\<rparr> :: nat ivl"
  have "ivl_step (Suc 0) ivl_new ((ivl_new :: nat ivl)\<lparr>base := room_manager_new\<lparr>next_session := 2\<rparr>,
      adding := add_mset (''10.0.0.1'', ?p) (adding (ivl_new :: nat ivl))\<rparr>)"
    by (rule add_begin [where peer = "make_peer ''AAA'' ''First'' 0"])
      (simp_all add: ivl_new_def add_peer_begin_def add_peer_refused_def room_manager_new_def MAX_ROOMS_def Let_def)
  then have "ivl_step (Suc 0) ivl_new ?t" by (simp add: ivl_new_def)
  from interleaving_linearizable [OF reach_init this]
  have "dir_step (directory (base (ivl_new :: nat ivl))) (directory (base ?t))" by (simp add: ivl_new_def)
  then show ?thesis by (intro exI [of _ ?t]) simp
qed

end
