(* ===== verification/Pieces.thy ===== *)
theory Pieces
  imports Connection_Properties Linearization
begin

text \<open>
  One turn of \<open>handle_connection\<close> (\<open>signal/src/server.rs\<close>) in the pieces that other tasks can
  see. The handler first decides, from its own state and the event alone, what to do; then it
  works through a few pieces, each of them one call that touches shared state: a look-up, a
  send, one of the two halves of \<open>add_peer\<close> and \<open>remove_peer\<close>, the abort of the write task.
  Between two pieces any other task may run. Broadcasts happen under the lock of the room and
  belong to the piece that holds it.
\<close>

section \<open>What the handler has still to do\<close>

datatype 'v pc =
    Waiting
  | Telling "'v server_message"
  | Refusing "'v server_message"
  | HangingUp
  | Joining peer_info
  | Entering peer_info
  | Looking string string 'v
  | LookingAnywhere string string 'v
  | Relaying bool string nat string 'v
  | Parting string u64
  | Clearing

text \<open>The decision: the handler's next state and its first piece.\<close>

definition decide_finish ::
    "string \<Rightarrow> string \<Rightarrow> device_type \<Rightarrow> string option \<Rightarrow> string option \<Rightarrow> conn \<Rightarrow> 'v pc" where
  "decide_finish code name dt url hash c =
     (case validate_peer_code code of
        Inl e \<Rightarrow> Refusing (ServerError e)
      | Inr code' \<Rightarrow>
          Joining \<lparr>peer_code = code', device_name = name, device_type = dt,
                   sender = conn_tx c, session_id = 0, wt_url = url, wt_cert_hash = hash\<rparr>)"

definition decide_register :: "conn \<Rightarrow> (string, 'v client_message) result \<Rightarrow> 'v pc" where
  "decide_register c msg =
     (case msg of
        Inr (Register code name dt url hash) \<Rightarrow>
          (case validate_device_name name of
             Inl e \<Rightarrow> Telling (ServerError e)
           | Inr _ \<Rightarrow> decide_finish code name dt url hash c)
      | Inr _ \<Rightarrow> Telling (ServerError ''must send 'register' as first message'')
      | Inl e \<Rightarrow> Telling (ServerError (''malformed message: '' @ e)))"

definition decide_message :: "string \<Rightarrow> (string, 'v client_message) result \<Rightarrow> 'v pc" where
  "decide_message code msg =
     (case msg of
        Inr (Signal to payload) \<Rightarrow>
          (case validate_signal_target to of
             Inl e \<Rightarrow> Telling (ServerError e)
           | Inr to' \<Rightarrow> Looking code to' payload)
      | Inr (ManualSignal to payload) \<Rightarrow>
          (case validate_signal_target to of
             Inl e \<Rightarrow> Telling (ServerError e)
           | Inr to' \<Rightarrow> LookingAnywhere code to' payload)
      | Inr Ping \<Rightarrow> Waiting
      | Inr (Register _ _ _ _ _) \<Rightarrow> Telling (ServerError ''already registered'')
      | Inl e \<Rightarrow> Telling (ServerError (''malformed message: '' @ e)))"

text \<open>Both loops treat what the stream yields alike, up to how they end and what a text means.\<close>

definition decide_item ::
    "(string \<Rightarrow> (string, 'v client_message) result) \<Rightarrow> nat \<Rightarrow> ws_next \<Rightarrow> 'v pc \<Rightarrow>
     ((string, 'v client_message) result \<Rightarrow> 'v pc) \<Rightarrow> conn \<Rightarrow> conn \<times> 'v pc" where
  "decide_item from_str now item leave parsed c =
     (case item of
        Some (Inr (Text text)) \<Rightarrow>
          (case rate_limit_check now (conn_limit c) of
             (r, rl) \<Rightarrow>
               (c\<lparr>conn_limit := rl\<rparr>,
                case r of
                  Inl True \<Rightarrow> leave
                | Inl False \<Rightarrow> Telling (ServerError ''rate limited'')
                | Inr _ \<Rightarrow>
                    (case validate_message_size (length text) of
                       Inl e \<Rightarrow> Telling (ServerError e)
                     | Inr _ \<Rightarrow> parsed (from_str text))))
      | Some (Inr (Binary _)) \<Rightarrow> (c, Telling (ServerError ''binary frames not accepted''))
      | Some (Inr (PingFrame _)) \<Rightarrow> (c, Waiting)
      | Some (Inr (PongFrame _)) \<Rightarrow> (c, Waiting)
      | Some (Inr CloseFrame) \<Rightarrow> (c, leave)
      | None \<Rightarrow> (c, leave)
      | Some (Inr (RawFrame _)) \<Rightarrow> (c, Waiting)
      | Some (Inl _) \<Rightarrow> (c, leave))"

definition decide ::
    "(string \<Rightarrow> (string, 'v client_message) result) \<Rightarrow> nat \<Rightarrow> wait \<Rightarrow> conn \<Rightarrow> conn \<times> 'v pc" where
  "decide from_str now w c =
     (case conn_phase c of
        Registering \<Rightarrow>
          (case w of
             Elapsed \<Rightarrow> (c, Waiting)
           | Ready item \<Rightarrow> decide_item from_str now item HangingUp (decide_register c) c)
      | Registered code sid \<Rightarrow>
          (case w of
             Elapsed \<Rightarrow> (c, Parting code sid)
           | Ready item \<Rightarrow> decide_item from_str now item (Parting code sid) (decide_message code) c)
      | Closed \<Rightarrow> (c, Waiting))"

text \<open>One piece.\<close>

fun piece :: "conn \<Rightarrow> 'v pc \<Rightarrow> 'v rv_state \<Rightarrow> conn \<times> 'v pc \<times> 'v rv_state" where
  "piece c Waiting st = (c, Waiting, st)"
| "piece c (Telling m) st = (c, Waiting, reply c m st)"
| "piece c (Refusing m) st = (c, HangingUp, reply c m st)"
| "piece c HangingUp st = (c\<lparr>conn_phase := Closed\<rparr>, Waiting, abort_write c st)"
| "piece c (Joining p) st =
     (case add_peer_begin (conn_ip c) p st of
        (None, st') \<Rightarrow>
          (c, Refusing (ServerError (''room limit reached ('' @ show_nat MAX_ROOMS @ '')'')), st')
      | (Some p', st') \<Rightarrow> (c, Entering p', st'))"
| "piece c (Entering p) st =
     (case add_peer_entry (conn_ip c) p st of
        (Inl e, st') \<Rightarrow> (c, Refusing (ServerError e), st')
      | (Inr existing, st') \<Rightarrow>
          (c\<lparr>conn_phase := Registered (peer_code p) (session_id p)\<rparr>, Telling (Peers existing), st'))"
| "piece c (Looking code to payload) st =
     (c,
      case find_peer (conn_ip c) to st of
        Some target \<Rightarrow> Relaying False code target to payload
      | None \<Rightarrow> Telling (ServerError (''peer '' @ quoted to @ '' not found'')), st)"
| "piece c (LookingAnywhere code to payload) st =
     (c,
      case find_peer_manual to st of
        Found target \<Rightarrow> Relaying True code target to payload
      | Ambiguous \<Rightarrow> Telling (ServerError (''peer '' @ quoted to @ '' is ambiguous''))
      | NotFound \<Rightarrow> Telling (ServerError (''peer '' @ quoted to @ '' not found'')), st)"
| "piece c (Relaying manual code target to payload) st =
     (case send target (ServerSignal code payload) st of
        (True, st') \<Rightarrow> (c, Waiting, st')
      | (False, st') \<Rightarrow>
          (c, Telling (ServerError (''peer '' @ quoted to @ '' is no longer connected'')), st'))"
| "piece c (Parting code sid) st =
     (case remove_peer_locked (conn_ip c) code sid st of
        (last_one, st') \<Rightarrow> (c, if last_one then Clearing else HangingUp, st'))"
| "piece c Clearing st = (c, HangingUp, remove_room (conn_ip c) st)"

section \<open>A turn is its pieces\<close>

fun pieces :: "nat \<Rightarrow> conn \<Rightarrow> 'v pc \<Rightarrow> 'v rv_state \<Rightarrow> conn \<times> 'v pc \<times> 'v rv_state" where
  "pieces 0 c pc st = (c, pc, st)"
| "pieces (Suc n) c pc st = (case piece c pc st of (c', pc', st') \<Rightarrow> pieces n c' pc' st')"

lemma pieces_Waiting [simp]: "pieces n c Waiting st = (c, Waiting, st)"
  by (induction n) simp_all

declare pieces.simps(2) [simp del]

lemma pieces_simps [simp]:
  "pieces (Suc n) c (Telling m) st = (c, Waiting, reply c m st)"
  "pieces (Suc n) c HangingUp st = (c\<lparr>conn_phase := Closed\<rparr>, Waiting, abort_write c st)"
  "pieces (Suc (Suc n)) c (Refusing m) st = (c\<lparr>conn_phase := Closed\<rparr>, Waiting, abort_write c (reply c m st))"
  by (simp_all add: pieces.simps(2))

lemma pieces_relay [simp]:
  "pieces (Suc (Suc n)) c (Relaying manual code target to payload) st = (c, Waiting, relay code to payload target c st)"
  by (cases "send target (ServerSignal code payload) st"; cases "fst (send target (ServerSignal code payload) st)")
    (simp_all add: relay_def pieces.simps(2))

lemma pieces_look [simp]:
  "pieces (Suc (Suc (Suc n))) c (Looking code to payload) st =
     (c, Waiting,
      case find_peer (conn_ip c) to st of
        Some target \<Rightarrow> relay code to payload target c st
      | None \<Rightarrow> reply c (ServerError (''peer '' @ quoted to @ '' not found'')) st)"
  "pieces (Suc (Suc (Suc n))) c (LookingAnywhere code to payload) st =
     (c, Waiting,
      case find_peer_manual to st of
        Found target \<Rightarrow> relay code to payload target c st
      | Ambiguous \<Rightarrow> reply c (ServerError (''peer '' @ quoted to @ '' is ambiguous'')) st
      | NotFound \<Rightarrow> reply c (ServerError (''peer '' @ quoted to @ '' not found'')) st)"
  by (simp_all add: pieces.simps(2) [where pc = "Looking code to payload"]
      pieces.simps(2) [where pc = "LookingAnywhere code to payload"] split: option.split manual_peer_lookup.split)

lemma pieces_leave [simp]:
  "pieces (Suc (Suc (Suc n))) c (Parting code sid) st =
     (c\<lparr>conn_phase := Closed\<rparr>, Waiting, abort_write c (remove_peer (conn_ip c) code sid st))"
proof -
  obtain e st1 where "remove_peer_locked (conn_ip c) code sid st = (e, st1)" by fastforce
  then show ?thesis
    by (simp add: remove_peer_def pieces.simps(2) [where pc = "Parting code sid"]
        pieces.simps(2) [where pc = Clearing])
qed

lemma pieces_join [simp]:
  "pieces (Suc (Suc (Suc (Suc n)))) c (Joining p) st =
     (case add_peer (conn_ip c) p st of
        (Inl e, st') \<Rightarrow> (c\<lparr>conn_phase := Closed\<rparr>, Waiting, abort_write c (reply c (ServerError e) st'))
      | (Inr (existing, sid), st') \<Rightarrow>
          (c\<lparr>conn_phase := Registered (peer_code p) sid\<rparr>, Waiting, reply c (Peers existing) st'))"
proof (cases "add_peer_begin (conn_ip c) p st")
  case (Pair r st1)
  show ?thesis
  proof (cases r)
    case None
    with Pair show ?thesis by (simp add: add_peer_halves pieces.simps(2) [where pc = "Joining p"])
  next
    case (Some p')
    with Pair have p': "peer_code p' = peer_code p" by (auto simp: add_peer_begin_def Let_def split: if_splits)
    obtain r' st2 where "add_peer_entry (conn_ip c) p' st1 = (r', st2)" by fastforce
    with Pair Some p' show ?thesis
      by (cases r') (simp_all add: add_peer_halves reply_def pieces.simps(2) [where pc = "Joining p"]
        pieces.simps(2) [where pc = "Entering p'"])
  qed
qed

lemma turn_frame [simp]:
  "reply (c\<lparr>conn_limit := rl\<rparr>) m st = reply c m st" "reply (c\<lparr>conn_phase := ph\<rparr>) m st = reply c m st"
  "abort_write (c\<lparr>conn_limit := rl\<rparr>) st = abort_write c st"
  by (simp_all add: reply_def abort_write_def)


section \<open>No turn waits for another\<close>

text \<open>The same pieces when other tasks change the state before each of them.\<close>

fun disturbed :: "nat \<Rightarrow> (nat \<Rightarrow> 'v rv_state) \<Rightarrow> conn \<Rightarrow> 'v pc \<Rightarrow> conn \<times> 'v pc" where
  "disturbed 0 sts c pc = (c, pc)"
| "disturbed (Suc n) sts c pc =
     (case piece c pc (sts n) of (c', pc', _) \<Rightarrow> disturbed n sts c' pc')"

fun pieces_left :: "'v pc \<Rightarrow> nat" where
  "pieces_left Waiting = 0"
| "pieces_left (Telling m) = 1"
| "pieces_left HangingUp = 1"
| "pieces_left (Refusing m) = 2"
| "pieces_left (Relaying manual code target to payload) = 2"
| "pieces_left Clearing = 2"
| "pieces_left (Looking code to payload) = 3"
| "pieces_left (LookingAnywhere code to payload) = 3"
| "pieces_left (Parting code sid) = 3"
| "pieces_left (Entering p) = 3"
| "pieces_left (Joining p) = 4"

lemma pieces_left_0 [simp]: "pieces_left pc = 0 \<longleftrightarrow> pc = Waiting"
  by (cases pc) simp_all

lemma pieces_left_decreases: "piece c pc st = (c', pc', st') \<Longrightarrow> pieces_left pc' \<le> pieces_left pc - 1"
  by (cases pc) (auto split: prod.splits option.splits sum.splits bool.splits manual_peer_lookup.splits if_splits)

lemma disturbed_done: "pieces_left pc \<le> n \<Longrightarrow> snd (disturbed n sts c pc) = Waiting"
proof (induction n arbitrary: c pc)
  case (Suc n)
  obtain c' pc' st' where p: "piece c pc (sts n) = (c', pc', st')" by (metis prod_cases3)
  with pieces_left_decreases [OF p] Suc show ?case by simp
qed simp



end
