(* ===== verification/Concurrent.thy ===== *)
theory Concurrent
  imports Pieces Server_System
begin

text \<open>
  The server with its handlers running truly at the same time: any number of connections, at
  most \<open>m\<close> of them open at once, each somewhere in its turn, and at every step one of them
  does one piece. The room manager inside is shown to be the interleaved one, so what is
  proved of half-done operations holds for real handlers.
\<close>

section \<open>The system\<close>

record 'v conc =
  shared :: "'v rv_state"
  hands :: "nat \<Rightarrow> (conn \<times> 'v pc) option"

definition conc_new :: "'v conc" where
  "conc_new = \<lparr>shared = room_manager_new, hands = Map.empty\<rparr>"

definition live :: "'v conc \<Rightarrow> nat set" where
  "live s = {tx. \<exists>c pc. hands s tx = Some (c, pc) \<and> conn_phase c \<noteq> Closed}"

inductive conc_step ::
    "(string \<Rightarrow> (string, 'v client_message) result) \<Rightarrow> nat \<Rightarrow> 'v conc \<Rightarrow> 'v conc \<Rightarrow> bool"
  for from_str :: "string \<Rightarrow> (string, 'v client_message) result" and m :: nat where
  conc_open: "hands s tx = None \<Longrightarrow> card (live s) < m \<Longrightarrow>
     open_connection ip tx now (shared s) = (c, st) \<Longrightarrow>
     conc_step from_str m s (s\<lparr>shared := st, hands := (hands s)(tx \<mapsto> (c, Waiting))\<rparr>)"
| conc_event: "hands s tx = Some (c, Waiting) \<Longrightarrow> decide from_str now w c = (c', pc) \<Longrightarrow>
     conc_step from_str m s (s\<lparr>hands := (hands s)(tx \<mapsto> (c', pc))\<rparr>)"
| conc_piece: "hands s tx = Some (c, pc) \<Longrightarrow> piece c pc (shared s) = (c', pc', st) \<Longrightarrow>
     conc_step from_str m s (s\<lparr>shared := st, hands := (hands s)(tx \<mapsto> (c', pc'))\<rparr>)"
| conc_write: "conc_step from_str m s (s\<lparr>shared := write_task_step tx ok (shared s)\<rparr>)"

section \<open>The half-done operations of the handlers\<close>

fun adds :: "(conn \<times> 'v pc) option \<Rightarrow> (string \<times> peer_info) multiset" where
  "adds (Some (c, Entering p)) = {#(conn_ip c, p)#}"
| "adds h = {#}"

fun clears :: "(conn \<times> 'v pc) option \<Rightarrow> string multiset" where
  "clears (Some (c, Clearing)) = {#conn_ip c#}"
| "clears h = {#}"

definition conc_ivl :: "'v conc \<Rightarrow> 'v ivl" where
  "conc_ivl s = \<lparr>base = shared s, adding = (\<Sum>tx\<in>dom (hands s). adds (hands s tx)),
     emptied = (\<Sum>tx\<in>dom (hands s). clears (hands s tx))\<rparr>"

lemma sum_dom_upd:
  fixes f :: "'h option \<Rightarrow> 'b multiset"
  assumes "finite (dom h)" "f None = {#}"
  shows "(\<Sum>t\<in>dom (h(tx \<mapsto> x)). f ((h(tx \<mapsto> x)) t)) + f (h tx) = (\<Sum>t\<in>dom h. f (h t)) + f (Some x)"
proof -
  have "(\<Sum>t\<in>dom (h(tx \<mapsto> x)). f ((h(tx \<mapsto> x)) t)) = f (Some x) + (\<Sum>t\<in>dom h - {tx}. f (h t))"
    using assms(1) by (simp add: sum.insert_remove)
  moreover have "(\<Sum>t\<in>dom h. f (h t)) = f (h tx) + (\<Sum>t\<in>dom h - {tx}. f (h t))"
  proof (cases "tx \<in> dom h")
    case True
    with assms(1) show ?thesis by (rule sum.remove)
  next
    case False
    with assms(2) show ?thesis by (simp add: domIff)
  qed
  ultimately show ?thesis by (simp add: ac_simps)
qed

lemma adds_eq: "adds h = (case h of Some (c, Entering p) \<Rightarrow> {#(conn_ip c, p)#} | _ \<Rightarrow> {#})"
  by (cases h rule: adds.cases) simp_all

lemma clears_eq: "clears h = (case h of Some (c, Clearing) \<Rightarrow> {#conn_ip c#} | _ \<Rightarrow> {#})"
  by (cases h rule: clears.cases) simp_all

text \<open>A step of one handler changes the half-done operations by its own share.\<close>

lemma conc_ivl_upd:
  assumes "finite (dom (hands s))"
  shows "adding (conc_ivl (s\<lparr>shared := st, hands := (hands s)(tx \<mapsto> x)\<rparr>)) + adds (hands s tx) =
      adding (conc_ivl s) + adds (Some x)"
    "emptied (conc_ivl (s\<lparr>shared := st, hands := (hands s)(tx \<mapsto> x)\<rparr>)) + clears (hands s tx) =
      emptied (conc_ivl s) + clears (Some x)"
  using sum_dom_upd [OF assms, of adds] sum_dom_upd [OF assms, of clears]
  by (simp_all add: conc_ivl_def del: dom_fun_upd)

lemma conc_ivl_base [simp]: "base (conc_ivl s) = shared s"
  by (simp add: conc_ivl_def)

lemma ivl_eqI: "base a = base b \<Longrightarrow> adding a = adding b \<Longrightarrow> emptied a = emptied b \<Longrightarrow> a = (b :: 'v ivl)"
  by (cases a; cases b) simp

lemma conc_ivl_frame:
  assumes "finite (dom (hands s))" "adds (hands s tx) = adds (Some x)" "clears (hands s tx) = clears (Some x)"
  shows "conc_ivl (s\<lparr>shared := st, hands := (hands s)(tx \<mapsto> x)\<rparr>) = (conc_ivl s)\<lparr>base := st\<rparr>"
  using conc_ivl_upd [OF assms(1), where st = st and tx = tx and x = x] assms(2,3) by (intro ivl_eqI) simp_all

section \<open>Invariant\<close>

definition entrant :: "conn \<Rightarrow> peer_info \<Rightarrow> bool" where
  "entrant c p \<longleftrightarrow> conn_phase c = Registering \<and> sender p = conn_tx c \<and> valid_code (peer_code p) \<and>
     length (device_name p) \<le> MAX_DEVICE_NAME_BYTES"

definition registered_as :: "conn \<Rightarrow> string \<Rightarrow> bool" where
  "registered_as c code \<longleftrightarrow> (\<exists>sid. conn_phase c = Registered code sid)"

fun own_answer :: "'v server_message \<Rightarrow> bool" where
  "own_answer (Peers ps) = True"
| "own_answer (ServerError e) = True"
| "own_answer _ = False"

text \<open>What a handler in the middle of its turn knows.\<close>

fun pc_ok :: "'v conc \<Rightarrow> conn \<Rightarrow> 'v pc \<Rightarrow> bool" where
  "pc_ok s c (Joining p) = entrant c p"
| "pc_ok s c (Entering p) = entrant c p"
| "pc_ok s c (Looking code to payload) = registered_as c code"
| "pc_ok s c (LookingAnywhere code to payload) = registered_as c code"
| "pc_ok s c (Relaying manual code target to payload) =
     (registered_as c code \<and>
      (\<exists>c' pc'. hands s target = Some (c', pc') \<and> (manual \<or> conn_ip c' = conn_ip c)))"
| "pc_ok s c (Parting code sid) = (conn_phase c = Registered code sid)"
| "pc_ok s c (Telling msg) = own_answer msg"
| "pc_ok s c (Refusing msg) = (conn_phase c = Registering \<and> own_answer msg)"
| "pc_ok s c _ = True"

definition backs :: "'v conc \<Rightarrow> string \<Rightarrow> string \<Rightarrow> peer_info \<Rightarrow> bool" where
  "backs s ip code p \<longleftrightarrow>
     (\<exists>c pc. hands s (sender p) = Some (c, pc) \<and> conn_ip c = ip \<and>
        conn_phase c = Registered code (session_id p) \<and> pc \<noteq> HangingUp \<and> pc \<noteq> Clearing)"

definition listing_ok :: "'v conc \<Rightarrow> bool" where
  "listing_ok s \<longleftrightarrow>
     (\<forall>ip code p. directory (shared s) (ip, code) = Some p \<longrightarrow>
        valid_code code \<and> length (device_name p) \<le> MAX_DEVICE_NAME_BYTES \<and> backs s ip code p)"

definition hands_ok :: "'v conc \<Rightarrow> bool" where
  "hands_ok s \<longleftrightarrow>
     (\<forall>tx c pc. hands s tx = Some (c, pc) \<longrightarrow>
        conn_tx c = tx \<and> (conn_phase c = Closed \<longrightarrow> pc = Waiting) \<and> pc_ok s c pc)"

definition conc_inv :: "nat \<Rightarrow> 'v conc \<Rightarrow> bool" where
  "conc_inv m s \<longleftrightarrow>
     finite (dom (hands s)) \<and> card (live s) \<le> m \<and> hands_ok s \<and> listing_ok s \<and> ivl_inv m (conc_ivl s)"

lemma hands_okD:
  assumes "conc_inv m s" "hands s tx = Some (c, pc)"
  shows "conn_tx c = tx" "conn_phase c = Closed \<Longrightarrow> pc = Waiting" "pc_ok s c pc"
  using assms unfolding conc_inv_def hands_ok_def by blast+

lemma backsD:
  assumes "conc_inv m s" "directory (shared s) (ip, code) = Some p"
  shows "backs s ip code p" "valid_code code" "length (device_name p) \<le> MAX_DEVICE_NAME_BYTES"
  using assms unfolding conc_inv_def listing_ok_def by blast+

lemma conc_inv_rooms:
  assumes "conc_inv m s"
  shows "room_ok (room_at ip (shared s))" "distinct (map fst (rooms (shared s)))"
  using assms by (simp_all add: conc_inv_def ivl_inv_def)

lemma finite_live: "finite (dom (hands s)) \<Longrightarrow> finite (live s)"
  by (erule finite_subset [rotated]) (auto simp: live_def)

section \<open>The room manager of the handlers is the interleaved one\<close>

text \<open>At most as many registrations are half done as connections are open.\<close>

lemma adding_below:
  assumes "finite (dom (hands s))" "hands_ok s" "hands s tx = Some (c, Joining p)" "conn_phase c \<noteq> Closed"
  shows "size (adding (conc_ivl s)) < card (live s)"
proof -
  have one: "size (adds h) \<le> 1" for h :: "(conn \<times> 'a pc) option" by (cases h rule: adds.cases) simp_all
  have "size (adding (conc_ivl s)) = (\<Sum>t\<in>dom (hands s). size (adds (hands s t)))"
    by (simp add: conc_ivl_def size_multiset_sum)
  also have "\<dots> = (\<Sum>t\<in>live s - {tx}. size (adds (hands s t)))"
  proof (rule sum.mono_neutral_right)
    show "\<forall>t\<in>dom (hands s) - (live s - {tx}). size (adds (hands s t)) = 0"
      using assms(2,3) by (force simp: live_def hands_ok_def)
  qed (use assms(1) in \<open>auto simp: live_def\<close>)
  also have "\<dots> \<le> card (live s - {tx})"
    using sum_bounded_above [of "live s - {tx}" "\<lambda>t. size (adds (hands s t))" 1] one by simp
  also have "\<dots> < card (live s)"
    using finite_live [OF assms(1)] assms(3,4) by (intro psubset_card_mono) (auto simp: live_def)
  finally show ?thesis .
qed

text \<open>A decision changes no more of the connection than its limiter and is always in order.\<close>

definition plan_ok :: "conn \<Rightarrow> 'v pc \<Rightarrow> bool" where
  "plan_ok c pc \<longleftrightarrow>
     (\<forall>s. pc_ok s c pc) \<and> (\<forall>p. pc \<noteq> Entering p) \<and> pc \<noteq> Clearing \<and>
     (conn_phase c = Closed \<longrightarrow> pc = Waiting) \<and> (pc = HangingUp \<longrightarrow> conn_phase c = Registering)"

lemma plan_ok_simple [simp]: "conn_phase c \<noteq> Closed \<Longrightarrow> plan_ok c (Telling (ServerError e))" "plan_ok c Waiting"
  by (simp_all add: plan_ok_def)

lemma plan_register:
  assumes "conn_phase c = Registering" "conn_tx c' = conn_tx c"
  shows "plan_ok c (decide_register c' msg)"
proof (cases "\<exists>code name dt url hash u. msg = Inr (Register code name dt url hash) \<and> validate_device_name name = Inr u")
  case True
  then obtain code name dt url hash u where r: "msg = Inr (Register code name dt url hash)"
    "validate_device_name name = Inr u" by blast
  note name = validate_device_name_ok [OF r(2)]
  show ?thesis
  proof (cases "validate_peer_code code")
    case (Inl e)
    with r assms show ?thesis by (simp add: decide_register_def decide_finish_def plan_ok_def)
  next
    case (Inr code')
    with r assms name reg.result_valid [OF Inr] show ?thesis
      by (simp add: decide_register_def decide_finish_def plan_ok_def entrant_def)
  qed
next
  case False
  with assms(1) show ?thesis
    by (auto simp: decide_register_def split: sum.split client_message.split)
qed

lemma plan_message: "conn_phase c = Registered code sid \<Longrightarrow> plan_ok c (decide_message code msg)"
  by (auto simp: decide_message_def plan_ok_def registered_as_def split: sum.split client_message.split)

lemma plan_item:
  assumes "decide_item from_str now item leave parsed c = (c', pc)" "conn_phase c \<noteq> Closed"
    "\<And>rl. plan_ok (c\<lparr>conn_limit := rl\<rparr>) leave" "\<And>rl msg. plan_ok (c\<lparr>conn_limit := rl\<rparr>) (parsed msg)"
  shows "\<exists>rl. c' = c\<lparr>conn_limit := rl\<rparr> \<and> plan_ok c' pc"
proof -
  have c: "c\<lparr>conn_limit := conn_limit c\<rparr> = c" by simp
  have leave: "plan_ok c leave" using assms(3) [of "conn_limit c"] by simp
  have same: "\<exists>rl. c = c\<lparr>conn_limit := rl\<rparr>" using c by metis
  from assms leave same show ?thesis
    unfolding decide_item_def
    by (auto split: option.splits sum.splits ws_message.splits prod.splits bool.splits)
qed

lemma decide_ok:
  assumes "decide from_str now w c = (c', pc)"
  obtains rl where "c' = c\<lparr>conn_limit := rl\<rparr>" "plan_ok c' pc"
proof -
  have same: "\<exists>rl. c = c\<lparr>conn_limit := rl\<rparr>" by (rule exI [of _ "conn_limit c"]) simp
  have "\<exists>rl. c' = c\<lparr>conn_limit := rl\<rparr> \<and> plan_ok c' pc"
  proof (cases "conn_phase c")
    case Registering
    show ?thesis
    proof (cases w)
      case Elapsed
      with Registering assms same show ?thesis by (simp add: decide_def)
    next
      case (Ready item)
      with Registering assms have "decide_item from_str now item HangingUp (decide_register c) c = (c', pc)"
        by (simp add: decide_def)
      then show ?thesis
        by (rule plan_item) (use Registering in \<open>auto simp: plan_ok_def [of _ HangingUp] intro: plan_register\<close>)
    qed
  next
    case (Registered code sid)
    have part: "plan_ok (c\<lparr>conn_limit := rl\<rparr>) (Parting code sid :: 'a pc)" for rl
      using Registered by (simp add: plan_ok_def)
    show ?thesis
    proof (cases w)
      case Elapsed
      with Registered assms same part [of "conn_limit c"] show ?thesis by (simp add: decide_def)
    next
      case (Ready item)
      with Registered assms
      have "decide_item from_str now item (Parting code sid) (decide_message code) c = (c', pc)"
        by (simp add: decide_def)
      then show ?thesis
        by (rule plan_item) (use Registered part in \<open>auto intro: plan_message\<close>)
    qed
  next
    case Closed
    with assms same show ?thesis by (simp add: decide_def)
  qed
  then show thesis using that by blast
qed

lemma ivl_channels_step:
  assumes "rooms st = rooms (base a)" "next_session st = next_session (base a)"
  shows "ivl_step k a (a\<lparr>base := st\<rparr>)"
proof -
  have "st = (base a)\<lparr>chans := chans st\<rparr>" using assms by simp
  then show ?thesis using ivl_channels [of k a "chans st"] by simp
qed

lemma send_rooms:
  "send tx m st = (r, st') \<Longrightarrow> rooms st' = rooms st \<and> next_session st' = next_session st"
  by (metis send_frame snd_conv)

text \<open>The pieces that only use channels.\<close>

lemma piece_channels:
  assumes "piece c pc st = (c', pc', st')" "\<forall>p. pc \<noteq> Joining p" "\<forall>p. pc \<noteq> Entering p"
    "\<forall>code sid. pc \<noteq> Parting code sid" "pc \<noteq> Clearing"
  shows "rooms st' = rooms st" "next_session st' = next_session st"
    "\<forall>p. pc' \<noteq> Entering p" "pc' \<noteq> Clearing"
  using assms by (cases pc; auto dest: send_rooms split: prod.splits bool.splits option.splits manual_peer_lookup.splits)+

lemma conc_ivl_step:
  assumes "conc_inv m s" "conc_step from_str m s t"
  shows "ivl_step m (conc_ivl s) (conc_ivl t)"
  using assms(2)
proof (cases rule: conc_step.cases)
  case (conc_open tx ip now c st)
  then have "rooms st = rooms (shared s)" "next_session st = next_session (shared s)"
    by (auto simp: open_connection_def)
  with conc_open conc_ivl_frame [of s tx "(c, Waiting)" st] assms(1) show ?thesis
    by (simp add: ivl_channels_step conc_inv_def)
next
  case (conc_event tx c now w c' pc)
  then have "t = s\<lparr>shared := shared s, hands := (hands s)(tx \<mapsto> (c', pc))\<rparr>" by simp
  moreover have "plan_ok c' pc" using decide_ok [OF conc_event(3)] by blast
  then have "adds (Some (c', pc)) = {#}" "clears (Some (c', pc)) = {#}"
    by (auto simp: plan_ok_def adds_eq clears_eq split: pc.splits)
  ultimately show ?thesis
    using conc_ivl_frame [of s tx "(c', pc)" "shared s"] conc_event(2) assms(1)
    by (simp add: ivl_channels_step conc_inv_def)
next
  case (conc_write tx ok)
  then have "conc_ivl t = (conc_ivl s)\<lparr>base := write_task_step tx ok (shared s)\<rparr>"
    by (simp add: conc_ivl_def)
  then show ?thesis by (simp add: ivl_channels_step)
next
  case (conc_piece tx c pc c' pc' st)
  have fin: "finite (dom (hands s))" using assms(1) by (simp add: conc_inv_def)
  note upd = conc_ivl_upd [OF fin, where st = st and tx = tx and x = "(c', pc')", folded conc_piece(1)]
  have ok: "pc_ok s c pc" using hands_okD [OF assms(1) conc_piece(2)] by blast
  have base: "base (conc_ivl t) = st" by (simp add: conc_piece(1))
  have channels: ?thesis if simple: "\<forall>p. pc \<noteq> Joining p" "\<forall>p. pc \<noteq> Entering p"
    "\<forall>code sid. pc \<noteq> Parting code sid" "pc \<noteq> Clearing"
  proof -
    note ch = piece_channels [OF conc_piece(3) simple]
    have "adds (hands s tx) = {#}" "clears (hands s tx) = {#}" "adds (Some (c', pc')) = {#}" "clears (Some (c', pc')) = {#}"
      using simple ch(3,4) conc_piece(2) by (cases pc; cases pc'; simp)+
    then have "conc_ivl t = (conc_ivl s)\<lparr>base := st\<rparr>"
      using conc_ivl_frame [OF fin, of tx "(c', pc')" st] conc_piece(1) by simp
    with ch(1,2) show ?thesis by (simp add: ivl_channels_step)
  qed
  show ?thesis
  proof (cases pc)
    case (Joining p)
    have room: "size (adding (conc_ivl s)) < m"
      using adding_below [OF fin _ conc_piece(2) [unfolded Joining]] ok assms(1)
      by (auto simp: Joining entrant_def conc_inv_def)
    obtain r st1 where b: "add_peer_begin (conn_ip c) p (shared s) = (r, st1)" by fastforce
    show ?thesis
    proof (cases r)
      case None
      with Joining b conc_piece upd base have "conc_ivl t = (conc_ivl s)\<lparr>base := st\<rparr>"
        by (intro ivl_eqI) auto
      with None Joining b conc_piece(3) show ?thesis using add_refused [of _ _ "conc_ivl s" st] by auto
    next
      case (Some p')
      with Joining b conc_piece upd base
      have "conc_ivl t = (conc_ivl s)\<lparr>base := st, adding := add_mset (conn_ip c, p') (adding (conc_ivl s))\<rparr>"
        by (intro ivl_eqI) auto
      with Some Joining b conc_piece(3) show ?thesis
        using add_begin [OF room, of "conn_ip c" p p' st] by auto
    qed
  next
    case (Entering p)
    obtain r st1 where b: "add_peer_entry (conn_ip c) p (shared s) = (r, st1)" by fastforce
    with Entering conc_piece(3) have st: "st = st1" "adds (Some (c', pc')) = {#}" "clears (Some (c', pc')) = {#}"
      by (auto split: sum.splits)
    have "(conn_ip c, p) \<in># adding (conc_ivl s)"
      using upd(1) st conc_piece(2) Entering by (metis adds.simps(1) add.right_neutral union_single_eq_member union_mset_add_mset_right)
    moreover have "conc_ivl t = (conc_ivl s)\<lparr>base := st, adding := adding (conc_ivl s) - {#(conn_ip c, p)#}\<rparr>"
      using upd st conc_piece(2) Entering base by (intro ivl_eqI) (simp_all, metis diff_union_swap2 add_mset_remove_trivial)
    ultimately show ?thesis using add_finish [of "conn_ip c" p "conc_ivl s" r st m] b st by simp
  next
    case (Parting code sid)
    obtain e st1 where b: "remove_peer_locked (conn_ip c) code sid (shared s) = (e, st1)" by fastforce
    with Parting conc_piece upd base
    have "conc_ivl t = (conc_ivl s)\<lparr>base := st, emptied := emptied (conc_ivl s) + (if e then {#conn_ip c#} else {#})\<rparr>"
      by (intro ivl_eqI) auto
    with b Parting conc_piece(3) show ?thesis using remove_begin [of "conn_ip c" code sid "conc_ivl s" e st m] by auto
  next
    case Clearing
    with conc_piece upd have e: "add_mset (conn_ip c) (emptied (conc_ivl t)) = emptied (conc_ivl s)"
      "adding (conc_ivl t) = adding (conc_ivl s)" by auto
    then have "conn_ip c \<in># emptied (conc_ivl s)" by (metis union_single_eq_member)
    moreover have "conc_ivl t = (conc_ivl s)\<lparr>base := remove_room (conn_ip c) (base (conc_ivl s)),
        emptied := emptied (conc_ivl s) - {#conn_ip c#}\<rparr>"
      using e base conc_piece(3) Clearing by (intro ivl_eqI) (auto simp flip: e(1))
    ultimately show ?thesis using remove_finish [of "conn_ip c" "conc_ivl s" m] by simp
  qed (rule channels; simp)+
qed

section \<open>The invariant is kept\<close>

text \<open>A state evolves when its handlers stay, each in its room.\<close>

definition evolves :: "'v conc \<Rightarrow> 'v conc \<Rightarrow> bool" where
  "evolves s t \<longleftrightarrow>
     (\<forall>tx c pc. hands s tx = Some (c, pc) \<longrightarrow> (\<exists>c' pc'. hands t tx = Some (c', pc') \<and> conn_ip c' = conn_ip c))"

lemma pc_ok_evolves: "pc_ok s c pc \<Longrightarrow> evolves s t \<Longrightarrow> pc_ok t c pc"
  unfolding evolves_def by (cases pc) (simp_all, metis)

lemma piece_conn:
  "piece c pc st = (c', pc', st') \<Longrightarrow> conn_ip c' = conn_ip c \<and> conn_tx c' = conn_tx c"
  by (cases pc) (auto split: prod.splits bool.splits option.splits sum.splits)

lemma evolves_piece:
  assumes "hands s tx = Some (c, pc)" "conn_ip c' = conn_ip c"
  shows "evolves s (s\<lparr>shared := st, hands := (hands s)(tx \<mapsto> (c', pc'))\<rparr>)"
  using assms unfolding evolves_def by auto

lemma hands_ok_upd:
  assumes "hands_ok s" "evolves s t" "hands t = (hands s)(tx \<mapsto> (c', pc'))"
    "conn_tx c' = tx" "conn_phase c' = Closed \<Longrightarrow> pc' = Waiting" "pc_ok t c' pc'"
  shows "hands_ok t"
  using assms unfolding hands_ok_def by (auto intro: pc_ok_evolves)

lemma member_directory:
  "room_ok (room_at ip st) \<Longrightarrow> p \<in> set (room_at ip st) \<Longrightarrow> directory st (ip, peer_code p) = Some p"
  by (simp add: directory_def room_ok_def find_Some_distinct)

lemma manual_target:
  assumes "distinct (map fst (rooms st))" "\<And>ip. room_ok (room_at ip st)" "find_peer_manual code st = Found target"
  shows "\<exists>ip p. directory st (ip, code) = Some p \<and> sender p = target"
proof -
  obtain p where p: "holders code st = [p]" "sender p = target"
    using assms(3) by (auto simp: find_peer_manual_eq split: list.splits)
  then have "p \<in> set (holders code st)" by simp
  then obtain ip room where r: "(ip, room) \<in> set (rooms st)" "p \<in> set room" "peer_code p = code"
    by (auto simp: holders_def)
  then have "room_at ip st = room" using assms(1) by (simp add: room_at_def)
  with r member_directory [OF assms(2), of p ip] p(2) show ?thesis by blast
qed

text \<open>The acting handler is in order after its piece.\<close>

lemma piece_pc_ok:
  assumes "conc_inv m s" "hands s tx = Some (c, pc)" "piece c pc (shared s) = (c', pc', st)"
  shows "(conn_phase c' = Closed \<longrightarrow> pc' = Waiting) \<and> pc_ok s c' pc'"
proof -
  have ok: "conn_phase c = Closed \<Longrightarrow> pc = Waiting" "pc_ok s c pc" using hands_okD [OF assms(1,2)] by blast+
  show ?thesis
  proof (cases pc)
    case (Joining p)
    with assms(3) ok show ?thesis
      by (auto simp: entrant_def add_peer_begin_def Let_def split: if_splits)
  next
    case (Entering p)
    with assms(3) ok show ?thesis
      by (auto simp: entrant_def split: prod.splits sum.splits)
  next
    case (Looking code to payload)
    show ?thesis
    proof (cases "find_peer (conn_ip c) to (shared s)")
      case None
      with Looking assms(3) ok show ?thesis by auto
    next
      case (Some target)
      then obtain q where q: "directory (shared s) (conn_ip c, to) = Some q" "sender q = target"
        by (auto simp: find_peer_directory)
      then have "\<exists>c2 pc2. hands s target = Some (c2, pc2) \<and> conn_ip c2 = conn_ip c"
        using backsD(1) [OF assms(1) q(1)] by (auto simp: backs_def)
      with Some Looking assms(3) ok show ?thesis by auto
    qed
  next
    case (LookingAnywhere code to payload)
    have "\<exists>c2 pc2. hands s target = Some (c2, pc2)" if found: "find_peer_manual to (shared s) = Found target" for target
    proof -
      obtain ip q where q: "directory (shared s) (ip, to) = Some q" "sender q = target"
        using manual_target [OF conc_inv_rooms(2,1) [OF assms(1)] found] by blast
      with backsD(1) [OF assms(1) q(1)] show ?thesis by (auto simp: backs_def)
    qed
    with LookingAnywhere assms(3) ok show ?thesis
      by (auto split: manual_peer_lookup.splits)
  qed (use assms(3) ok in \<open>auto split: prod.splits bool.splits\<close>)
qed

text \<open>What a piece does to the directory.\<close>

lemma listing_upd:
  assumes "conc_inv m s" "hands t = (hands s)(tx \<mapsto> (c', pc'))"
    "\<And>ip code p. directory (shared t) (ip, code) = Some p \<Longrightarrow>
       (sender p \<noteq> tx \<and> directory (shared s) (ip, code) = Some p) \<or>
       (sender p = tx \<and> valid_code code \<and> length (device_name p) \<le> MAX_DEVICE_NAME_BYTES \<and>
        conn_ip c' = ip \<and> conn_phase c' = Registered code (session_id p) \<and> pc' \<noteq> HangingUp \<and> pc' \<noteq> Clearing)"
  shows "listing_ok t"
  unfolding listing_ok_def
proof (intro allI impI)
  fix ip code p assume d: "directory (shared t) (ip, code) = Some p"
  from assms(3) [OF d] show "valid_code code \<and> length (device_name p) \<le> MAX_DEVICE_NAME_BYTES \<and> backs t ip code p"
  proof
    assume old: "sender p \<noteq> tx \<and> directory (shared s) (ip, code) = Some p"
    with backsD [OF assms(1)] have "backs s ip code p" "valid_code code" "length (device_name p) \<le> MAX_DEVICE_NAME_BYTES"
      by blast+
    with old show ?thesis by (simp add: backs_def assms(2))
  qed (simp add: backs_def assms(2))
qed

lemma listing_own:
  assumes "conc_inv m s" "hands s tx = Some (c, pc)" "directory (shared s) (ip, code) = Some p" "sender p = tx"
  shows "conn_ip c = ip" "conn_phase c = Registered code (session_id p)" "pc \<noteq> HangingUp" "pc \<noteq> Clearing"
  using backsD(1) [OF assms(1,3)] assms(2,4) by (auto simp: backs_def)

lemma listing_piece:
  assumes "conc_inv m s" "hands s tx = Some (c, pc)" "piece c pc (shared s) = (c', pc', st)"
    and d: "directory st (ip, code) = Some p"
  shows "(sender p \<noteq> tx \<and> directory (shared s) (ip, code) = Some p) \<or>
       (sender p = tx \<and> valid_code code \<and> length (device_name p) \<le> MAX_DEVICE_NAME_BYTES \<and>
        conn_ip c' = ip \<and> conn_phase c' = Registered code (session_id p) \<and> pc' \<noteq> HangingUp \<and> pc' \<noteq> Clearing)"
proof -
  have ok: "conn_tx c = tx" "pc_ok s c pc" using hands_okD [OF assms(1,2)] by blast+
  note own = listing_own [OF assms(1,2)]
  note facts = backsD(2,3) [OF assms(1)]
  have same: ?thesis if dir: "directory st = directory (shared s)" and keep: "sender p = tx \<Longrightarrow>
      conn_phase c' = conn_phase c \<and> conn_ip c' = conn_ip c \<and> pc' \<noteq> HangingUp \<and> pc' \<noteq> Clearing"
  proof -
    have "directory (shared s) (ip, code) = Some p" using d by (simp add: dir)
    with own [OF this] keep facts [OF this] show ?thesis by auto
  qed
  show ?thesis
  proof (cases pc)
    case (Joining q)
    then have "conn_phase c = Registering" using ok by (simp add: entrant_def)
    moreover have "rooms st = rooms (shared s)"
      using assms(3) Joining by (auto simp: add_peer_begin_def Let_def split: if_splits)
    ultimately show ?thesis using d own(2) [of ip code p] directory_cong [of st "shared s"] by auto
  next
    case (Entering q)
    then have q: "conn_phase c = Registering" "sender q = tx" "valid_code (peer_code q)"
      "length (device_name q) \<le> MAX_DEVICE_NAME_BYTES" using ok by (auto simp: entrant_def)
    obtain r st1 where e: "add_peer_entry (conn_ip c) q (shared s) = (r, st1)" by fastforce
    with Entering assms(3) have st: "st = st1" by (auto split: sum.splits)
    note dir = add_peer_entry_dir [OF conc_inv_rooms(1) [OF assms(1)] e]
    show ?thesis
    proof (cases r)
      case (Inl x)
      with d dir st own [of ip code p] q(1) show ?thesis by auto
    next
      case (Inr existing)
      then have "c' = c\<lparr>conn_phase := Registered (peer_code q) (session_id q)\<rparr>" "pc' = Telling (Peers existing)"
        using e Entering assms(3) by auto
      with Inr d dir st own [of ip code p] q show ?thesis by (auto split: if_splits)
    qed
  next
    case (Parting k sid)
    obtain e st1 where e: "remove_peer_locked (conn_ip c) k sid (shared s) = (e, st1)" by fastforce
    with Parting assms(3) have st: "st = st1" by auto
    note dir = remove_peer_locked_dir [OF conc_inv_rooms(1) [OF assms(1)] e]
    have old: "directory (shared s) (ip, code) = Some p"
      using d dir st by (auto split: if_splits)
    have "sender p \<noteq> tx"
    proof
      assume "sender p = tx"
      with own [OF old] ok Parting have "ip = conn_ip c" "code = k" "session_id p = sid" by auto
      with d dir st old show False by auto
    qed
    with old show ?thesis by simp
  next
    case Clearing
    then have "st = remove_room (conn_ip c) (shared s)" using assms(3) by auto
    then have "directory st = forget_room (conn_ip c) (directory (shared s))"
      using remove_room_dir conc_inv_rooms(2) [OF assms(1)] by blast
    with d own(4) [of ip code p] Clearing show ?thesis by (auto simp: forget_room_def split: if_splits)
  next
    case HangingUp
    have "rooms st = rooms (shared s)" using HangingUp assms(3) by auto
    then have "directory st = directory (shared s)" by (rule directory_cong)
    with d own(3) [of ip code p] HangingUp show ?thesis by auto
  next
    case (Refusing msg)
    then have "conn_phase c = Registering" using ok by simp
    moreover have "rooms st = rooms (shared s)" using Refusing assms(3) by auto
    ultimately show ?thesis using d own(2) [of ip code p] directory_cong [of st "shared s"] by auto
  next
    case (Relaying manual code' target to payload)
    then have "directory st = directory (shared s)" "conn_phase c' = conn_phase c" "conn_ip c' = conn_ip c"
      "pc' \<noteq> HangingUp" "pc' \<noteq> Clearing"
      using assms(3) by (auto intro!: directory_cong dest: send_rooms split: prod.splits bool.splits)
    then show ?thesis by (intro same) auto
  next
    case (Looking code' to payload)
    then show ?thesis using assms(3) by (intro same) (auto split: option.splits)
  next
    case (LookingAnywhere code' to payload)
    then show ?thesis using assms(3) by (intro same) (auto split: manual_peer_lookup.splits)
  next
    case (Telling msg)
    then show ?thesis using assms(3) by (intro same directory_cong) auto
  next
    case Waiting
    then show ?thesis using assms(3) by (intro same) auto
  qed
qed

lemma phase_piece:
  "piece c pc st = (c', pc', st') \<Longrightarrow> conn_phase c = Closed \<Longrightarrow> pc = Waiting \<Longrightarrow> conn_phase c' = Closed"
  by simp

lemma conc_inv_step:
  assumes "conc_inv (Suc k) s" "conc_step from_str (Suc k) s t"
  shows "conc_inv (Suc k) t"
proof -
  have fin: "finite (dom (hands s))" and card: "card (live s) \<le> Suc k" and hok: "hands_ok s"
    using assms(1) by (simp_all add: conc_inv_def)
  have ivl: "ivl_inv (Suc k) (conc_ivl t)"
    using isys.inv_step [OF _ conc_ivl_step [OF assms]] assms(1) by (simp add: conc_inv_def)
  show ?thesis
    using assms(2)
  proof (cases rule: conc_step.cases)
    case (conc_open tx ip now c st)
    then have c: "conn_tx c = tx" "conn_phase c = Registering" and rooms: "rooms st = rooms (shared s)"
      by (auto simp: open_connection_def)
    have "live t \<subseteq> insert tx (live s)" by (auto simp: live_def conc_open(1))
    then have "card (live t) \<le> Suc (card (live s))"
      using card_mono [of "insert tx (live s)" "live t"] finite_live [OF fin] card_insert_le_m1
      by (auto simp: card_insert_if split: if_splits)
    then have "card (live t) \<le> Suc k" using conc_open(3) by simp
    moreover have "evolves s t" using conc_open(1,2) by (auto simp: evolves_def)
    then have "hands_ok t" using hands_ok_upd [OF hok, of t tx c Waiting] conc_open(1) c by simp
    moreover have "listing_ok t"
    proof (rule listing_upd [OF assms(1), where tx = tx])
      fix i code p assume "directory (shared t) (i, code) = Some p"
      then have d: "directory (shared s) (i, code) = Some p"
        using directory_cong [OF rooms] by (simp add: conc_open(1))
      with backsD(1) [OF assms(1) d] conc_open(2) have "sender p \<noteq> tx" by (auto simp: backs_def)
      with d show "(sender p \<noteq> tx \<and> directory (shared s) (i, code) = Some p) \<or>
         (sender p = tx \<and> valid_code code \<and> length (device_name p) \<le> MAX_DEVICE_NAME_BYTES \<and>
          conn_ip c = i \<and> conn_phase c = Registered code (session_id p) \<and> (Waiting :: 'a pc) \<noteq> HangingUp \<and>
          (Waiting :: 'a pc) \<noteq> Clearing)" by simp
    qed (simp add: conc_open(1))
    ultimately show ?thesis using fin ivl by (simp add: conc_inv_def conc_open(1))
  next
    case (conc_event tx c now w c' pc)
    obtain rl where c': "c' = c\<lparr>conn_limit := rl\<rparr>" and plan: "plan_ok c' pc"
      using decide_ok [OF conc_event(3)] .
    have "live t = live s" using conc_event(1,2) by (auto simp: live_def c')
    moreover have "evolves s t" using conc_event(1,2) by (auto simp: evolves_def c')
    then have "hands_ok t"
      using hands_ok_upd [OF hok, of t tx c' pc] conc_event(1) plan hands_okD(1) [OF assms(1) conc_event(2)]
      by (simp add: plan_ok_def c')
    moreover have "listing_ok t"
    proof (rule listing_upd [OF assms(1), where tx = tx])
      fix i code p assume "directory (shared t) (i, code) = Some p"
      then have d: "directory (shared s) (i, code) = Some p" by (simp add: conc_event(1))
      from listing_own [OF assms(1) conc_event(2) d] plan backsD [OF assms(1) d] d
      show "(sender p \<noteq> tx \<and> directory (shared s) (i, code) = Some p) \<or>
         (sender p = tx \<and> valid_code code \<and> length (device_name p) \<le> MAX_DEVICE_NAME_BYTES \<and>
          conn_ip c' = i \<and> conn_phase c' = Registered code (session_id p) \<and> pc \<noteq> HangingUp \<and> pc \<noteq> Clearing)"
        by (auto simp: plan_ok_def c')
    qed (simp add: conc_event(1))
    ultimately show ?thesis using fin card ivl by (simp add: conc_inv_def conc_event(1))
  next
    case (conc_piece tx c pc c' pc' st)
    note old = hands_okD [OF assms(1) conc_piece(2)]
    note conn = piece_conn [OF conc_piece(3)]
    have "live t \<subseteq> live s"
      using conc_piece(1,2,3) old(2) by (auto simp: live_def split: if_splits)
    then have "card (live t) \<le> Suc k"
      using card card_mono [OF finite_live [OF fin]] le_trans by blast
    moreover have ev: "evolves s t" using conc_piece(1,2) conn by (auto simp: evolves_def)
    then have "hands_ok t"
      using hands_ok_upd [OF hok ev, of tx c' pc'] conc_piece(1) piece_pc_ok [OF assms(1) conc_piece(2,3)]
        pc_ok_evolves [OF _ ev, of c' pc'] conn old(1) by simp
    moreover have "listing_ok t"
      using listing_upd [OF assms(1), of t tx c' pc'] listing_piece [OF assms(1) conc_piece(2,3)] conc_piece(1) by simp
    ultimately show ?thesis using fin ivl by (simp add: conc_inv_def conc_piece(1))
  next
    case (conc_write tx ok)
    have "evolves s t" by (auto simp: evolves_def conc_write)
    then have "hands_ok t" using hok by (auto simp: hands_ok_def conc_write intro: pc_ok_evolves)
    moreover have "directory (shared t) = directory (shared s)"
      by (rule directory_cong) (simp add: conc_write)
    then have "listing_ok t" using assms(1) by (simp add: conc_inv_def listing_ok_def backs_def conc_write)
    moreover have "live t = live s" by (simp add: live_def conc_write)
    ultimately show ?thesis using fin card ivl by (simp add: conc_inv_def conc_write)
  qed
qed

lemma conc_ivl_new: "conc_ivl conc_new = ivl_new"
  by (simp add: conc_ivl_def conc_new_def ivl_new_def)

lemma conc_inv_new: "conc_inv (Suc k) conc_new"
proof -
  have "ivl_inv (Suc k) ivl_new" by (simp add: ivl_inv_new)
  then show ?thesis
    by (simp add: conc_inv_def conc_ivl_new)
      (simp add: conc_new_def live_def hands_ok_def listing_ok_def)
qed

interpretation concsys: simulated_system
  "\<lambda>s. s = conc_new" "conc_step from_str (Suc k)" "conc_inv (Suc k)"
  "\<lambda>s. s = ivl_new" "ivl_step (Suc k)" conc_ivl
  by unfold_locales (auto simp: conc_inv_new conc_ivl_new intro: conc_inv_step conc_ivl_step)

lemmas conc_refines_ivl = concsys.view_reachable

section \<open>What a piece may send\<close>

definition same_room :: "'v conc \<Rightarrow> conn \<Rightarrow> nat \<Rightarrow> bool" where
  "same_room s c ch \<longleftrightarrow> (\<exists>c' pc'. hands s ch = Some (c', pc') \<and> conn_ip c' = conn_ip c)"

definition may_emit :: "'v conc \<Rightarrow> conn \<Rightarrow> 'v pc \<Rightarrow> nat \<Rightarrow> 'v server_message \<Rightarrow> bool" where
  "may_emit s c pc ch msg \<longleftrightarrow>
     (case msg of
        ServerSignal from payload \<Rightarrow>
          \<exists>manual to. pc = Relaying manual from ch to payload \<and> registered_as c from \<and> (manual \<or> same_room s c ch)
      | PeerJoined d \<Rightarrow> (\<exists>p. pc = Entering p \<and> d = to_peer_data p) \<and> same_room s c ch
      | PeerLeft code \<Rightarrow> (\<exists>sid. pc = Parting code sid \<and> conn_phase c = Registered code sid) \<and> same_room s c ch
      | _ \<Rightarrow> ch = conn_tx c \<and> (pc = Telling msg \<or> pc = Refusing msg))"

lemma member_same_room:
  assumes "conc_inv m s" "p \<in> set (room_at (conn_ip c) (shared s))"
  shows "same_room s c (sender p)"
proof -
  have "directory (shared s) (conn_ip c, peer_code p) = Some p"
    using member_directory [OF conc_inv_rooms(1) [OF assms(1)] assms(2)] .
  from backsD(1) [OF assms(1) this] show ?thesis by (auto simp: backs_def same_room_def)
qed

lemma emits_remove_locked:
  assumes "remove_peer_locked ip code sid st = (e, st')"
    "\<And>p. p \<in> set (room_at ip st) \<Longrightarrow> P (sender p) (PeerLeft code)"
  shows "emits P st st'"
proof (cases "map_of (rooms st) ip")
  case None
  with assms(1) show ?thesis by (simp add: remove_peer_locked_def)
next
  case (Some room)
  let ?room = "filter (\<lambda>p. \<not> (peer_code p = code \<and> session_id p = sid)) room"
  have "emits P st (broadcast (PeerLeft code) ?room st)"
    using assms(2) Some by (intro emits_broadcast) (auto simp: room_at_def)
  with assms(1) Some show ?thesis
    unfolding remove_peer_locked_def Let_def by (auto split: if_splits)
qed

lemma emits_add_entry:
  assumes "add_peer_entry ip p st = (r, st')"
    "\<And>q. q \<in> set (room_at ip st) \<Longrightarrow> P (sender q) (PeerJoined (to_peer_data p))"
  shows "emits P st st'"
proof -
  define room where "room = (case position (\<lambda>q. peer_code q = peer_code p) (room_at ip st) of
      None \<Rightarrow> room_at ip st | Some pos \<Rightarrow> remove_at pos (room_at ip st))"
  have "set room \<subseteq> set (room_at ip st)"
    unfolding room_def remove_at_def by (auto split: option.splits dest: in_set_takeD in_set_dropD)
  then have "emits P st (broadcast (PeerJoined (to_peer_data p)) room st)"
    using assms(2) by (intro emits_broadcast) blast
  with assms(1) show ?thesis
    unfolding add_peer_entry_def Let_def room_def [symmetric]
    by (auto split: if_splits)
qed

lemma piece_emits:
  assumes "conc_inv m s" "hands s tx = Some (c, pc)" "piece c pc (shared s) = (c', pc', st)"
  shows "emits (may_emit s c pc) (shared s) st"
proof -
  have ok: "pc_ok s c pc" using hands_okD [OF assms(1,2)] by blast
  note room = member_same_room [OF assms(1)]
  show ?thesis
  proof (cases pc)
    case (Entering p)
    obtain r st1 where e: "add_peer_entry (conn_ip c) p (shared s) = (r, st1)" by fastforce
    have "emits (may_emit s c pc) (shared s) st1"
      using emits_add_entry [OF e] room Entering by (auto simp: may_emit_def)
    with e Entering assms(3) show ?thesis by (auto split: sum.splits)
  next
    case (Parting code sid)
    obtain e st1 where e: "remove_peer_locked (conn_ip c) code sid (shared s) = (e, st1)" by fastforce
    have "emits (may_emit s c pc) (shared s) st1"
      using emits_remove_locked [OF e] room Parting ok by (auto simp: may_emit_def)
    with e Parting assms(3) show ?thesis by auto
  next
    case (Relaying manual code target to payload)
    have "may_emit s c pc target (ServerSignal code payload)"
      using ok Relaying by (auto simp: may_emit_def same_room_def)
    then have "emits (may_emit s c pc) (shared s) (snd (send target (ServerSignal code payload) (shared s)))"
      by (rule emits_send)
    with assms(3) Relaying show ?thesis by (auto split: prod.splits bool.splits)
  next
    case (Joining p)
    with assms(3) show ?thesis by (auto simp: add_peer_begin_def Let_def split: if_splits)
  next
    case (Telling msg)
    then have "may_emit s c pc (conn_tx c) msg" using ok by (cases msg) (auto simp: may_emit_def)
    with assms(3) Telling show ?thesis by (auto intro: emits_reply)
  next
    case (Refusing msg)
    then have "may_emit s c pc (conn_tx c) msg" using ok by (cases msg) (auto simp: may_emit_def)
    with assms(3) Refusing show ?thesis by (auto intro: emits_reply)
  qed (use assms(3) in \<open>auto simp: remove_room_def\<close>)
qed

end
