(* ===== verification/Concurrent_Properties.thy ===== *)
theory Concurrent_Properties
  imports Concurrent
begin

text \<open>
  What clients and operators can rely on when handlers run at the same time, and the one thing
  they might expect that does not hold.
\<close>

section \<open>A concrete run\<close>

text \<open>Two clients of one room, each moved on piece by piece.\<close>

definition connect_at :: "nat \<Rightarrow> nat conc \<Rightarrow> nat conc" where
  "connect_at tx s =
     (case open_connection ''203.0.113.7'' tx 0 (shared s) of
        (c, st) \<Rightarrow> s\<lparr>shared := st, hands := (hands s)(tx \<mapsto> (c, Waiting))\<rparr>)"

definition event_at :: "nat \<Rightarrow> wait \<Rightarrow> nat conc \<Rightarrow> nat conc" where
  "event_at tx w s =
     (case hands s tx of
        Some (c, Waiting) \<Rightarrow>
          (case decide register_a 0 w c of
             (c', pc) \<Rightarrow> s\<lparr>hands := (hands s)(tx \<mapsto> (c', pc))\<rparr>)
      | _ \<Rightarrow> s)"

definition piece_at :: "nat \<Rightarrow> nat conc \<Rightarrow> nat conc" where
  "piece_at tx s =
     (case hands s tx of
        Some (c, pc) \<Rightarrow>
          (case piece c pc (shared s) of
             (c', pc', st) \<Rightarrow> s\<lparr>shared := st, hands := (hands s)(tx \<mapsto> (c', pc'))\<rparr>)
      | None \<Rightarrow> s)"

abbreviation conc_reachable :: "nat \<Rightarrow> nat conc \<Rightarrow> bool" where
  "conc_reachable k \<equiv> reachable (\<lambda>s. s = conc_new) (conc_step register_a (Suc k))"

lemma reach_connect_at:
  "conc_reachable k s \<Longrightarrow> hands s tx = None \<Longrightarrow> card (live s) < Suc k \<Longrightarrow> conc_reachable k (connect_at tx s)"
  unfolding connect_at_def by (auto split: prod.split intro: reach_step conc_open)

lemma reach_event_at: "conc_reachable k s \<Longrightarrow> conc_reachable k (event_at tx w s)"
  using conc_event [of s tx _ register_a 0 w, OF _ prod.collapse [symmetric]]
  unfolding event_at_def by (auto simp: split_beta split: option.split pc.split intro: reach_step)

lemma reach_piece_at: "conc_reachable k s \<Longrightarrow> conc_reachable k (piece_at tx s)"
  unfolding piece_at_def by (auto split: option.split prod.split intro: reach_step conc_piece)

text \<open>The first client is in the room but has not been told who else is there.\<close>

definition conc_a :: "nat conc" where
  "conc_a = piece_at 0 (piece_at 0 (event_at 0 (Ready (Some (Inr (Text ''register'')))) (connect_at 0 conc_new)))"

lemma live_new [simp]: "live conc_new = {}" "hands conc_new tx = None"
  by (simp_all add: live_def conc_new_def)

lemma conc_a_reachable: "conc_reachable k conc_a"
  unfolding conc_a_def
  by (intro reach_piece_at reach_event_at reach_connect_at reach_init) simp_all

lemmas conc_eval =
  piece_at_def event_at_def connect_at_def conc_new_def open_connection_def decide_def decide_item_def
  fresh_limit register_a_def validate_message_size_def MAX_MESSAGE_BYTES_def decide_register_def
  validate_device_name_def MAX_DEVICE_NAME_BYTES_def decide_finish_def valid_codes
  add_peer_begin_def add_peer_refused_def add_peer_entry_def room_at_def room_manager_new_def
  MAX_ROOMS_def MAX_PEERS_PER_ROOM_def Let_def reply_def send_def to_peer_data_def

lemma conc_a_eq:
  "conc_a =
     \<lparr>shared = \<lparr>rooms = [(''203.0.113.7'', [\<lparr>peer_code = ''AAA'', device_name = ''First'',
               device_type = Desktop, sender = 0, session_id = 1, wt_url = None, wt_cert_hash = None\<rparr>])],
             next_session = 2,
             chans = (\<lambda>_. \<lparr>rx_alive = False, queue = [], wire = []\<rparr>)
                       (0 := \<lparr>rx_alive = True, queue = [], wire = []\<rparr>)\<rparr>,
      hands = [0 \<mapsto> (\<lparr>conn_ip = ''203.0.113.7'', conn_tx = 0,
                      conn_limit = \<lparr>remaining = 49, window_start = 0, consecutive_violations = 0\<rparr>,
                      conn_phase = Registered ''AAA'' 1\<rparr>, Telling (Peers []))]\<rparr>"
  unfolding conc_a_def by (simp add: conc_eval)

section \<open>Properties\<close>

text \<open>
  C6: the rooms under true concurrency. With at most \<open>k + 1\<close> connections open at a time and
  their handlers interleaved piece by piece in any way, addresses have one room each, no room
  ever exceeds 256 peers or holds a code twice, the table has at most \<open>k\<close> rooms more than its
  limit, and a room without peers exists only while the handler that emptied it is about to
  delete it. The handlers drive the room manager exactly as the interleaved one.
\<close>

theorem concurrent_rooms_bounded:
  assumes "reachable (\<lambda>s. s = conc_new) (conc_step from_str (Suc k)) s"
  shows "reachable (\<lambda>s. s = ivl_new) (ivl_step (Suc k)) (conc_ivl s) \<and>
    distinct (map fst (rooms (shared s))) \<and>
    (\<forall>ip. length (room_at ip (shared s)) \<le> 256 \<and> distinct (map peer_code (room_at ip (shared s)))) \<and>
    room_count (shared s) \<le> 65536 + k \<and>
    (\<forall>ip. map_of (rooms (shared s)) ip = Some [] \<longrightarrow>
       (\<exists>tx c. hands s tx = Some (c, Clearing) \<and> conn_ip c = ip))"
proof -
  have fin: "finite (dom (hands s))"
    using concsys.inv_reachable [OF assms] by (simp add: conc_inv_def)
  have "\<exists>tx c. hands s tx = Some (c, Clearing) \<and> conn_ip c = ip" if member: "ip \<in># emptied (conc_ivl s)" for ip
  proof -
    obtain tx where "ip \<in># clears (hands s tx)"
      using member fin by (auto simp: conc_ivl_def set_mset_sum)
    then show ?thesis by (cases "hands s tx" rule: clears.cases) auto
  qed
  with interleaved_rooms_bounded [OF conc_refines_ivl [OF assms]] conc_refines_ivl [OF assms]
  show ?thesis by auto
qed

theorem concurrent_rooms_bounded_witness:
  "length (room_at ''203.0.113.7'' (shared conc_a)) \<le> 256 \<and> room_count (shared conc_a) \<le> 65536"
  using concurrent_rooms_bounded [OF conc_a_reachable [of 0]] by simp



text \<open>
  C2: behind every listed peer stands its connection, at every moment of every concurrent run:
  the code is valid, the channel belongs to a handler of that very room which is registered
  under that code with that session and has not yet taken itself out of the room.
\<close>

theorem concurrent_peers_backed:
  assumes "reachable (\<lambda>s. s = conc_new) (conc_step from_str (Suc k)) s"
    "directory (shared s) (ip, code) = Some p"
  shows "valid_code code \<and> length (device_name p) \<le> 256 \<and>
    (\<exists>c pc. hands s (sender p) = Some (c, pc) \<and> conn_tx c = sender p \<and> conn_ip c = ip \<and>
       conn_phase c = Registered code (session_id p) \<and> pc \<noteq> Clearing \<and> pc \<noteq> HangingUp)"
proof -
  note inv = concsys.inv_reachable [OF assms(1)]
  from backsD [OF inv assms(2)] hands_okD(1) [OF inv] show ?thesis
    unfolding backs_def MAX_DEVICE_NAME_BYTES_def by blast
qed

theorem concurrent_peers_backed_witness:
  "\<exists>c pc. hands conc_a 0 = Some (c, pc) \<and> conn_phase c = Registered ''AAA'' 1 \<and> pc \<noteq> HangingUp"
proof -
  let ?p = "\<lparr>peer_code = ''AAA'', device_name = ''First'', device_type = Desktop, sender = 0,
      session_id = 1, wt_url = None, wt_cert_hash = None\<rparr>"
  have "directory (shared conc_a) (''203.0.113.7'', ''AAA'') = Some ?p"
    by (simp add: conc_a_eq directory_def room_at_def)
  from concurrent_peers_backed [OF conc_a_reachable this] show ?thesis by auto
qed

text \<open>
  C1: relays stay authentic and inside the room under concurrency. Whatever other handlers do
  between the pieces of a turn, a piece adds to queues only: its own answer to its own client;
  a join or departure of itself to connections of its room; or a signal under the code it has
  registered, to the channel it has looked up, which for an automatic signal belongs to a
  connection of its own room.
\<close>

theorem concurrent_relays_confined:
  assumes "reachable (\<lambda>s. s = conc_new) (conc_step from_str (Suc k)) s"
    "hands s tx = Some (c, pc)" "piece c pc (shared s) = (c', pc', st)"
  shows "emits (may_emit s c pc) (shared s) st"
  using piece_emits [OF concsys.inv_reachable [OF assms(1)] assms(2,3)] .

theorem concurrent_relays_confined_witness:
  "emits (may_emit conc_a (fst (the (hands conc_a 0))) (Telling (Peers []))) (shared conc_a) (shared (piece_at 0 conc_a))"
proof -
  obtain c where h: "hands conc_a 0 = Some (c, Telling (Peers []))" by (simp add: conc_a_eq)
  then have "piece c (Telling (Peers [])) (shared conc_a) = (c, Waiting, shared (piece_at 0 conc_a))"
    by (simp add: piece_at_def)
  from concurrent_relays_confined [OF conc_a_reachable h this] h show ?thesis by simp
qed

text \<open>
  C7: nothing leaks under concurrency. Whenever every connection has been closed, in whatever
  way and however their last turns overlapped, the room table is empty.
\<close>

theorem concurrent_no_leak:
  assumes "reachable (\<lambda>s. s = conc_new) (conc_step from_str (Suc k)) s"
    "\<And>tx c pc. hands s tx = Some (c, pc) \<Longrightarrow> conn_phase c = Closed"
  shows "rooms (shared s) = []"
proof -
  note inv = concsys.inv_reachable [OF assms(1)]
  have none: "directory (shared s) (ip, code) = None" for ip code
  proof (rule ccontr)
    assume "directory (shared s) (ip, code) \<noteq> None"
    then obtain p where "directory (shared s) (ip, code) = Some p" by blast
    from backsD(1) [OF inv this] assms(2) show False by (auto simp: backs_def)
  qed
  have vacant: "room_at ip (shared s) = []" for ip
  proof (rule ccontr)
    assume "room_at ip (shared s) \<noteq> []"
    then obtain p where "p \<in> set (room_at ip (shared s))" by (cases "room_at ip (shared s)") auto
    from member_directory [OF conc_inv_rooms(1) [OF inv] this] none show False by simp
  qed
  have empty: "map_of (rooms (shared s)) ip = None \<or> map_of (rooms (shared s)) ip = Some []" for ip
    using vacant [of ip] by (cases "map_of (rooms (shared s)) ip") (simp_all add: room_at_def)
  have "emptied (conc_ivl s) = {#}"
  proof -
    have "clears (hands s tx) = {#}" for tx
    proof (cases "hands s tx" rule: clears.cases)
      case (1 c)
      with assms(2) [OF 1] hands_okD(2) [OF inv 1] show ?thesis by simp
    qed simp_all
    then show ?thesis by (simp add: conc_ivl_def)
  qed
  then have "map_of (rooms (shared s)) ip \<noteq> Some []" for ip
    using inv by (auto simp: conc_inv_def ivl_inv_def)
  with empty have "map_of (rooms (shared s)) = Map.empty" by blast
  then show ?thesis by (metis map_of_eq_empty_iff)
qed

theorem concurrent_no_leak_witness:
  "rooms (shared (piece_at 0 (piece_at 0 (piece_at 0 (event_at 0 (Ready None) (piece_at 0 conc_a)))))) = []"
  (is "rooms (shared ?s) = []")
proof (rule concurrent_no_leak [of register_a 0])
  show "conc_reachable 0 ?s"
    by (intro reach_piece_at reach_event_at conc_a_reachable)
  show "conn_phase c = Closed" if "hands ?s tx = Some (c, pc)" for tx c pc
    using that unfolding conc_a_eq
    by (auto simp: conc_eval remove_peer_locked_def split: if_splits)
qed

text \<open>
  The list of peers is not always the full list. Two clients of one room register at the
  same time; the first is already listed when the second joins but has not yet been sent its
  list. It is then told of the second client first and sent its list, which does not contain
  the second client, afterwards.
\<close>

lemma peer_list_late:
  "\<exists>s :: nat conc. conc_reachable 1 s \<and>
     directory (shared s) (''203.0.113.7'', ''AAA'') \<noteq> None \<and> directory (shared s) (''203.0.113.7'', ''BBB'') \<noteq> None \<and>
     (\<exists>b. queue (chans (shared s) 0) = [PeerJoined b, Peers []] \<and> pd_peer_code b = ''BBB'')"
proof -
  let ?s = "piece_at 0 (piece_at 1 (piece_at 1 (event_at 1 (Ready (Some (Inr (Text ''join'')))) (connect_at 1 conc_a))))"
  have "live conc_a = {0}" "hands conc_a 1 = None" by (auto simp: conc_a_eq live_def)
  then have "conc_reachable 1 ?s"
    by (intro reach_piece_at reach_event_at reach_connect_at conc_a_reachable) simp_all
  moreover have "directory (shared ?s) (''203.0.113.7'', ''AAA'') \<noteq> None \<and>
      directory (shared ?s) (''203.0.113.7'', ''BBB'') \<noteq> None \<and>
      (\<exists>b. queue (chans (shared ?s) 0) = [PeerJoined b, Peers []] \<and> pd_peer_code b = ''BBB'')"
    unfolding conc_a_eq by (simp add: conc_eval directory_def)
  ultimately show ?thesis by blast
qed

end
