(* ===== verification/Running_Server.thy ===== *)
theory Running_Server
  imports Whole_Server Concurrent_Properties
begin

text \<open>
  The server with everything that happens at the same time taken apart: the accept loop loads
  the counter and exchanges it in separate steps while tasks end and drop their guards, and the
  handlers of the running tasks advance piece by piece. Seen from the counter this is a run of
  \<open>Slots\<close>, seen from the room table a run of \<open>Concurrent\<close>; what is shown of either holds here,
  and together they bound the table by the slots.
\<close>

section \<open>The system\<close>

text \<open>\<open>claimed\<close> is what the accept loop has loaded and not yet exchanged.\<close>

record 'v running =
  core :: "'v signaling_server"
  jobs :: "nat \<Rightarrow> task option"
  turns :: "nat \<Rightarrow> (conn \<times> 'v pc) option"
  claimed :: "u64 option"

definition running_new :: "ip_addr \<times> nat \<Rightarrow> ip_addr list \<Rightarrow> u64 \<Rightarrow> 'v running" where
  "running_new addr proxies mx =
     \<lparr>core = with_max_connections mx (with_trusted_proxies proxies (signaling_server_new addr)),
      jobs = Map.empty, turns = Map.empty, claimed = None\<rparr>"

abbreviation set_table :: "'v rv_state \<Rightarrow> 'v running \<Rightarrow> 'v running" where
  "set_table st f \<equiv> f\<lparr>core := (core f)\<lparr>room_manager := st\<rparr>\<rparr>"

abbreviation set_turn :: "nat \<Rightarrow> conn \<Rightarrow> 'v pc \<Rightarrow> 'v running \<Rightarrow> 'v running" where
  "set_turn tx c pc f \<equiv> f\<lparr>turns := (turns f)(tx \<mapsto> (c, pc))\<rparr>"

definition drop_job :: "nat \<Rightarrow> 'v running \<Rightarrow> 'v running" where
  "drop_job tx f = f\<lparr>core := guard_drop (core f), jobs := (jobs f)(tx := None)\<rparr>"

inductive running_step ::
    "(string \<Rightarrow> (string, 'v client_message) result) \<Rightarrow> 'v running \<Rightarrow> 'v running \<Rightarrow> bool"
  for from_str :: "string \<Rightarrow> (string, 'v client_message) result" where
  run_reject: "claimed f = None \<Longrightarrow> active_connections (core f) \<ge> max_connections (core f) \<Longrightarrow>
     running_step from_str f f"
| run_load: "claimed f = None \<Longrightarrow> \<not> active_connections (core f) \<ge> max_connections (core f) \<Longrightarrow>
     running_step from_str f (f\<lparr>claimed := Some (active_connections (core f))\<rparr>)"
| run_accept: "claimed f = Some current \<Longrightarrow> active_connections (core f) = current \<Longrightarrow>
     jobs f tx = None \<Longrightarrow> turns f tx = None \<Longrightarrow>
     running_step from_str f
       (f\<lparr>core := (core f)\<lparr>active_connections := current + 1\<rparr>, claimed := None,
          jobs := (jobs f)(tx \<mapsto> Accepting addr)\<rparr>)"
| run_retry: "claimed f = Some current \<Longrightarrow> active_connections (core f) \<noteq> current \<Longrightarrow>
     running_step from_str f (f\<lparr>claimed := None\<rparr>)"
| run_answered: "jobs f tx = Some (Accepting addr) \<Longrightarrow>
     handle_connection from_str (trusted_proxies (core f)) addr peeked None tx now []
       (room_manager (core f)) = (r, st) \<Longrightarrow>
     running_step from_str f (drop_job tx (set_table st f))"
| run_open: "jobs f tx = Some (Accepting addr) \<Longrightarrow> classify_request peeked = Handshake \<Longrightarrow>
     open_connection (client_room (trusted_proxies (core f)) addr fly xff) tx now
       (room_manager (core f)) = (c, st) \<Longrightarrow>
     running_step from_str f (set_table st (set_turn tx c Waiting (f\<lparr>jobs := (jobs f)(tx \<mapsto> Handling)\<rparr>)))"
| run_event: "jobs f tx = Some Handling \<Longrightarrow> turns f tx = Some (c, Waiting) \<Longrightarrow>
     decide from_str now w c = (c', pc) \<Longrightarrow>
     running_step from_str f (set_turn tx c' pc f)"
| run_piece: "jobs f tx = Some Handling \<Longrightarrow> turns f tx = Some (c, pc) \<Longrightarrow>
     piece c pc (room_manager (core f)) = (c', pc', st) \<Longrightarrow>
     running_step from_str f (set_table st (set_turn tx c' pc' f))"
| run_end: "jobs f tx = Some Handling \<Longrightarrow> turns f tx = Some (c, pc) \<Longrightarrow> conn_phase c = Closed \<Longrightarrow>
     running_step from_str f (drop_job tx f)"
| run_write: "running_step from_str f (set_table (write_task_step tx ok (room_manager (core f))) f)"

section \<open>Two views\<close>

definition slot_view :: "'v running \<Rightarrow> slots" where
  "slot_view f = \<lparr>active = active_connections (core f), loaded = (\<lambda>_. None)(0 := claimed f),
     guards = card (dom (jobs f))\<rparr>"

definition turn_view :: "'v running \<Rightarrow> 'v conc" where
  "turn_view f = \<lparr>shared = room_manager (core f), hands = turns f\<rparr>"

definition running_inv :: "ip_addr list \<Rightarrow> u64 \<Rightarrow> 'v running \<Rightarrow> bool" where
  "running_inv proxies mx f \<longleftrightarrow>
     finite (dom (jobs f)) \<and> slots_inv mx (slot_view f) \<and>
     max_connections (core f) = mx \<and> trusted_proxies (core f) = proxies \<and>
     (\<forall>tx addr. jobs f tx = Some (Accepting addr) \<longrightarrow> turns f tx = None) \<and>
     (\<forall>tx. jobs f tx = Some Handling \<longrightarrow> turns f tx \<noteq> None) \<and>
     (\<forall>tx c pc. turns f tx = Some (c, pc) \<longrightarrow> conn_phase c \<noteq> Closed \<longrightarrow> jobs f tx = Some Handling)"

text \<open>The guards are one per job, so a job that ends drops one.\<close>

lemma slot_view_drop:
  assumes "finite (dom (jobs f))" "jobs f tx \<noteq> None"
  shows "slot_step mx (slot_view f) (slot_view (drop_job tx f))"
proof -
  have tx: "tx \<in> dom (jobs f)" using assms(2) by blast
  then have n: "card (dom (jobs f)) = Suc (card (dom (jobs f) - {tx}))"
    using assms(1) by (rule card.remove [rotated])
  then have "guards (slot_view f) = Suc (card (dom (jobs f) - {tx}))" by (simp add: slot_view_def)
  from slot_drop [OF this, of mx] show ?thesis by (simp add: slot_view_def drop_job_def)
qed

lemma slot_view_step:
  assumes "running_inv proxies mx f" "running_step from_str f g"
  shows "slot_view g = slot_view f \<or> slot_step mx (slot_view f) (slot_view g)"
  using assms(2)
proof (cases rule: running_step.cases)
  case run_load
  have "slot_step mx (slot_view f) (slot_view f\<lparr>loaded := (loaded (slot_view f))(0 \<mapsto> active (slot_view f))\<rparr>)"
    using run_load assms(1) by (intro slot_load) (simp_all add: slot_view_def running_inv_def)
  moreover have "(slot_view f)\<lparr>loaded := (loaded (slot_view f))(0 \<mapsto> active (slot_view f))\<rparr> = slot_view g"
    using run_load by (auto simp: slot_view_def)
  ultimately show ?thesis by simp
next
  case (run_accept current tx addr)
  have "slot_step mx (slot_view f) (slot_view f\<lparr>active := current + 1, loaded := (loaded (slot_view f))(0 := None),
      guards := Suc (guards (slot_view f))\<rparr>)"
    using run_accept by (intro slot_exchange) (simp_all add: slot_view_def)
  moreover have "card (dom (jobs g)) = Suc (card (dom (jobs f)))"
    using run_accept assms(1) by (simp add: running_inv_def card_insert_if domIff)
  ultimately show ?thesis using run_accept by (simp add: slot_view_def)
next
  case (run_retry current)
  have "slot_step mx (slot_view f) (slot_view f\<lparr>loaded := (loaded (slot_view f))(0 := None)\<rparr>)"
    using run_retry by (intro slot_retry [of _ _ current]) (simp_all add: slot_view_def)
  with run_retry show ?thesis by (simp add: slot_view_def)
next
  case (run_answered tx addr peeked now r st)
  have "set_table st f = f" using answered_frame [OF run_answered(3)] by simp
  with slot_view_drop [of f tx mx] run_answered assms(1) show ?thesis by (simp add: running_inv_def)
next
  case (run_open tx addr peeked fly xff now c st)
  then have "dom (jobs g) = dom (jobs f)" by auto
  with run_open show ?thesis by (simp add: slot_view_def del: dom_fun_upd)
next
  case (run_end tx c pc)
  with slot_view_drop [of f tx mx] assms(1) show ?thesis by (simp add: running_inv_def)
qed (simp_all add: slot_view_def)


lemma running_inv_counts:
  assumes "running_inv proxies mx f"
  shows "unat (active_connections (core f)) = card (dom (jobs f))" "card (dom (jobs f)) \<le> unat mx"
    "finite (dom (jobs f))"
  using assms by (simp_all add: running_inv_def slots_inv_def slot_view_def word_le_nat_alt)

lemma running_inv_new: "running_inv proxies mx (running_new addr proxies mx)"
  by (simp add: running_inv_def running_new_def slot_view_def slots_inv_def with_max_connections_def
      with_trusted_proxies_def signaling_server_new_def)

lemma running_inv_step:
  assumes "running_inv proxies mx f" "running_step from_str f g"
  shows "running_inv proxies mx g"
proof -
  have slots: "slots_inv mx (slot_view g)"
    using slot_view_step [OF assms] slotsys.inv_step [of mx "slot_view f" "slot_view g"] assms(1)
    by (auto simp: running_inv_def)
  from assms(2) show ?thesis
  proof (cases rule: running_step.cases)
    case (run_answered tx addr peeked now r st)
    have "set_table st f = f" using answered_frame [OF run_answered(3)] by simp
    with run_answered assms(1) slots show ?thesis by (auto simp: running_inv_def drop_job_def)
  next
    case (run_open tx addr peeked fly xff now c st)
    then have "dom (jobs g) = dom (jobs f)" by auto
    with run_open assms(1) slots show ?thesis by (auto simp: running_inv_def simp del: dom_fun_upd)
  next
    case (run_event tx c now w c' pc)
    with decide_ok [OF run_event(4)] assms(1) slots show ?thesis by (auto simp: running_inv_def)
  qed (use assms(1) slots in \<open>auto simp: running_inv_def drop_job_def\<close>)
qed

text \<open>Connections that are open have a running task, and so does the one that is being opened.\<close>

lemma live_below:
  assumes "running_inv proxies mx f" "jobs f tx = Some (Accepting addr)"
  shows "card (live (turn_view f)) < unat mx"
proof -
  have "live (turn_view f) \<subseteq> dom (jobs f) - {tx}"
    using assms by (fastforce simp: live_def turn_view_def running_inv_def)
  then have "card (live (turn_view f)) \<le> card (dom (jobs f) - {tx})"
    using running_inv_counts(3) [OF assms(1)] by (intro card_mono) auto
  also have "\<dots> < card (dom (jobs f))"
    using running_inv_counts(3) [OF assms(1)] assms(2) by (intro card_Diff1_less) auto
  finally show ?thesis using running_inv_counts(2) [OF assms(1)] by linarith
qed

lemma turn_view_step:
  assumes "running_inv proxies mx f" "running_step from_str f g"
  shows "turn_view g = turn_view f \<or> conc_step from_str (Suc (unat mx - 1)) (turn_view f) (turn_view g)"
  using assms(2)
proof (cases rule: running_step.cases)
  case (run_answered tx addr peeked now r st)
  then show ?thesis using answered_frame [OF run_answered(3)] by (simp add: turn_view_def drop_job_def)
next
  case (run_open tx addr peeked fly xff now c st)
  have "hands (turn_view f) tx = None" "card (live (turn_view f)) < Suc (unat mx - 1)"
    using assms(1) run_open(2) live_below [OF assms(1) run_open(2)]
    by (auto simp: running_inv_def turn_view_def)
  from conc_open [OF this, of _ now c st from_str] run_open show ?thesis by (simp add: turn_view_def)
next
  case (run_event tx c now w c' pc)
  with conc_event [of "turn_view f" tx c from_str now w c' pc] show ?thesis by (simp add: turn_view_def)
next
  case (run_piece tx c pc c' pc' st)
  with conc_piece [of "turn_view f" tx c pc c' pc' st from_str] show ?thesis by (simp add: turn_view_def)
next
  case (run_write tx ok)
  with conc_write [of from_str _ "turn_view f" tx ok] show ?thesis by (simp add: turn_view_def)
qed (simp_all add: turn_view_def drop_job_def)

lemma turn_view_new: "turn_view (running_new addr proxies mx) = conc_new"
  by (simp add: turn_view_def running_new_def conc_new_def with_max_connections_def
      with_trusted_proxies_def signaling_server_new_def)

lemma slot_view_new: "slot_view (running_new addr proxies mx) = slots_new"
  by (simp add: slot_view_def running_new_def slots_new_def with_max_connections_def
      with_trusted_proxies_def signaling_server_new_def)

interpretation turns_of: simulated_system
  "\<lambda>f. f = running_new addr proxies mx" "running_step from_str" "running_inv proxies mx"
  "\<lambda>s. s = conc_new" "conc_step from_str (Suc (unat mx - 1))" turn_view
  by unfold_locales
    (auto simp: running_inv_new turn_view_new intro: running_inv_step dest: turn_view_step)

interpretation slots_of: simulated_system
  "\<lambda>f. f = running_new addr proxies mx" "running_step from_str" "running_inv proxies mx"
  "\<lambda>s. s = slots_new" "slot_step mx" slot_view
  by unfold_locales
    (auto simp: running_inv_new slot_view_new intro: running_inv_step dest: slot_view_step)


section \<open>Who is listed\<close>

lemma listed_job:
  assumes "reachable (\<lambda>f. f = running_new addr proxies mx) (running_step from_str) f"
    "directory (room_manager (core f)) (ip, code) = Some p"
  obtains c pc sid where "jobs f (sender p) = Some Handling" "turns f (sender p) = Some (c, pc)"
    "conn_ip c = ip" "conn_phase c = Registered code sid"
proof -
  note inv = concsys.inv_reachable [OF turns_of.view_reachable [OF assms(1)]]
  from backsD(1) [OF inv] assms(2) have "backs (turn_view f) ip code p" by (simp add: turn_view_def)
  then obtain c pc where "turns f (sender p) = Some (c, pc)" "conn_ip c = ip"
      "conn_phase c = Registered code (session_id p)"
    by (auto simp: backs_def turn_view_def)
  moreover from this have "jobs f (sender p) = Some Handling"
    using turns_of.inv_reachable [OF assms(1)] by (auto simp: running_inv_def)
  ultimately show thesis using that by blast
qed

text \<open>An address in the table, even with a room just emptied, has a handler at work.\<close>

lemma room_job:
  assumes "reachable (\<lambda>f. f = running_new addr proxies mx) (running_step from_str) f"
    "ip \<in> fst ` set (rooms (room_manager (core f)))"
  obtains tx c pc where "jobs f tx = Some Handling" "turns f tx = Some (c, pc)" "conn_ip c = ip"
proof (cases "room_at ip (room_manager (core f))")
  case (Cons p ps)
  note inv = concsys.inv_reachable [OF turns_of.view_reachable [OF assms(1)]]
  have "directory (room_manager (core f)) (ip, peer_code p) = Some p"
    using member_directory [OF conc_inv_rooms(1) [OF inv], of p ip] Cons by (simp add: turn_view_def)
  from listed_job [OF assms(1) this] that show thesis by metis
next
  case Nil
  note run = turns_of.view_reachable [OF assms(1)]
  note inv = concsys.inv_reachable [OF run]
  have "map_of (rooms (room_manager (core f))) ip \<noteq> None" using assms(2) by (simp add: map_of_eq_None_iff)
  with Nil have "map_of (rooms (shared (turn_view f))) ip = Some []"
    by (auto simp: room_at_def turn_view_def)
  with interleaved_rooms_bounded [OF conc_refines_ivl [OF run]]
  have "ip \<in># emptied (conc_ivl (turn_view f))" by simp
  then obtain tx where "ip \<in># clears (hands (turn_view f) tx)"
    using inv by (auto simp: conc_ivl_def conc_inv_def set_mset_sum)
  then obtain c where c: "hands (turn_view f) tx = Some (c, Clearing)" "conn_ip c = ip"
    by (cases "hands (turn_view f) tx" rule: clears.cases) auto
  then have h: "turns f tx = Some (c, Clearing)" "conn_phase c \<noteq> Closed"
    using hands_okD(2) [OF inv c(1)] by (auto simp: turn_view_def)
  then have "jobs f tx = Some Handling"
    using turns_of.inv_reachable [OF assms(1)] unfolding running_inv_def by blast
  with h c(2) that show thesis by blast
qed

section \<open>Every task can end\<close>

lemma handler_waits:
  assumes "jobs f tx = Some Handling" "turns f tx = Some (c, pc)"
  shows "\<exists>g c'. (running_step from_str)\<^sup>*\<^sup>* f g \<and> jobs g = jobs f \<and> turns g tx = Some (c', Waiting)"
  using assms
proof (induction "pieces_left pc" arbitrary: f c pc rule: less_induct)
  case less
  show ?case
  proof (cases "pc = Waiting")
    case True
    with less.prems show ?thesis by blast
  next
    case False
    obtain c' pc' st where p: "piece c pc (room_manager (core f)) = (c', pc', st)" by (metis prod_cases3)
    let ?g = "set_table st (set_turn tx c' pc' f)"
    have "pieces_left pc' < pieces_left pc" using pieces_left_decreases [OF p] False by (cases pc) auto
    from less.hyps [OF this, of ?g c'] less.prems(1)
    have "\<exists>h c'. (running_step from_str)\<^sup>*\<^sup>* ?g h \<and> jobs h = jobs f \<and> turns h tx = Some (c', Waiting)" by simp
    with run_piece [OF less.prems p] show ?thesis by (meson converse_rtranclp_into_rtranclp)
  qed
qed

text \<open>A handler that has decided to leave closes its connection.\<close>

fun leaving :: "'v pc \<Rightarrow> bool" where
  "leaving HangingUp = True"
| "leaving (Parting code sid) = True"
| "leaving Clearing = True"
| "leaving _ = False"

lemma handler_leaves:
  assumes "jobs f tx = Some Handling" "turns f tx = Some (c, pc)" "leaving pc"
  shows "\<exists>g c' pc'. (running_step from_str)\<^sup>*\<^sup>* f g \<and> jobs g = jobs f \<and> turns g tx = Some (c', pc') \<and>
    conn_phase c' = Closed"
  using assms
proof (induction "pieces_left pc" arbitrary: f c pc rule: less_induct)
  case less
  obtain c' pc' st where p: "piece c pc (room_manager (core f)) = (c', pc', st)" by (metis prod_cases3)
  let ?g = "set_table st (set_turn tx c' pc' f)"
  have step: "running_step from_str f ?g" using run_piece [OF less.prems(1,2) p] .
  show ?case
  proof (cases "pc = HangingUp")
    case True
    with p have "conn_phase c' = Closed" by auto
    with step show ?thesis by (intro exI [of _ ?g] exI [of _ c'] exI [of _ pc']) auto
  next
    case False
    with p less.prems(3) have "leaving pc'" "pc \<noteq> Waiting" by (auto elim!: leaving.elims split: prod.splits)
    moreover from this have "pieces_left pc' < pieces_left pc" using pieces_left_decreases [OF p] by (cases pc) auto
    ultimately have "\<exists>h c' pc'. (running_step from_str)\<^sup>*\<^sup>* ?g h \<and> jobs h = jobs f \<and> turns h tx = Some (c', pc') \<and>
        conn_phase c' = Closed"
      using less.hyps [of pc' ?g c'] less.prems(1) by simp
    with step show ?thesis by (meson converse_rtranclp_into_rtranclp)
  qed
qed

lemma decide_gone: "decide from_str now (Ready None) c = (c', pc) \<Longrightarrow> conn_phase c \<noteq> Closed \<Longrightarrow> leaving pc"
  by (auto simp: decide_def decide_item_def split: phase.splits)

lemma handler_ends:
  assumes "jobs f tx = Some Handling" "turns f tx = Some (c, pc)"
  shows "\<exists>g. (running_step from_str)\<^sup>*\<^sup>* f g \<and> jobs g = (jobs f)(tx := None)"
proof -
  obtain g c1 where g: "(running_step from_str)\<^sup>*\<^sup>* f g" "jobs g = jobs f" "turns g tx = Some (c1, Waiting)"
    using handler_waits [OF assms] by blast
  have "\<exists>h c' pc'. (running_step from_str)\<^sup>*\<^sup>* g h \<and> jobs h = jobs g \<and> turns h tx = Some (c', pc') \<and>
      conn_phase c' = Closed"
  proof (cases "conn_phase c1 = Closed")
    case True
    with g(3) show ?thesis by blast
  next
    case False
    obtain c2 pc2 where d: "decide from_str 0 (Ready None) c1 = (c2, pc2)" by fastforce
    have job: "jobs g tx = Some Handling" using g(2) assms(1) by simp
    let ?h = "set_turn tx c2 pc2 g"
    have "jobs ?h tx = Some Handling" "turns ?h tx = Some (c2, pc2)" using job by simp_all
    from handler_leaves [OF this decide_gone [OF d False], of from_str]
    have "\<exists>h c' pc'. (running_step from_str)\<^sup>*\<^sup>* ?h h \<and> jobs h = jobs g \<and> turns h tx = Some (c', pc') \<and>
        conn_phase c' = Closed" by simp
    with run_event [OF job g(3) d] show ?thesis by (meson converse_rtranclp_into_rtranclp)
  qed
  then obtain h c2 pc2 where h: "(running_step from_str)\<^sup>*\<^sup>* g h" "jobs h = jobs g" "turns h tx = Some (c2, pc2)"
      "conn_phase c2 = Closed" by blast
  have "running_step from_str h (drop_job tx h)" using h g(2) assms(1) by (intro run_end) simp_all
  with g h show ?thesis by (intro exI [of _ "drop_job tx h"]) (auto simp: drop_job_def)
qed

lemma job_ends:
  assumes "running_inv proxies mx f" "jobs f tx = Some t"
  shows "\<exists>g. (running_step from_str)\<^sup>*\<^sup>* f g \<and> jobs g = (jobs f)(tx := None)"
proof (cases t)
  case (Accepting addr)
  obtain r st where "handle_connection from_str (trusted_proxies (core f)) addr None None tx 0 []
      (room_manager (core f)) = (r, st)" by fastforce
  from run_answered [OF _ this] assms(2) Accepting
  have "running_step from_str f (drop_job tx (set_table st f))" by simp
  then show ?thesis by (intro exI [of _ "drop_job tx (set_table st f)"]) (simp add: drop_job_def r_into_rtranclp)
next
  case Handling
  with assms obtain c pc where "turns f tx = Some (c, pc)" by (auto simp: running_inv_def)
  with Handling assms(2) show ?thesis by (intro handler_ends) simp_all
qed

section \<open>Properties\<close>

text \<open>
  C9: the whole server under true concurrency. In every run of the accept loop, with the counter
  loaded and exchanged in separate steps while tasks end and all handlers interleave piece by
  piece, the counter follows the protocol of the slots and the handlers are those of the
  concurrent room manager; the counter is the number of tasks and at most the configured
  maximum; every listed peer has a task of its own, and there are never more peers, nor more
  rooms, than tasks that handle a connection. So no race ever makes the room table larger than the
  connections that the accept loop has let in.
\<close>

theorem running_server_bounded:
  assumes "reachable (\<lambda>f. f = running_new addr proxies mx) (running_step from_str) f"
  shows "reachable (\<lambda>s. s = slots_new) (slot_step mx) (slot_view f) \<and>
    reachable (\<lambda>s. s = conc_new) (conc_step from_str (Suc (unat mx - 1))) (turn_view f) \<and>
    unat (active_connections (core f)) = card (dom (jobs f)) \<and> card (dom (jobs f)) \<le> unat mx \<and>
    (\<forall>k p. directory (room_manager (core f)) k = Some p \<longrightarrow> jobs f (sender p) = Some Handling) \<and>
    peer_count (room_manager (core f)) \<le> card {tx. jobs f tx = Some Handling} \<and>
    room_count (room_manager (core f)) \<le> card {tx. jobs f tx = Some Handling}"
proof -
  let ?st = "room_manager (core f)" and ?H = "{tx. jobs f tx = Some Handling}"
  note inv = turns_of.inv_reachable [OF assms]
  note rooms = conc_inv_rooms [OF concsys.inv_reachable [OF turns_of.view_reachable [OF assms]]]
  have fin: "finite ?H" using running_inv_counts(3) [OF inv] by (rule finite_subset [rotated]) auto
  let ?key = "\<lambda>tx. case turns f tx of Some (c, _) \<Rightarrow>
      (conn_ip c, case conn_phase c of Registered code _ \<Rightarrow> code | _ \<Rightarrow> [])"
  have "dom (directory ?st) \<subseteq> ?key ` ?H"
  proof
    fix k assume "k \<in> dom (directory ?st)"
    then obtain ip code p where k: "k = (ip, code)" "directory ?st (ip, code) = Some p" by (cases k) auto
    obtain c pc sid where "jobs f (sender p) = Some Handling" "turns f (sender p) = Some (c, pc)"
        "conn_ip c = ip" "conn_phase c = Registered code sid"
      using k(2) by (rule listed_job [OF assms])
    then show "k \<in> ?key ` ?H" unfolding k(1) by (intro image_eqI [of _ _ "sender p"]) simp_all
  qed
  then have "card (dom (directory ?st)) \<le> card ?H" using fin by (rule surj_card_le [rotated])
  moreover have "peer_count ?st = card (dom (directory ?st))"
    using rooms by (intro peer_count_codes) (simp_all add: turn_view_def)
  moreover have "fst ` set (rooms ?st) \<subseteq> (\<lambda>tx. conn_ip (fst (the (turns f tx)))) ` ?H"
  proof
    fix ip assume ip: "ip \<in> fst ` set (rooms ?st)"
    obtain tx c pc where "jobs f tx = Some Handling" "turns f tx = Some (c, pc)" "conn_ip c = ip"
      using ip by (rule room_job [OF assms])
    then show "ip \<in> (\<lambda>tx. conn_ip (fst (the (turns f tx)))) ` ?H"
      by (intro image_eqI [of _ _ tx]) simp_all
  qed
  then have "card (fst ` set (rooms ?st)) \<le> card ?H" using fin by (rule surj_card_le [rotated])
  moreover have "card (fst ` set (rooms ?st)) = room_count ?st"
    using rooms(2) distinct_card [of "map fst (rooms ?st)"] by (simp add: turn_view_def room_count_def)
  moreover have "\<forall>k p. directory ?st k = Some p \<longrightarrow> jobs f (sender p) = Some Handling"
    using listed_job [OF assms] by (metis surj_pair)
  ultimately show ?thesis
    using turns_of.view_reachable [OF assms] slots_of.view_reachable [OF assms] running_inv_counts(1,2) [OF inv]
    by simp
qed


text \<open>A run of one connection, from the accept loop to a registered peer.\<close>

abbreviation running_reachable :: "nat running \<Rightarrow> bool" where
  "running_reachable \<equiv> reachable (\<lambda>f. f = running_new (V4 0 0 0 0, 3001) [] 1) (running_step register_a)"

definition running_a :: "nat running" where
  "running_a =
     (let f = running_new (V4 0 0 0 0, 3001) [] 1;
          (c, st) = open_connection (client_room [] (V4 203 0 113 7) NoHeader NoHeader) 0 0 (room_manager (core f))
      in set_table st (set_turn 0 c Waiting
           (f\<lparr>core := (core f)\<lparr>active_connections := 1\<rparr>, jobs := [0 \<mapsto> Handling]\<rparr>)))"

lemma running_a_reachable: "running_reachable running_a"
proof -
  define new :: "nat running" where "new = running_new (V4 0 0 0 0, 3001) [] 1"
  define loaded where "loaded = new\<lparr>claimed := Some (active_connections (core new))\<rparr>"
  define accepted where "accepted = loaded\<lparr>core := (core loaded)\<lparr>active_connections := 0 + 1\<rparr>, claimed := None,
      jobs := (jobs loaded)(0 \<mapsto> Accepting (V4 203 0 113 7))\<rparr>"
  note eqs = new_def running_new_def with_max_connections_def with_trusted_proxies_def signaling_server_new_def
  obtain c st where o: "open_connection (client_room [] (V4 203 0 113 7) NoHeader NoHeader) 0 0
      (room_manager (core new)) = (c, st)" by fastforce
  have "running_reachable new" by (rule reach_init) (rule new_def)
  moreover have "running_step register_a new loaded"
    unfolding loaded_def by (rule run_load) (simp_all add: eqs)
  ultimately have "running_reachable loaded" by (rule reach_step)
  moreover have "running_step register_a loaded accepted"
    unfolding accepted_def by (rule run_accept) (simp_all add: loaded_def eqs)
  ultimately have "running_reachable accepted" by (rule reach_step)
  moreover have "running_step register_a accepted
      (set_table st (set_turn 0 c Waiting (accepted\<lparr>jobs := (jobs accepted)(0 \<mapsto> Handling)\<rparr>)))"
  proof (rule run_open)
    show "classify_request (Some ''Upgrade: websocket'') = Handshake" by code_simp
    show "open_connection (client_room (trusted_proxies (core accepted)) (V4 203 0 113 7) NoHeader NoHeader) 0 0
        (room_manager (core accepted)) = (c, st)" using o by (simp add: accepted_def loaded_def eqs)
    show "jobs accepted 0 = Some (Accepting (V4 203 0 113 7))" by (simp add: accepted_def)
  qed
  ultimately have "running_reachable (set_table st (set_turn 0 c Waiting (accepted\<lparr>jobs := (jobs accepted)(0 \<mapsto> Handling)\<rparr>)))"
    by (rule reach_step)
  moreover have "set_table st (set_turn 0 c Waiting (accepted\<lparr>jobs := (jobs accepted)(0 \<mapsto> Handling)\<rparr>)) = running_a"
    using o by (simp add: running_a_def accepted_def loaded_def eqs)
  ultimately show ?thesis by (simp only:)
qed

theorem running_server_bounded_witness:
  "unat (active_connections (core running_a)) = 1 \<and> room_count (room_manager (core running_a)) \<le> 1 \<and>
   peer_count (room_manager (core running_a)) \<le> 1"
proof -
  have jobs: "jobs running_a = [0 \<mapsto> Handling]" by (simp add: running_a_def split_beta Let_def)
  then have "{tx. jobs running_a tx = Some Handling} = {0}" by auto
  with running_server_bounded [OF running_a_reachable] jobs show ?thesis by simp
qed



end
