(* ===== verification/Running_Delivery.thy ===== *)
theory Running_Delivery
  imports Running_Server Delivery
begin

text \<open>
  Order and delivery of messages when everything interleaves: the handlers of many tasks append to
  the queue of one connection between any two pieces of each other, and its write task takes from
  it at the same time.
\<close>

section \<open>Pieces only append\<close>

lemma grows_add_entry: "grows st (snd (add_peer_entry ip p st))"
  by (auto simp: add_peer_entry_def Let_def split: sum.splits intro!: grows_intros)

lemma grows_add_begin: "grows st (snd (add_peer_begin ip p st))"
  by (auto simp: add_peer_begin_def Let_def intro!: grows_intros)

lemma grows_remove_locked: "grows st (snd (remove_peer_locked ip code sid st))"
  by (auto simp: remove_peer_locked_def Let_def split: option.splits intro!: grows_intros)

lemma grows_piece: "piece c pc st = (c', pc', st') \<Longrightarrow> grows st st'"
  using grows_add_entry [of st "conn_ip c"] grows_add_begin [of st "conn_ip c"]
    grows_remove_locked [of st "conn_ip c"] grows_send [OF grows_refl, of st]
  by (cases pc) (auto simp: remove_room_def split: prod.splits option.splits sum.splits bool.splits
      intro!: grows_intros, (metis snd_conv)+)

section \<open>Runs\<close>

lemma table_step:
  assumes "running_inv proxies mx f" "running_step from_str f g" "turns f tx \<noteq> None"
  shows "in_order tx (room_manager (core f)) (room_manager (core g)) \<and> turns g tx \<noteq> None"
  using assms(2)
proof (cases rule: running_step.cases)
  case (run_answered tx' addr peeked now r st)
  then show ?thesis using answered_frame [OF run_answered(3)] assms(3) by (simp add: drop_job_def in_order_refl)
next
  case (run_open tx' addr peeked fly xff now c st)
  then have "tx' \<noteq> tx" using assms(1,3) by (auto simp: running_inv_def)
  with in_order_open [OF run_open(4), of tx] run_open(1) assms(3) show ?thesis by simp
next
  case (run_piece tx' c pc c' pc' st)
  with in_order_grows [OF grows_piece [OF run_piece(4)], of tx] assms(3) show ?thesis by simp
next
  case (run_write tx' ok)
  with in_order_write assms(3) show ?thesis by simp
qed (use assms(3) in \<open>simp_all add: in_order_refl drop_job_def\<close>)

lemma table_run:
  assumes "(running_step from_str)\<^sup>*\<^sup>* f g" "running_inv proxies mx f" "turns f tx \<noteq> None"
  shows "in_order tx (room_manager (core f)) (room_manager (core g)) \<and> turns g tx \<noteq> None"
  using assms(1)
proof (induction rule: rtranclp_induct)
  case base
  with assms(3) show ?case by (simp add: in_order_refl)
next
  case (step g h)
  from turns_of.inv_steps [OF step(1) assms(2)] step table_step [of proxies mx g from_str h tx]
  show ?case using in_order_trans by blast
qed

lemma running_writes:
  "(running_step from_str)\<^sup>*\<^sup>* f (set_table ((write_task_step tx True ^^ n) (room_manager (core f))) f)"
proof (induction n)
  case (Suc n)
  with run_write [of from_str "set_table ((write_task_step tx True ^^ n) (room_manager (core f))) f" tx True]
  show ?case by (simp add: rtranclp.rtrancl_into_rtrancl)
qed simp

section \<open>Properties\<close>



end
