(* ===== verification/Ffi.thy ===== *)
theory Ffi
  imports Rust_Std
begin

text \<open>
  What the modules of the C-ABI bridge \<open>native/shared/src\<close> share: C strings crossing the
  boundary in both directions, the files they write, and the interface of the bounded buffers
  that callbacks fill and the shell reads.

  A C string pointer is \<^const>\<open>None\<close> when null and otherwise the bytes before the
  terminator; an opaque handle is \<^const>\<open>None\<close> when null and otherwise the object behind it.
\<close>

section \<open>Strings from the shell\<close>

text \<open>
  Well-formed UTF-8, as \<open>CStr::to_str\<close> checks it: no overlong forms, no surrogates, nothing
  above U+10FFFF.
\<close>

definition byte_in :: "char \<Rightarrow> nat \<Rightarrow> nat \<Rightarrow> bool" where
  "byte_in c lo hi \<longleftrightarrow> lo \<le> byte c \<and> byte c \<le> hi"

definition utf8_pair :: "char \<Rightarrow> char \<Rightarrow> bool" where
  "utf8_pair a b \<longleftrightarrow> byte_in a 194 223 \<and> is_continuation b"

definition utf8_triple :: "char \<Rightarrow> char \<Rightarrow> char \<Rightarrow> bool" where
  "utf8_triple a b c \<longleftrightarrow>
     byte_in a 224 239 \<and> is_continuation b \<and> is_continuation c \<and>
     (byte a = 224 \<longrightarrow> 160 \<le> byte b) \<and> (byte a = 237 \<longrightarrow> byte b < 160)"

definition utf8_quad :: "char \<Rightarrow> char \<Rightarrow> char \<Rightarrow> char \<Rightarrow> bool" where
  "utf8_quad a b c d \<longleftrightarrow>
     byte_in a 240 244 \<and> is_continuation b \<and> is_continuation c \<and> is_continuation d \<and>
     (byte a = 240 \<longrightarrow> 144 \<le> byte b) \<and> (byte a = 244 \<longrightarrow> byte b < 144)"

fun utf8_valid :: "string \<Rightarrow> bool" where
  "utf8_valid [] = True"
| "utf8_valid (a # s) =
     (if byte a < 128 then utf8_valid s
      else (case s of
              [] \<Rightarrow> False
            | b # s1 \<Rightarrow>
                (utf8_pair a b \<and> utf8_valid s1) \<or>
                (case s1 of
                   [] \<Rightarrow> False
                 | c # s2 \<Rightarrow>
                     (utf8_triple a b c \<and> utf8_valid s2) \<or>
                     (case s2 of
                        [] \<Rightarrow> False
                      | d # s3 \<Rightarrow> utf8_quad a b c d \<and> utf8_valid s3))))"

definition validate_cstr :: "string option \<Rightarrow> string option" where
  "validate_cstr ptr =
     (case ptr of None \<Rightarrow> None | Some s \<Rightarrow> if utf8_valid s then Some s else None)"

definition cstr_to_string :: "string option \<Rightarrow> string" where
  "cstr_to_string ptr =
     (case ptr of None \<Rightarrow> [] | Some s \<Rightarrow> if utf8_valid s then s else [])"

definition optional_cstr :: "string option \<Rightarrow> (unit, string option) result" where
  "optional_cstr ptr =
     (case ptr of
        None \<Rightarrow> Inr None
      | Some s \<Rightarrow>
          if \<not> utf8_valid s then Inl ()
          else (let value = trim s in if value = [] then Inr None else Inr (Some value)))"

text \<open>The text of a string of characters is well-formed.\<close>

lemma utf8_valid_ascii: "list_all (\<lambda>c. byte c < 128) s \<Longrightarrow> utf8_valid s"
  by (induction s) auto

lemma utf8_valid_lead3:
  assumes "224 \<le> byte a" "byte a < 240" "utf8_triple a b c"
  shows "utf8_valid (a # b # c # s) \<longleftrightarrow> utf8_valid s"
  using assms by (cases s) (auto simp: utf8_pair_def utf8_quad_def byte_in_def)

lemma utf8_valid_lead4:
  assumes "240 \<le> byte a" "utf8_quad a b c d"
  shows "utf8_valid (a # b # c # d # s) \<longleftrightarrow> utf8_valid s"
  using assms by (auto simp: utf8_pair_def utf8_triple_def byte_in_def)

lemma digits2: "n = 4096 * (n div 4096) + 64 * (n div 64 mod 64) + n mod 64" for n :: nat
proof -
  have "n div 64 div 64 = n div 4096" by (simp add: div_mult2_eq [symmetric])
  then have "n div 64 = 64 * (n div 4096) + n div 64 mod 64" by (metis mult_div_mod_eq)
  moreover have "n = 64 * (n div 64) + n mod 64" by simp
  ultimately show ?thesis by linarith
qed

lemma digits3: "n = 262144 * (n div 262144) + 4096 * (n div 4096 mod 64) + 64 * (n div 64 mod 64) + n mod 64"
  for n :: nat
proof -
  have "n div 4096 div 64 = n div 262144" by (simp add: div_mult2_eq [symmetric])
  then have "n div 4096 = 64 * (n div 262144) + n div 4096 mod 64" by (metis mult_div_mod_eq)
  then show ?thesis using digits2 [of n] by linarith
qed

lemma utf8_valid_char:
  assumes "scalar_value n"
  shows "utf8_valid (utf8_char n @ s) \<longleftrightarrow> utf8_valid s"
proof -
  have "n < 1114112" using assms by (auto simp: scalar_value_def)
  then consider "n < 128" | "128 \<le> n" "n < 2048" | "2048 \<le> n" "n < 65536" | "65536 \<le> n" "n < 1114112"
    by linarith
  then show ?thesis
  proof cases
    case 1
    then show ?thesis by (simp add: utf8_char_def)
  next
    case 2
    then have "n div 64 < 32" "2 \<le> n div 64" by auto
    with 2 show ?thesis
      by (cases s) (auto simp: utf8_char_def utf8_pair_def utf8_triple_def utf8_quad_def byte_in_def
          is_continuation_def split: list.splits)
  next
    case 3
    let ?a = "n div 4096" and ?b = "n div 64 mod 64" and ?c = "n mod 64"
    have n: "n = 4096 * ?a + 64 * ?b + ?c"
      by (rule digits2)
    have r: "?a < 16" "?b < 64" "?c < 64" using 3 by auto
    have lo: "32 \<le> ?b" if "?a = 0" using n r that 3 by linarith
    have hi: "?b < 32" if "?a = 13" using n r that assms by (auto simp: scalar_value_def)
    have "utf8_triple (char_of (224 + ?a)) (char_of (128 + ?b)) (char_of (128 + ?c))"
      using r lo hi by (auto simp: utf8_triple_def byte_in_def is_continuation_def)
    from utf8_valid_lead3 [OF _ _ this, of s] r 3 show ?thesis by (simp add: utf8_char_def)
  next
    case 4
    let ?a = "n div 262144" and ?b = "n div 4096 mod 64" and ?c = "n div 64 mod 64" and ?d = "n mod 64"
    have n: "n = 262144 * ?a + 4096 * ?b + 64 * ?c + ?d"
      by (rule digits3)
    have r: "?a < 5" "?b < 64" "?c < 64" "?d < 64" using 4 by auto
    have lo: "16 \<le> ?b" if "?a = 0" using n r that 4 by linarith
    have hi: "?b < 16" if "?a = 4" using n r that 4 by linarith
    have "utf8_quad (char_of (240 + ?a)) (char_of (128 + ?b)) (char_of (128 + ?c)) (char_of (128 + ?d))"
      using r lo hi by (auto simp: utf8_quad_def byte_in_def is_continuation_def)
    from utf8_valid_lead4 [OF _ this, of s] r 4 show ?thesis by (simp add: utf8_char_def)
  qed
qed

lemma utf8_valid_utf8: "(\<And>c. c \<in> set cs \<Longrightarrow> scalar_value c) \<Longrightarrow> utf8_valid (utf8 cs)"
  by (induction cs) (simp_all add: utf8_valid_char)

section \<open>Files the bridge writes\<close>

text \<open>
  The part of the file system the bridge touches: a path has contents or not. Which writes
  succeed is up to the system.
\<close>

type_synonym files = "string \<Rightarrow> string option"

definition write_file :: "(string \<Rightarrow> bool) \<Rightarrow> string \<Rightarrow> string \<Rightarrow> files \<Rightarrow> bool \<times> files" where
  "write_file writable path contents fs =
     (if writable path then (True, fs(path \<mapsto> contents)) else (False, fs))"

definition c_bool :: "bool \<Rightarrow> int" where
  "c_bool b = (if b then 1 else 0)"

section \<open>Values of the core library\<close>

text \<open>
  The functions of \<open>lib.rs\<close> that hand a string of \<open>bolt_core\<close> or \<open>bolt_app_core\<close> to the
  shell, and the health probe; what the core library returns is their argument.
\<close>

definition bolt_generate_peer_code :: "string \<Rightarrow> string option" where
  "bolt_generate_peer_code code = cstring_new code"

definition bolt_platform_data_dir :: "string \<Rightarrow> string option" where
  "bolt_platform_data_dir dir = cstring_new dir"

definition bolt_platform_ipc_path :: "string \<Rightarrow> string option" where
  "bolt_platform_ipc_path ipc_path = cstring_new ipc_path"

definition bolt_probe_signal_health :: "bool \<Rightarrow> int" where
  "bolt_probe_signal_health healthy = c_bool healthy"

section \<open>Bounded buffers\<close>

text \<open>
  A callback pushes lines into a buffer that never grows past its capacity, keeping some of
  what was pushed, in order. What to drop differs: the daemon's buffer forgets its oldest
  lines, the event queue refuses new ones.
\<close>

locale bounded_buffer =
  fixes push :: "'a \<Rightarrow> 'a list \<Rightarrow> 'a list"
    and capacity :: nat
  assumes push_bound: "length q \<le> capacity \<Longrightarrow> length (push x q) \<le> capacity"
    and push_keeps: "subseq (push x q) (q @ [x])"
    and push_below: "length q < capacity \<Longrightarrow> push x q = q @ [x]"
begin

lemma fold_bound: "length q \<le> capacity \<Longrightarrow> length (fold push xs q) \<le> capacity"
  by (induction xs arbitrary: q) (simp_all add: push_bound)

lemma fold_keeps: "subseq (fold push xs q) (q @ xs)"
proof (induction xs arbitrary: q)
  case Nil
  then show ?case by simp
next
  case (Cons x xs)
  have "subseq (push x q @ xs) ((q @ [x]) @ xs)"
    by (rule list_emb_append_mono [OF push_keeps]) simp
  with Cons [of "push x q"] show ?case by (auto intro: subseq_order.trans)
qed

lemma fold_below: "length q + length xs \<le> capacity \<Longrightarrow> fold push xs q = q @ xs"
  by (induction xs arbitrary: q) (simp_all add: push_below)

end

section \<open>Joined lines\<close>

text \<open>
  A drained buffer crosses the boundary as one string, its lines joined by newlines. A string
  with a NUL byte cannot cross; then the shell gets null.
\<close>

definition newline :: char where
  "newline = CHR 0x0A"

definition join_lines :: "string list \<Rightarrow> string" where
  "join_lines ls = join_with [newline] ls"

definition plain_line :: "string \<Rightarrow> bool" where
  "plain_line l \<longleftrightarrow> newline \<notin> set l \<and> CHR 0x00 \<notin> set l"

lemma join_lines_plain:
  assumes "list_all plain_line ls" "ls \<noteq> []"
  shows "cstring_new (join_lines ls) = Some (join_lines ls)"
    and "split_on newline (join_lines ls) = ls"
proof -
  have "CHR 0x00 \<notin> set (join_lines ls)"
    using assms(1) set_join_with [of "[newline]" ls]
    by (auto simp: join_lines_def newline_def list_all_iff plain_line_def)
  then show "cstring_new (join_lines ls) = Some (join_lines ls)" by (simp add: cstring_new_def)
  show "split_on newline (join_lines ls) = ls"
    using assms unfolding join_lines_def
    by (intro split_join) (auto simp: list_all_iff plain_line_def)
qed

end
