(* ===== verification/Line_Reader.thy ===== *)
theory Line_Reader
  imports Ffi
begin

text \<open>
  Reading lines from a stream that arrives in pieces: \<open>BufReader\<close> and \<open>lines\<close> of the Rust
  standard library, which both the daemon's error output (\<open>native/shared/src/daemon.rs\<close>) and the
  event loop of the command line shell (\<open>native/linux/cli/src/main.rs\<close>) go through.
\<close>

section \<open>The next line\<close>

text \<open>
  A read of the socket delivers bytes (none at the end of the stream), runs into the read
  timeout, or fails with an error of another kind. (\<open>BufReader\<close> repeats interrupted reads.)
\<close>

datatype read_error = WouldBlock | TimedOut | Failed string

type_synonym read_result = "(read_error, string) result"

text \<open>
  \<open>Lines::next\<close>: collect bytes up to a newline. The bytes of a line whose read fails are
  dropped with the buffer of the call. The text must be valid UTF-8; the newline, and a
  carriage return before it, are removed.
\<close>

definition strip_newline :: "string \<Rightarrow> string" where
  "strip_newline s =
     (if s \<noteq> [] \<and> last s = newline then
        (let s' = butlast s in if s' \<noteq> [] \<and> last s' = CHR 0x0D then butlast s' else s')
      else s)"

definition line_done :: "string \<Rightarrow> read_result option" where
  "line_done s =
     (if s = [] then None
      else if utf8_valid s then Some (Inr (strip_newline s))
      else Some (Inl (Failed ''stream did not contain valid UTF-8'')))"

function next_line ::
    "string \<Rightarrow> string \<Rightarrow> read_result list \<Rightarrow> read_result option \<times> string \<times> read_result list" where
  "next_line acc buf reads =
     (if newline \<in> set buf then
        (line_done (acc @ takeWhile (\<lambda>c. c \<noteq> newline) buf @ [newline]),
         tl (dropWhile (\<lambda>c. c \<noteq> newline) buf), reads)
      else
        (case reads of
           [] \<Rightarrow> (line_done (acc @ buf), [], [])
         | Inl e # rs \<Rightarrow> (Some (Inl e), [], rs)
         | Inr bs # rs \<Rightarrow>
             if bs = [] then (line_done (acc @ buf), [], rs) else next_line (acc @ buf) bs rs))"
  by pat_completeness auto
termination
  by (relation "measure (\<lambda>(acc, buf, reads). length reads)") auto

declare next_line.simps [simp del]

lemma next_line_in_buffer:
  "newline \<notin> set l \<Longrightarrow> next_line acc (l @ newline # buf) reads = (line_done (acc @ l @ [newline]), buf, reads)"
  by (subst next_line.simps) (simp add: takeWhile_append dropWhile_append)

lemma next_line_refill:
  "newline \<notin> set buf \<Longrightarrow> bs \<noteq> [] \<Longrightarrow>
     next_line acc buf (Inr bs # reads) = next_line (acc @ buf) bs reads"
  by (subst next_line.simps) simp

lemma next_line_eof:
  "newline \<notin> set buf \<Longrightarrow> next_line acc buf [] = (line_done (acc @ buf), [], [])"
  by (subst next_line.simps) simp

lemma next_line_error:
  "newline \<notin> set buf \<Longrightarrow> next_line acc buf (Inl e # reads) = (Some (Inl e), [], reads)"
  by (subst next_line.simps) simp

text \<open>Every line or error the loop gets uses up some of what there is to read.\<close>

definition pending_size :: "string \<Rightarrow> read_result list \<Rightarrow> nat" where
  "pending_size buf reads = length buf + (\<Sum>r\<leftarrow>reads. case r of Inl _ \<Rightarrow> 1 | Inr bs \<Rightarrow> Suc (length bs))"

lemma next_line_consumes:
  "next_line acc buf reads = (r, buf', reads') \<Longrightarrow>
     pending_size buf' reads' \<le> pending_size buf reads \<and>
     (acc = [] \<longrightarrow> r \<noteq> None \<longrightarrow> pending_size buf' reads' < pending_size buf reads)"
proof (induction acc buf reads arbitrary: r buf' reads' rule: next_line.induct)
  case (1 acc buf reads)
  show ?case
  proof (cases "newline \<in> set buf")
    case True
    then obtain l rest where "buf = l @ newline # rest" "newline \<notin> set l"
      by (meson split_list_first)
    with 1(2) show ?thesis by (auto simp: next_line_in_buffer pending_size_def)
  next
    case False
    show ?thesis
    proof (cases reads)
      case Nil
      with 1(2) False show ?thesis
        by (auto simp: next_line_eof pending_size_def line_done_def split: if_splits)
    next
      case (Cons e rs)
      show ?thesis
      proof (cases e)
        case (Inl err)
        with 1(2) Cons False show ?thesis by (auto simp: next_line_error pending_size_def)
      next
        case (Inr bs)
        show ?thesis
        proof (cases "bs = []")
          case True
          with 1(2) Cons Inr False show ?thesis
            by (auto simp: next_line.simps [of acc buf "Inr [] # rs"] pending_size_def)
        next
          case bs: False
          with 1(2) Cons Inr False have "next_line (acc @ buf) bs rs = (r, buf', reads')"
            by (simp add: next_line_refill)
          from 1(1) [OF False Cons Inr bs this] show ?thesis
            by (simp add: Cons Inr pending_size_def)
        qed
      qed
    qed
  qed
qed

lemma next_line_progress:
  "(Some r, buf', reads') = next_line [] buf reads \<Longrightarrow> pending_size buf' reads' < pending_size buf reads"
  using next_line_consumes [of "[]" buf reads "Some r" buf' reads'] by simp

section \<open>Lines of text\<close>

text \<open>A line that survives being written with a newline and read back.\<close>

lemma utf8_valid_append: "utf8_valid s \<Longrightarrow> utf8_valid t \<Longrightarrow> utf8_valid (s @ t)"
proof (induction "length s" arbitrary: s rule: less_induct)
  case less
  have rest: "utf8_valid r \<Longrightarrow> length r < length s \<Longrightarrow> utf8_valid (r @ t)" for r
    using less by blast
  show ?case
  proof (cases s)
    case Nil
    with less.prems show ?thesis by simp
  next
    case (Cons a r)
    consider "byte a < 128" "utf8_valid r"
      | b r1 where "\<not> byte a < 128" "r = b # r1" "utf8_pair a b" "utf8_valid r1"
      | b c r2 where "\<not> byte a < 128" "r = b # c # r2" "utf8_triple a b c" "utf8_valid r2"
      | b c d r3 where "\<not> byte a < 128" "r = b # c # d # r3" "utf8_quad a b c d" "utf8_valid r3"
      using less.prems(1) unfolding Cons utf8_valid.simps(2) [of a r]
      by (cases r; cases "tl r"; cases "tl (tl r)")
        (auto simp del: utf8_valid.simps(2) split: if_splits)
    then show ?thesis
      by cases (simp_all add: Cons rest)
  qed
qed

definition text_line :: "string \<Rightarrow> bool" where
  "text_line l \<longleftrightarrow> newline \<notin> set l \<and> utf8_valid l \<and> (l = [] \<or> last l \<noteq> CHR 0x0D)"

lemma line_done_text_line: "text_line l \<Longrightarrow> line_done (l @ [newline]) = Some (Inr l)"
  by (auto simp: text_line_def line_done_def strip_newline_def utf8_valid_append newline_def)

lemma next_line_chunks:
  "newline \<notin> set l \<Longrightarrow> buf @ concat chunks = l @ newline # rest \<Longrightarrow> [] \<notin> set chunks \<Longrightarrow>
     \<exists>buf' chunks'. next_line acc buf (map Inr chunks) =
         (line_done (acc @ l @ [newline]), buf', map Inr chunks') \<and>
       buf' @ concat chunks' = rest \<and> [] \<notin> set chunks'"
proof (induction chunks arbitrary: acc buf l)
  case Nil
  then have "buf = l @ newline # rest" by simp
  with Nil.prems have "next_line acc buf (map Inr []) = (line_done (acc @ l @ [newline]), rest, map Inr [])"
    by (simp add: next_line_in_buffer)
  then show ?case by fastforce
next
  case (Cons c cs)
  show ?case
  proof (cases "newline \<in> set buf")
    case True
    then obtain l' rest' where b: "buf = l' @ newline # rest'" "newline \<notin> set l'"
      by (meson split_list_first)
    with Cons.prems(1,2) have "l' = l" "rest' @ concat (c # cs) = rest"
      by (auto simp: append_eq_append_conv2 append_eq_Cons_conv Cons_eq_append_conv)
    with b Cons.prems(3) show ?thesis
      by (intro exI [of _ rest'] exI [of _ "c # cs"]) (simp add: next_line_in_buffer)
  next
    case False
    with Cons.prems(2) have "\<exists>l'. l = buf @ l' \<and> c @ concat cs = l' @ newline # rest"
      by (auto simp: append_eq_append_conv2 append_eq_Cons_conv)
    then obtain l' where l: "l = buf @ l'" "c @ concat cs = l' @ newline # rest" by blast
    from Cons.prems(3) have "c \<noteq> []" by auto
    with l Cons.IH [of l' c "acc @ buf"] Cons.prems(1,3) False show ?thesis
      by (simp add: next_line_refill)
  qed
qed

end
