(* ===== verification/Text_Safety.thy ===== *)
theory Text_Safety
  imports Concurrent_Properties Line_Reader
begin

text \<open>
  Rust strings are UTF-8. The model keeps them as bytes, so this has to be shown: whatever the
  clients send and however the handlers interleave, every string the server stores, is about
  to send or has sent is UTF-8, because the parser yields only such strings and no operation
  of the server cuts one apart. The writer of the wire format relies on it.
\<close>

section \<open>Text\<close>

definition opt_text :: "string option \<Rightarrow> bool" where
  "opt_text x = (case x of None \<Rightarrow> True | Some s \<Rightarrow> utf8_valid s)"

definition peer_text :: "peer_info \<Rightarrow> bool" where
  "peer_text p \<longleftrightarrow> utf8_valid (peer_code p) \<and> utf8_valid (device_name p) \<and> opt_text (wt_url p) \<and>
     opt_text (wt_cert_hash p)"

definition data_text :: "peer_data \<Rightarrow> bool" where
  "data_text d \<longleftrightarrow> utf8_valid (pd_peer_code d) \<and> utf8_valid (pd_device_name d) \<and> opt_text (pd_wt_url d) \<and>
     opt_text (pd_wt_cert_hash d)"

fun client_text :: "'v client_message \<Rightarrow> bool" where
  "client_text (Register code name dt url hash) \<longleftrightarrow>
     utf8_valid code \<and> utf8_valid name \<and> opt_text url \<and> opt_text hash"
| "client_text (Signal to payload) \<longleftrightarrow> utf8_valid to"
| "client_text (ManualSignal to payload) \<longleftrightarrow> utf8_valid to"
| "client_text Ping \<longleftrightarrow> True"

fun server_text :: "'v server_message \<Rightarrow> bool" where
  "server_text (Peers ds) \<longleftrightarrow> list_all data_text ds"
| "server_text (PeerJoined d) \<longleftrightarrow> data_text d"
| "server_text (PeerLeft code) \<longleftrightarrow> utf8_valid code"
| "server_text (ServerSignal from payload) \<longleftrightarrow> utf8_valid from"
| "server_text (ServerError e) \<longleftrightarrow> utf8_valid e"

text \<open>The parser's results and error texts are Rust strings.\<close>

definition parser_text :: "(string \<Rightarrow> (string, 'v client_message) result) \<Rightarrow> bool" where
  "parser_text from_str \<longleftrightarrow> (\<forall>s. case from_str s of Inl e \<Rightarrow> utf8_valid e | Inr m \<Rightarrow> client_text m)"

definition chans_text :: "'v rv_state \<Rightarrow> bool" where
  "chans_text st \<longleftrightarrow> (\<forall>ch. list_all server_text (queue (chans st ch)) \<and> list_all server_text (wire (chans st ch)))"

definition rooms_text :: "'v rv_state \<Rightarrow> bool" where
  "rooms_text st \<longleftrightarrow> (\<forall>ip. list_all peer_text (room_at ip st))"

definition conn_text :: "conn \<Rightarrow> bool" where
  "conn_text c \<longleftrightarrow> (\<forall>code sid. conn_phase c = Registered code sid \<longrightarrow> utf8_valid code)"

fun pc_text :: "'v pc \<Rightarrow> bool" where
  "pc_text (Telling m) = server_text m"
| "pc_text (Refusing m) = server_text m"
| "pc_text (Joining p) = peer_text p"
| "pc_text (Entering p) = peer_text p"
| "pc_text (Looking code to payload) = (utf8_valid code \<and> utf8_valid to)"
| "pc_text (LookingAnywhere code to payload) = (utf8_valid code \<and> utf8_valid to)"
| "pc_text (Relaying manual code target to payload) = (utf8_valid code \<and> utf8_valid to)"
| "pc_text (Parting code sid) = utf8_valid code"
| "pc_text _ = True"

named_theorems text_intros \<open>strings that are UTF-8\<close>

lemma utf8_valid_Cons [simp]: "byte a < 128 \<Longrightarrow> utf8_valid (a # s) = utf8_valid s"
  by (simp only: utf8_valid.simps if_True)

lemmas [text_intros] = utf8_valid_append

lemma show_nat_text [text_intros]: "utf8_valid (show_nat n)"
  by (rule utf8_valid_ascii) (use show_nat_digits in \<open>fastforce simp: list_all_iff is_ascii_digit_def\<close>)

lemma valid_code_text: "valid_code code \<Longrightarrow> utf8_valid code"
  by (rule utf8_valid_ascii) (fastforce simp: valid_code_def list_all_iff ascii_defs)

lemma quoted_text [text_intros]: "utf8_valid s \<Longrightarrow> utf8_valid (quoted s)"
  by (auto simp: quoted_def intro: utf8_valid_append)

lemma to_peer_data_text: "peer_text p \<Longrightarrow> data_text (to_peer_data p)"
  by (simp add: peer_text_def data_text_def to_peer_data_def)

lemma validator_errors:
  "validate_message_size n = Inl e \<Longrightarrow> utf8_valid e"
  "validate_device_name name = Inl e \<Longrightarrow> utf8_valid e"
  "validate_peer_code code = Inl e \<Longrightarrow> utf8_valid e"
  "validate_signal_target code = Inl e \<Longrightarrow> utf8_valid e"
  by (auto simp: validate_message_size_def validate_device_name_def validate_peer_code_def
      validate_signal_target_def Let_def split: if_splits intro!: text_intros)

section \<open>Decisions\<close>

lemma decide_register_text:
  assumes "case msg of Inl e \<Rightarrow> utf8_valid e | Inr m \<Rightarrow> client_text m"
  shows "pc_text (decide_register c msg)"
  using assms
  by (auto simp: decide_register_def decide_finish_def peer_text_def
      split: sum.split client_message.split intro!: text_intros dest: validator_errors reg.result_valid [THEN valid_code_text] tgt.result_valid [THEN valid_code_text])

lemma decide_message_text:
  assumes "case msg of Inl e \<Rightarrow> utf8_valid e | Inr m \<Rightarrow> client_text m" "utf8_valid code"
  shows "pc_text (decide_message code msg)"
  using assms
  by (auto simp: decide_message_def
      split: sum.split client_message.split intro!: text_intros dest: validator_errors reg.result_valid [THEN valid_code_text] tgt.result_valid [THEN valid_code_text])

lemma decide_item_text:
  assumes "decide_item from_str now item leave parsed c = (c', pc)" "pc_text leave" "\<And>s. pc_text (parsed (from_str s))"
  shows "pc_text pc"
  using assms unfolding decide_item_def
  by (auto split: option.splits sum.splits ws_message.splits prod.splits bool.splits dest: validator_errors)

lemma decide_text:
  assumes "parser_text from_str" "conn_text c" "decide from_str now w c = (c', pc)"
  shows "conn_text c' \<and> pc_text pc"
proof
  obtain rl where "c' = c\<lparr>conn_limit := rl\<rparr>" using decide_ok [OF assms(3)] .
  with assms(2) show "conn_text c'" by (simp add: conn_text_def)
  have parsed: "case from_str s of Inl e \<Rightarrow> utf8_valid e | Inr m \<Rightarrow> client_text m" for s
    using assms(1) by (simp add: parser_text_def)
  show "pc_text pc"
  proof (cases "conn_phase c")
    case Registering
    with assms(3) parsed show ?thesis
      by (cases w) (auto simp: decide_def intro: decide_register_text
          elim!: decide_item_text [where leave = HangingUp])
  next
    case (Registered code sid)
    with assms(2,3) parsed show ?thesis
      by (cases w) (auto simp: decide_def conn_text_def intro: decide_message_text
          elim!: decide_item_text [where leave = "Parting code sid"])
  next
    case Closed
    with assms(3) show ?thesis by (simp add: decide_def)
  qed
qed

section \<open>Pieces\<close>

lemma chans_text_send: "chans_text st \<Longrightarrow> server_text m \<Longrightarrow> chans_text (snd (send tx m st))"
  by (simp add: chans_text_def send_def Let_def)

lemma chans_text_broadcast: "chans_text st \<Longrightarrow> server_text m \<Longrightarrow> chans_text (broadcast m ps st)"
  by (induction ps arbitrary: st) (simp_all add: chans_text_send)

lemma chans_text_frame [simp]:
  "chans_text (st\<lparr>rooms := r\<rparr>) = chans_text st" "chans_text (st\<lparr>next_session := n\<rparr>) = chans_text st"
  "chans_text (abort_write c st) = chans_text st"
  by (auto simp: chans_text_def abort_write_def)

lemma rooms_text_cong: "rooms st' = rooms st \<Longrightarrow> rooms_text st' = rooms_text st"
  using room_at_cong [of st' st] by (simp add: rooms_text_def)

lemma rooms_text_update:
  "rooms_text st \<Longrightarrow> list_all peer_text room \<Longrightarrow> rooms st' = AList.update ip room (rooms st) \<Longrightarrow> rooms_text st'"
  by (simp add: rooms_text_def room_at_def update_conv')

lemma rooms_text_delete: "rooms_text st \<Longrightarrow> rooms_text (remove_room ip st)"
  by (simp add: rooms_text_def room_at_def remove_room_def delete_conv')

lemma add_entry_text:
  assumes "rooms_text st" "chans_text st" "peer_text p" "room_ok (room_at ip st)" "add_peer_entry ip p st = (r, st')"
  shows "rooms_text st' \<and> chans_text st' \<and> (case r of Inl e \<Rightarrow> utf8_valid e | Inr ds \<Rightarrow> list_all data_text ds)"
proof -
  define room where "room = (case position (\<lambda>q. peer_code q = peer_code p) (room_at ip st) of
      None \<Rightarrow> room_at ip st | Some pos \<Rightarrow> remove_at pos (room_at ip st))"
  have "set room \<subseteq> set (room_at ip st)"
    unfolding room_def remove_at_def by (auto split: option.splits dest: in_set_takeD in_set_dropD)
  then have room: "list_all peer_text room" using assms(1) by (auto simp: rooms_text_def list_all_iff)
  then have data: "list_all data_text (map to_peer_data room)" by (auto simp: list_all_iff to_peer_data_text)
  have "rooms_text st'"
  proof (rule rooms_text_update [OF assms(1) _ add_peer_entry_rooms [OF assms(4,5)]])
    have "list_all peer_text (others ip (peer_code p) st)"
      using assms(1) by (auto simp: rooms_text_def others_def list_all_iff)
    then show "list_all peer_text (if length (others ip (peer_code p) st) \<ge> MAX_PEERS_PER_ROOM
        then others ip (peer_code p) st else others ip (peer_code p) st @ [p])"
      using assms(3) by simp
  qed
  moreover have "chans_text st' \<and> (case r of Inl e \<Rightarrow> utf8_valid e | Inr ds \<Rightarrow> list_all data_text ds)"
    using assms(5) data chans_text_broadcast [of st "PeerJoined (to_peer_data p)" room] assms(2)
      to_peer_data_text [OF assms(3)]
    unfolding add_peer_entry_def Let_def room_def [symmetric]
    by (auto split: if_splits intro!: text_intros)
  ultimately show ?thesis by simp
qed

lemma remove_locked_text:
  assumes "rooms_text st" "chans_text st" "utf8_valid code" "remove_peer_locked ip code sid st = (e, st')"
  shows "rooms_text st' \<and> chans_text st'"
proof (cases "map_of (rooms st) ip")
  case None
  with assms show ?thesis by (simp add: remove_peer_locked_def)
next
  case (Some room)
  let ?room = "filter (\<lambda>p. \<not> (peer_code p = code \<and> session_id p = sid)) room"
  have rooms: "rooms st' = AList.update ip ?room (rooms st)"
    and chans: "st' = st\<lparr>rooms := AList.update ip ?room (rooms st)\<rparr> \<or>
      st' = broadcast (PeerLeft code) ?room (st\<lparr>rooms := AList.update ip ?room (rooms st)\<rparr>)"
    using assms(4) Some unfolding remove_peer_locked_def option.case Let_def by (auto split: if_splits)
  have "room_at ip st = room" using Some by (simp add: room_at_def)
  then have "list_all peer_text ?room" using assms(1) by (auto simp: rooms_text_def list_all_iff)
  then show ?thesis
    using rooms_text_update [OF assms(1) _ rooms] chans assms(2,3) chans_text_broadcast [OF assms(2), of "PeerLeft code"]
    by auto
qed

lemma reply_text: "chans_text st \<Longrightarrow> server_text m \<Longrightarrow> chans_text (reply c m st)"
  by (simp add: reply_def chans_text_send)

lemma piece_text:
  assumes "piece c pc st = (c', pc', st')" "\<And>ip. room_ok (room_at ip st)"
    "rooms_text st" "chans_text st" "conn_text c" "pc_text pc"
  shows "rooms_text st' \<and> chans_text st' \<and> conn_text c' \<and> pc_text pc'"
proof (cases pc)
  case (Entering p)
  obtain r st1 where e: "add_peer_entry (conn_ip c) p st = (r, st1)" by fastforce
  have "peer_text p" using assms(6) Entering by simp
  note entry = add_entry_text [OF assms(3,4) this assms(2) e]
  with Entering e assms(1,5) \<open>peer_text p\<close> show ?thesis
    by (cases r) (auto simp: conn_text_def peer_text_def)
next
  case (Parting code sid)
  obtain e st1 where e: "remove_peer_locked (conn_ip c) code sid st = (e, st1)" by fastforce
  have "utf8_valid code" using assms(6) Parting by simp
  from remove_locked_text [OF assms(3,4) this e] Parting e assms(1,5) show ?thesis by auto
next
  case (Joining p)
  obtain r st1 where e: "add_peer_begin (conn_ip c) p st = (r, st1)" by fastforce
  then have "rooms st1 = rooms st" "chans st1 = chans st" "\<And>p'. r = Some p' \<Longrightarrow> peer_text p' = peer_text p"
    by (auto simp: add_peer_begin_def Let_def peer_text_def split: if_splits)
  with Joining e assms(1,3-6) rooms_text_cong [of st1 st] show ?thesis
    by (cases r) (auto simp: chans_text_def intro!: text_intros)
next
  case (Relaying manual code target to payload)
  obtain b st1 where e: "send target (ServerSignal code payload) st = (b, st1)" by fastforce
  then have "chans_text st1" using chans_text_send [OF assms(4), of "ServerSignal code payload" target] assms(6) Relaying by simp
  moreover have "rooms_text st1" using rooms_text_cong send_rooms [OF e] assms(3) by blast
  ultimately show ?thesis using Relaying e assms(1,5,6) by (cases b) (auto intro!: text_intros)
next
  case Clearing
  with assms rooms_text_delete [OF assms(3), of "conn_ip c"] show ?thesis by (auto simp: remove_room_def)
next
  case HangingUp
  with assms rooms_text_cong [of "abort_write c st" st] show ?thesis by (auto simp: conn_text_def)
next
  case (Telling msg)
  then have "st' = reply c msg st" "c' = c" "pc' = Waiting" using assms(1) by auto
  with assms(3-6) Telling rooms_text_cong [of st' st] reply_text [OF assms(4)] show ?thesis by simp
next
  case (Refusing msg)
  then have "st' = reply c msg st" "c' = c" "pc' = HangingUp" using assms(1) by auto
  with assms(3-6) Refusing rooms_text_cong [of st' st] reply_text [OF assms(4)] show ?thesis by simp
next
  case (Looking code to payload)
  with assms(1,3-6) show ?thesis
    by (cases "find_peer (conn_ip c) to st") (auto intro!: text_intros)
next
  case (LookingAnywhere code to payload)
  with assms(1,3-6) show ?thesis
    by (cases "find_peer_manual to st") (auto intro!: text_intros)
qed (use assms in simp)

section \<open>The server\<close>

definition conc_text :: "'v conc \<Rightarrow> bool" where
  "conc_text s \<longleftrightarrow> rooms_text (shared s) \<and> chans_text (shared s) \<and>
     (\<forall>tx c pc. hands s tx = Some (c, pc) \<longrightarrow> conn_text c \<and> pc_text pc)"

lemma conc_text_step:
  assumes "conc_inv m s" "conc_text s" "parser_text from_str" "conc_step from_str m s t"
  shows "conc_text t"
  using assms(4)
proof (cases rule: conc_step.cases)
  case (conc_open tx ip now c st)
  then have "rooms st = rooms (shared s)" "chans_text st" "conn_text c"
    using assms(2) by (auto simp: open_connection_def chans_text_def conc_text_def conn_text_def)
  with assms(2) rooms_text_cong [of st "shared s"] show ?thesis by (auto simp: conc_text_def conc_open(1))
next
  case (conc_event tx c now w c' pc)
  with assms(2) decide_text [OF assms(3) _ conc_event(3)] show ?thesis by (auto simp: conc_text_def)
next
  case (conc_piece tx c pc c' pc' st)
  have "rooms_text (shared s)" "chans_text (shared s)" "conn_text c" "pc_text pc"
    using assms(2) conc_piece(2) unfolding conc_text_def by blast+
  from piece_text [OF conc_piece(3) conc_inv_rooms(1) [OF assms(1)] this] assms(2) show ?thesis
    by (auto simp: conc_text_def conc_piece(1))
next
  case (conc_write tx ok)
  have "chans_text (write_task_step tx ok (shared s))"
  proof (cases "queue (chans (shared s) tx)")
    case Nil
    with assms(2) show ?thesis by (simp add: conc_text_def write_task_step_def)
  next
    case (Cons msg msgs)
    have "list_all server_text (queue (chans (shared s) tx))"
      using assms(2) by (simp add: conc_text_def chans_text_def)
    with Cons assms(2) show ?thesis
      by (simp add: conc_text_def chans_text_def write_task_step_def Let_def)
  qed
  with assms(2) rooms_text_cong [of "write_task_step tx ok (shared s)" "shared s"] show ?thesis
    by (simp add: conc_text_def conc_write)
qed



end
