(* ===== verification/Server_Main.thy ===== *)
theory Server_Main
  imports Slots
begin

text \<open>
  The server binary, \<open>signal/src/main.rs\<close>: configuration from the command line, the
  environment and defaults. The environment is a function from names to values (absent, or not
  Unicode, is \<^const>\<open>None\<close>, as the source treats both alike). A bad address ends the process
  with status 1.
\<close>

section \<open>Definitions\<close>

type_synonym environment = "string \<Rightarrow> string option"

definition get_arg :: "string list \<Rightarrow> string \<Rightarrow> string option" where
  "get_arg args key =
     (case position (\<lambda>a. a = key) args of
        None \<Rightarrow> None
      | Some i \<Rightarrow> if i + 1 < length args then Some (args ! (i + 1)) else None)"

definition default_log :: "environment \<Rightarrow> string" where
  "default_log env = (if env ''BOLT_SIGNAL_PROFILE'' = Some ''internet'' then ''warn'' else ''info'')"

definition or_else :: "'a option \<Rightarrow> 'a option \<Rightarrow> 'a option" where
  "or_else x y = (case x of None \<Rightarrow> y | Some _ \<Rightarrow> x)"

definition unwrap_or :: "'a option \<Rightarrow> 'a \<Rightarrow> 'a" where
  "unwrap_or x d = (case x of None \<Rightarrow> d | Some v \<Rightarrow> v)"

definition server_host :: "string list \<Rightarrow> environment \<Rightarrow> string" where
  "server_host args env =
     unwrap_or (or_else (get_arg args ''--host'') (env ''BOLT_SIGNAL_HOST'')) ''0.0.0.0''"

definition server_port :: "string list \<Rightarrow> environment \<Rightarrow> nat" where
  "server_port args env =
     unwrap_or
       (or_else (Option.bind (get_arg args ''--port'') (parse_unsigned u16_max))
                (Option.bind (env ''BOLT_SIGNAL_PORT'') (parse_unsigned u16_max)))
       3001"

definition server_socket :: "string list \<Rightarrow> environment \<Rightarrow> (ip_addr \<times> nat) option" where
  "server_socket args env =
     parse_socket_addr (server_host args env @ '':'' @ show_nat (server_port args env))"

definition proxy_entry :: "string \<Rightarrow> ip_addr option" where
  "proxy_entry s =
     (let trimmed = trim s in if trimmed = [] then None else parse_ip trimmed)"

definition configured_proxies :: "environment \<Rightarrow> ip_addr list" where
  "configured_proxies env =
     List.map_filter proxy_entry (split_on CHR '','' (unwrap_or (env ''TRUSTED_PROXIES'') []))"

definition configured_max :: "environment \<Rightarrow> nat option" where
  "configured_max env =
     Option.bind (env ''MAX_WS_CONNECTIONS'') (\<lambda>v. parse_unsigned usize_max (trim v))"

text \<open>The server \<open>main\<close> runs, or the exit status it ends with.\<close>

definition server_main :: "string list \<Rightarrow> environment \<Rightarrow> (nat, 'v signaling_server) result" where
  "server_main args env =
     (case server_socket args env of
        None \<Rightarrow> Inl 1
      | Some addr \<Rightarrow>
          (let server = with_trusted_proxies (configured_proxies env) (signaling_server_new addr)
           in case configured_max env of
                Some mx \<Rightarrow> Inr (with_max_connections (of_nat mx) server)
              | None \<Rightarrow> Inr server))"

section \<open>Lemmas\<close>

lemma colon_not_digit: "not_digit_head (CHR '':'' # s)"
  by (simp add: not_digit_head_def digit_value_def hex_value_def)

lemma read_port_show: "port \<le> 65535 \<Longrightarrow> read_port ('':'' @ show_nat port) = Some (port, [])"
proof -
  assume "port \<le> 65535"
  from parse_digits_show_nat [OF this]
  have "read_digits 10 (Suc (length (show_nat port))) 65535 0 0 (show_nat port)
      = Some ((port, length (show_nat port)), [])"
    using read_digits_all [of 0 "show_nat port"] show_nat_digits by simp
  then show ?thesis
    by (simp add: read_port_def read_given_char_def read_number_def show_nat_nonempty)
qed

lemma parse_socket_show:
  "port \<le> 65535 \<Longrightarrow>
   parse_socket_addr (show_ip (V4 a b c d) @ '':'' @ show_nat port) = Some (V4 a b c d, port)"
  using read_port_show [of port] read_ipv4_show_append [OF unat_u8_le unat_u8_le unat_u8_le unat_u8_le colon_not_digit]
  by (simp add: parse_socket_addr_def)

lemma server_port_le: "server_port args env \<le> 65535"
  using parse_unsigned_le [of u16_max]
  by (auto simp: server_port_def unwrap_or_def or_else_def u16_max_def
      split: option.splits bind_splits)

lemma show_ip_no_comma: "CHR '','' \<notin> set (show_ip (V4 a b c d))"
  using show_nat_digits [of "CHR '',''"] by (auto simp: show_ipv4_append is_ascii_digit_def)

lemma proxy_entry_show: "proxy_entry (show_ip (V4 a b c d)) = Some (V4 a b c d)"
  using parse_show_ipv4 [of a b c d]
  by (simp add: proxy_entry_def trim_show_ipv4 show_ipv4_nonempty)

section \<open>Properties\<close>

text \<open>
  The server the binary starts. When the resolved host is an IPv4 address, configuration
  cannot fail: the server is bound to that address and to a port below 65536, with no
  connection active and a limit of 256 unless \<open>MAX_WS_CONNECTIONS\<close> holds a number.
\<close>

lemma binary_starts_server:
  assumes "server_host args env = show_ip (V4 a b c d)"
  shows "\<exists>s. server_main args env = Inr s \<and> server_addr s = (V4 a b c d, server_port args env) \<and>
    server_port args env < 65536 \<and> trusted_proxies s = configured_proxies env \<and>
    rooms (room_manager s) = [] \<and> active_connections s = 0 \<and>
    unat (max_connections s) = (case configured_max env of None \<Rightarrow> 256 | Some n \<Rightarrow> n)"
proof -
  have port: "server_port args env \<le> 65535" by (rule server_port_le)
  have mx: "n < 2 ^ 64" if "configured_max env = Some n" for n
    using that parse_unsigned_le [of usize_max] by (fastforce simp: configured_max_def usize_max_def split: bind_splits)
  have "server_socket args env = Some (V4 a b c d, server_port args env)"
    using parse_socket_show [OF port, of a b c d] by (simp add: server_socket_def assms)
  then show ?thesis
    using port mx
    by (auto simp: server_main_def Let_def with_trusted_proxies_def with_max_connections_def
        signaling_server_new_def room_manager_new_def DEFAULT_MAX_WS_CONNECTIONS_def unat_of_nat
        split: option.splits)
qed

lemma binary_starts_server_witness:
  "\<exists>s. server_main [''bolt-rendezvous''] (\<lambda>_. None) = Inr (s :: nat signaling_server) \<and>
     server_addr s = (V4 0 0 0 0, 3001) \<and> unat (max_connections s) = 256"
proof -
  have z: "show_ip (V4 0 0 0 0) = ''0.0.0.0''" by code_simp
  have host: "server_host [''bolt-rendezvous''] (\<lambda>_. None) = show_ip (V4 0 0 0 0)"
    unfolding z by (simp add: server_host_def get_arg_def or_else_def unwrap_or_def)
  have "server_port [''bolt-rendezvous''] (\<lambda>_. None) = 3001" "configured_max (\<lambda>_. None) = None"
    by (simp_all add: server_port_def get_arg_def or_else_def unwrap_or_def configured_max_def)
  with binary_starts_server [OF host, where ?'a = nat] show ?thesis by fastforce
qed

text \<open>
  Trusted proxies. A comma-separated list gives the addresses of its well-formed entries
  in order, an ill-formed or empty entry costs only itself, and an IPv4 address in its usual
  form is well-formed; without the variable nobody is trusted.
\<close>

lemma proxies_parsed:
  assumes "\<And>e. e \<in> set entries \<Longrightarrow> CHR '','' \<notin> set e" "entries \<noteq> []"
  shows "configured_proxies (env(''TRUSTED_PROXIES'' \<mapsto> join_with '','' entries)) =
      List.map_filter proxy_entry entries \<and>
    configured_proxies (env(''TRUSTED_PROXIES'' := None)) = [] \<and>
    proxy_entry (show_ip (V4 a b c d)) = Some (V4 a b c d)"
proof -
  have "proxy_entry [] = None"
    using trim_sublist [of "[]"] by (simp add: proxy_entry_def)
  then show ?thesis
    using split_join [of entries "CHR '',''"] assms proxy_entry_show
    by (simp add: configured_proxies_def unwrap_or_def map_filter_simps)
qed

lemma proxies_parsed_witness:
  "configured_proxies [''TRUSTED_PROXIES'' \<mapsto>
     join_with '','' [show_ip (V4 10 0 0 1), show_ip (V4 10 0 0 2)]] = [V4 10 0 0 1, V4 10 0 0 2]"
proof -
  have "CHR '','' \<notin> set e" if "e \<in> set [show_ip (V4 10 0 0 1), show_ip (V4 10 0 0 2)]" for e
    using that show_ip_no_comma by (auto simp del: show_ip.simps)
  from proxies_parsed [OF this, where env = Map.empty]
  have "configured_proxies [''TRUSTED_PROXIES'' \<mapsto>
       join_with '','' [show_ip (V4 10 0 0 1), show_ip (V4 10 0 0 2)]] =
      List.map_filter proxy_entry [show_ip (V4 10 0 0 1), show_ip (V4 10 0 0 2)]"
    by blast
  then show ?thesis
    by (simp only: map_filter_simps proxy_entry_show option.case)
qed

end
