(* ===== verification/Daemon.thy ===== *)
theory Daemon
  imports Line_Reader Server_Main
begin

text \<open>
  The daemon's life cycle, \<open>native/shared/src/daemon.rs\<close>: finding the binary, the arguments
  it is started with, the buffer of its error output, and the signal files that ask it to do
  things. Spawning a process, the data directory (\<open>bolt_app_core::platform\<close>) and JSON text
  (\<open>serde_json\<close>) are parameters.
\<close>

section \<open>Paths\<close>

text \<open>
  A path is the text it was given as, or absolute or not with its components.
\<close>

datatype path = Verbatim string | Path bool "string list"

fun parent :: "path \<Rightarrow> path option" where
  "parent (Path a cs) = (if cs = [] then None else Some (Path a (butlast cs)))"
| "parent (Verbatim s) = None"

fun join :: "path \<Rightarrow> string list \<Rightarrow> path" where
  "join (Path a cs) names = Path a (cs @ names)"
| "join (Verbatim s) names = Verbatim (s @ ''/'' @ join_with ''/'' names)"

fun path_size :: "path \<Rightarrow> nat" where
  "path_size (Path a cs) = length cs"
| "path_size (Verbatim s) = 0"

lemma parent_smaller: "parent p = Some q \<Longrightarrow> path_size q < path_size p"
  by (cases p) (auto split: if_splits)

function ancestors :: "path \<Rightarrow> path list" where
  "ancestors p = p # (case parent p of None \<Rightarrow> [] | Some q \<Rightarrow> ancestors q)"
  by pat_completeness auto
termination
  by (relation "measure path_size") (auto dest: parent_smaller)

declare ancestors.simps [simp del]

fun path_text :: "path \<Rightarrow> string" where
  "path_text (Verbatim s) = s"
| "path_text (Path a cs) = (if a then ''/'' else []) @ join_with ''/'' cs"

section \<open>Finding the binary\<close>

definition DEV_LOOKUP_MAX_ANCESTORS :: nat where "DEV_LOOKUP_MAX_ANCESTORS = 8"

definition dev_candidates :: "path \<Rightarrow> path list" where
  "dev_candidates ancestor =
     [join (join ancestor [''bolt-daemon'']) [''target'', ''release'', ''bolt-daemon''],
      join (join ancestor [''bolt-daemon'']) [''target'', ''debug'', ''bolt-daemon'']]"

definition daemon_candidate_paths :: "path option \<Rightarrow> string option \<Rightarrow> path list" where
  "daemon_candidate_paths current_exe explicit_override =
     (case explicit_override of
        None \<Rightarrow> []
      | Some explicit \<Rightarrow> if explicit = [] then [] else [Verbatim explicit]) @
     (case Option.bind current_exe parent of
        None \<Rightarrow> []
      | Some exe_dir \<Rightarrow>
          join exe_dir [''bolt-daemon''] #
          concat (map dev_candidates (take DEV_LOOKUP_MAX_ANCESTORS (ancestors exe_dir))))"

definition resolve_daemon_binary ::
    "(path \<Rightarrow> bool) \<Rightarrow> path option \<Rightarrow> string option \<Rightarrow> path option" where
  "resolve_daemon_binary path_exists current_exe explicit_override =
     List.find path_exists (daemon_candidate_paths current_exe explicit_override)"

text \<open>The environment variable and the running executable come from the system.\<close>

definition bolt_daemon_find_binary ::
    "(path \<Rightarrow> bool) \<Rightarrow> path option \<Rightarrow> environment \<Rightarrow> string option" where
  "bolt_daemon_find_binary path_exists exe env =
     (case resolve_daemon_binary path_exists exe (env ''BOLT_DAEMON_PATH'') of
        None \<Rightarrow> None
      | Some p \<Rightarrow> if utf8_valid (path_text p) then cstring_new (path_text p) else None)"

section \<open>Starting and watching the process\<close>

record bolt_daemon =
  child_present :: bool
  daemon_pid :: u32
  stderr_lines :: "string list"
  ws_port :: u16
  data_dir :: string
  socket_path :: string

definition daemon_spawn_args :: "string \<Rightarrow> string \<Rightarrow> string \<Rightarrow> string list" where
  "daemon_spawn_args ws_listen socket dir =
     [''--mode'', ''ws-endpoint'', ''--ws-listen'', ws_listen, ''--socket-path'', socket,
      ''--data-dir'', dir, ''--pairing-policy'', ''ask'']"

definition daemon_port :: "u16 \<Rightarrow> u32 \<Rightarrow> u16" where
  "daemon_port port pid = (if port = 0 then 9100 + ucast (pid mod 900) else port)"

text \<open>
  What a start does on the way: it makes the data directory private to the user, whether or
  not that succeeds, and then runs the daemon.
\<close>

datatype start_action = CreateDirAll string | SetMode string nat | RunDaemon string "string list"

definition bolt_daemon_start ::
    "(string \<Rightarrow> string list \<Rightarrow> u32 option) \<Rightarrow> string \<Rightarrow> u32 \<Rightarrow> string option \<Rightarrow> u16 \<Rightarrow>
     bolt_daemon option \<times> start_action list" where
  "bolt_daemon_start spawn default_data_dir pid daemon_bin port_arg =
     (case validate_cstr daemon_bin of
        None \<Rightarrow> (None, [])
      | Some bin_path \<Rightarrow>
          (let port = daemon_port port_arg pid;
               socket = ''/tmp/bolt-native-'' @ show_nat (unat pid) @ ''.sock'';
               ws_listen = ''0.0.0.0:'' @ show_nat (unat port);
               args = daemon_spawn_args ws_listen socket default_data_dir
           in (case spawn bin_path args of
                 None \<Rightarrow> None
               | Some child_pid \<Rightarrow>
                   Some \<lparr>child_present = True, daemon_pid = child_pid, stderr_lines = [],
                         ws_port = port, data_dir = default_data_dir, socket_path = socket\<rparr>,
               [CreateDirAll default_data_dir, SetMode default_data_dir 448, RunDaemon bin_path args])))"

text \<open>One line of the daemon's error output arrives.\<close>

definition push_stderr :: "string \<Rightarrow> string list \<Rightarrow> string list" where
  "push_stderr line buf =
     (let buf' = buf @ [line] in if length buf' > 1000 then drop 500 buf' else buf')"

text \<open>
  The thread that captures the error output: it stores line after line and ends with the
  stream, or with the first line that cannot be read or is not text.
\<close>

function read_stderr :: "string \<Rightarrow> read_result list \<Rightarrow> string list \<Rightarrow> string list" where
  "read_stderr buf reads stored =
     (case next_line [] buf reads of (r, buf', reads') \<Rightarrow>
        (case r of
           Some (Inr line) \<Rightarrow> read_stderr buf' reads' (push_stderr line stored)
         | _ \<Rightarrow> stored))"
  by pat_completeness auto
termination
  by (relation "measure (\<lambda>(buf, reads, stored). pending_size buf reads)") (auto dest: next_line_progress)

declare read_stderr.simps [simp del]

text \<open>
  \<open>try_wait\<close> fails (\<^const>\<open>Inl\<close>), finds the process running (\<open>Inr None\<close>) or returns its
  exit status; a failure counts as running.
\<close>

definition bolt_daemon_is_running :: "(unit, int option) result \<Rightarrow> bolt_daemon option \<Rightarrow> int" where
  "bolt_daemon_is_running try_wait handle =
     (case handle of
        None \<Rightarrow> 0
      | Some d \<Rightarrow>
          if child_present d then
            (case try_wait of Inr (Some _) \<Rightarrow> 0 | _ \<Rightarrow> 1)
          else 0)"

definition bolt_daemon_ws_port :: "bolt_daemon option \<Rightarrow> u16" where
  "bolt_daemon_ws_port handle = (case handle of None \<Rightarrow> 0 | Some d \<Rightarrow> ws_port d)"

definition bolt_daemon_pid :: "bolt_daemon option \<Rightarrow> u32" where
  "bolt_daemon_pid handle = (case handle of None \<Rightarrow> 0 | Some d \<Rightarrow> daemon_pid d)"

definition bolt_daemon_recent_stderr :: "bolt_daemon option \<Rightarrow> u32 \<Rightarrow> string option" where
  "bolt_daemon_recent_stderr handle last_n =
     (case handle of
        None \<Rightarrow> None
      | Some d \<Rightarrow>
          (let lines = stderr_lines d; start = length lines - unat last_n
           in cstring_new (join_lines (drop start lines))))"

definition bolt_daemon_socket_path :: "bolt_daemon option \<Rightarrow> string option" where
  "bolt_daemon_socket_path handle =
     (case handle of None \<Rightarrow> None | Some d \<Rightarrow> cstring_new (socket_path d))"

definition bolt_daemon_data_dir :: "bolt_daemon option \<Rightarrow> string option" where
  "bolt_daemon_data_dir handle =
     (case handle of None \<Rightarrow> None | Some d \<Rightarrow> cstring_new (data_dir d))"

section \<open>Signal files\<close>

text \<open>Every request is one file in the data directory, written whole.\<close>

definition write_signal ::
    "(string \<Rightarrow> bool) \<Rightarrow> bolt_daemon \<Rightarrow> string \<Rightarrow> string \<Rightarrow> files \<Rightarrow> int \<times> files" where
  "write_signal writable d name contents fs =
     (case write_file writable (data_dir d @ ''/'' @ name) contents fs of (ok, fs') \<Rightarrow> (c_bool ok, fs'))"

definition bolt_daemon_send_file ::
    "(string \<Rightarrow> bool) \<Rightarrow> bolt_daemon option \<Rightarrow> string option \<Rightarrow> files \<Rightarrow> int \<times> files" where
  "bolt_daemon_send_file writable handle file_path fs =
     (case (handle, validate_cstr file_path) of
        (Some d, Some path) \<Rightarrow> write_signal writable d ''send_file.signal'' path fs
      | _ \<Rightarrow> (0, fs))"

definition bolt_daemon_disconnect_session ::
    "(string \<Rightarrow> bool) \<Rightarrow> bolt_daemon option \<Rightarrow> files \<Rightarrow> int \<times> files" where
  "bolt_daemon_disconnect_session writable handle fs =
     (case handle of
        None \<Rightarrow> (0, fs)
      | Some d \<Rightarrow> write_signal writable d ''disconnect_session.signal'' ''disconnect'' fs)"

definition bolt_daemon_connect_remote ::
    "(string \<Rightarrow> bool) \<Rightarrow> bolt_daemon option \<Rightarrow> string option \<Rightarrow> files \<Rightarrow> int \<times> files" where
  "bolt_daemon_connect_remote writable handle url fs =
     (case (handle, validate_cstr url) of
        (Some d, Some u) \<Rightarrow> write_signal writable d ''connect_remote.signal'' u fs
      | _ \<Rightarrow> (0, fs))"

definition bolt_daemon_connect_remote_v2 ::
    "((string \<times> string option) list \<Rightarrow> string) \<Rightarrow> (string \<Rightarrow> bool) \<Rightarrow> bolt_daemon option \<Rightarrow>
     string option \<Rightarrow> string option \<Rightarrow> string option \<Rightarrow> files \<Rightarrow> int \<times> files" where
  "bolt_daemon_connect_remote_v2 to_json writable handle url quic_addr quic_cert_hash fs =
     (case handle of
        None \<Rightarrow> (0, fs)
      | Some d \<Rightarrow>
          (case optional_cstr url of
             Inl _ \<Rightarrow> (0, fs)
           | Inr u \<Rightarrow>
               (case optional_cstr quic_addr of
                  Inl _ \<Rightarrow> (0, fs)
                | Inr qa \<Rightarrow>
                    (case optional_cstr quic_cert_hash of
                       Inl _ \<Rightarrow> (0, fs)
                     | Inr qh \<Rightarrow>
                         if u = None \<and> qa = None then (0, fs)
                         else write_signal writable d ''connect_remote.signal''
                                (to_json [(''wsUrl'', u), (''quicAddr'', qa), (''quicCertHash'', qh)]) fs))))"

definition bolt_daemon_allow_quic_peer_cert_hash ::
    "(string \<Rightarrow> bool) \<Rightarrow> bolt_daemon option \<Rightarrow> string option \<Rightarrow> files \<Rightarrow> int \<times> files" where
  "bolt_daemon_allow_quic_peer_cert_hash writable handle quic_cert_hash fs =
     (case (handle, map_option trim (validate_cstr quic_cert_hash)) of
        (Some d, Some hash) \<Rightarrow>
          if length hash \<noteq> 64 \<or> \<not> list_all is_ascii_hexdigit hash then (0, fs)
          else write_signal writable d ''allow_quic_peer.signal'' hash fs
      | _ \<Rightarrow> (0, fs))"

definition bolt_daemon_pause_transfer ::
    "(string \<Rightarrow> bool) \<Rightarrow> bolt_daemon option \<Rightarrow> files \<Rightarrow> int \<times> files" where
  "bolt_daemon_pause_transfer writable handle fs =
     (case handle of
        None \<Rightarrow> (0, fs)
      | Some d \<Rightarrow> write_signal writable d ''transfer_pause.signal'' ''pause'' fs)"

definition bolt_daemon_resume_transfer ::
    "(string \<Rightarrow> bool) \<Rightarrow> bolt_daemon option \<Rightarrow> files \<Rightarrow> int \<times> files" where
  "bolt_daemon_resume_transfer writable handle fs =
     (case handle of
        None \<Rightarrow> (0, fs)
      | Some d \<Rightarrow> write_signal writable d ''transfer_resume.signal'' ''resume'' fs)"

text \<open>
  Stopping kills the child, if any, and removes the socket file; the handle is gone. The
  result says whether a child was killed.
\<close>

definition bolt_daemon_stop :: "bolt_daemon option \<Rightarrow> files \<Rightarrow> bool \<times> files" where
  "bolt_daemon_stop handle fs =
     (case handle of
        None \<Rightarrow> (False, fs)
      | Some d \<Rightarrow> (child_present d, fs(socket_path d := None)))"

section \<open>Lemmas\<close>

text \<open>The error buffer always ends in the last 501 lines, or all of them.\<close>

lemma push_stderr_suffix: "suffix (push_stderr l q) (q @ [l])"
  unfolding push_stderr_def Let_def
  by (cases "length (q @ [l]) > 1000") (simp_all only: if_True if_False suffix_drop suffix_order.order_refl)

interpretation stderr: bounded_buffer push_stderr 1000
proof unfold_locales
  fix q x
  show "length q \<le> 1000 \<Longrightarrow> length (push_stderr x q) \<le> 1000"
    by (auto simp: push_stderr_def Let_def)
  show "subseq (push_stderr x q) (q @ [x])"
    using push_stderr_suffix [of x q] by (metis list_emb_append2 subseq_order.order_refl suffix_def)
  show "length q < 1000 \<Longrightarrow> push_stderr x q = q @ [x]"
    by (simp add: push_stderr_def Let_def)
qed

definition keeps_recent :: "nat \<Rightarrow> string list \<Rightarrow> string list \<Rightarrow> bool" where
  "keeps_recent k all kept \<longleftrightarrow> suffix kept all \<and> (k \<le> length kept \<or> kept = all)"

lemma push_stderr_recent: "keeps_recent 501 all kept \<Longrightarrow> keeps_recent 501 (all @ [l]) (push_stderr l kept)"
proof -
  assume a: "keeps_recent 501 all kept"
  then have "suffix (kept @ [l]) (all @ [l])" by (auto simp: keeps_recent_def suffix_def)
  then have "suffix (push_stderr l kept) (all @ [l])"
    using push_stderr_suffix suffix_order.trans by blast
  moreover have "501 \<le> length (push_stderr l kept) \<or> push_stderr l kept = all @ [l]"
    using a by (auto simp: push_stderr_def Let_def keeps_recent_def)
  ultimately show ?thesis by (simp add: keeps_recent_def)
qed

lemma fold_stderr_recent: "keeps_recent 501 ls (fold push_stderr ls [])"
proof (induction ls rule: rev_induct)
  case Nil
  then show ?case by (simp add: keeps_recent_def)
next
  case (snoc l ls)
  then show ?case by (simp add: push_stderr_recent)
qed

lemma keeps_recent_drop:
  assumes "keeps_recent k all kept" "n \<le> k"
  shows "drop (length kept - n) kept = drop (length all - n) all"
proof -
  obtain pre where all: "all = pre @ kept" using assms(1) by (auto simp: keeps_recent_def suffix_def)
  show ?thesis
  proof (cases "n \<le> length kept")
    case True
    with all show ?thesis by simp
  next
    case False
    with assms have "kept = all" by (auto simp: keeps_recent_def)
    then show ?thesis by simp
  qed
qed

text \<open>What a request may do to the files: nothing, or replace one signal file.\<close>

definition signal_effect :: "bolt_daemon \<Rightarrow> string list \<Rightarrow> files \<Rightarrow> int \<times> files \<Rightarrow> bool" where
  "signal_effect d names fs r \<longleftrightarrow>
     (fst r = 0 \<and> snd r = fs) \<or>
     (fst r = 1 \<and> list_ex (\<lambda>name. \<exists>contents. snd r = fs(data_dir d @ ''/'' @ name \<mapsto> contents)) names)"

lemma signal_effect_refl [simp]: "signal_effect d names fs (0, fs)"
  by (simp add: signal_effect_def)

lemma write_signal_effect: "name \<in> set names \<Longrightarrow> signal_effect d names fs (write_signal writable d name contents fs)"
  by (auto simp: write_signal_def write_file_def c_bool_def signal_effect_def list_ex_iff)

lemma ancestors_length: "length (ancestors (Path a cs)) = Suc (length cs)"
proof (induction cs rule: rev_induct)
  case Nil
  then show ?case by (simp add: ancestors.simps)
next
  case (snoc c cs)
  then show ?case by (subst ancestors.simps) simp
qed

lemma ancestors_set: "p \<in> set (ancestors (Path a cs)) \<longleftrightarrow> (\<exists>ds. prefix ds cs \<and> p = Path a ds)"
proof (induction cs rule: rev_induct)
  case Nil
  then show ?case by (auto simp: ancestors.simps)
next
  case (snoc c cs)
  then show ?case by (subst ancestors.simps) auto
qed

section \<open>Properties\<close>

text \<open>
  Where the daemon binary is looked for. For an executable in a directory the candidates
  without an override are at most 17, each of them in the executable's directory or below a
  checkout next to one of its ancestors; the first existing candidate is taken, an existing
  override before all others and the bundled sidecar before any development build.
\<close>

lemma daemon_lookup:
  assumes "current_exe = Some (Path a (cs @ [exe]))"
  shows "set (daemon_candidate_paths current_exe None) \<subseteq>
      insert (Path a (cs @ [''bolt-daemon'']))
        {Path a (ds @ [''bolt-daemon'', ''target'', build, ''bolt-daemon'']) | ds build.
           prefix ds cs \<and> (build = ''release'' \<or> build = ''debug'')} \<and>
    length (daemon_candidate_paths current_exe None) \<le> 17 \<and>
    resolve_daemon_binary ex current_exe ov =
      (if ov \<noteq> None \<and> ov \<noteq> Some [] \<and> ex (Verbatim (the ov)) then Some (Verbatim (the ov))
       else if ex (Path a (cs @ [''bolt-daemon''])) then Some (Path a (cs @ [''bolt-daemon'']))
       else resolve_daemon_binary ex current_exe None)"
proof (intro conjI)
  have cand: "daemon_candidate_paths current_exe None =
      Path a (cs @ [''bolt-daemon'']) #
        concat (map dev_candidates (take 8 (ancestors (Path a cs))))"
    using assms by (simp add: daemon_candidate_paths_def DEV_LOOKUP_MAX_ANCESTORS_def)
  have two: "length (dev_candidates p) = 2" for p by (simp add: dev_candidates_def)
  have "length (concat (map dev_candidates ps)) = 2 * length ps" for ps
    by (induction ps) (simp_all add: two)
  then show "length (daemon_candidate_paths current_exe None) \<le> 17" unfolding cand by simp
  show "set (daemon_candidate_paths current_exe None) \<subseteq>
      insert (Path a (cs @ [''bolt-daemon'']))
        {Path a (ds @ [''bolt-daemon'', ''target'', build, ''bolt-daemon'']) | ds build.
           prefix ds cs \<and> (build = ''release'' \<or> build = ''debug'')}"
    unfolding cand
    by (auto simp: dev_candidates_def ancestors_set dest!: in_set_takeD)
  show "resolve_daemon_binary ex current_exe ov =
      (if ov \<noteq> None \<and> ov \<noteq> Some [] \<and> ex (Verbatim (the ov)) then Some (Verbatim (the ov))
       else if ex (Path a (cs @ [''bolt-daemon''])) then Some (Path a (cs @ [''bolt-daemon'']))
       else resolve_daemon_binary ex current_exe None)"
    using cand by (auto simp: resolve_daemon_binary_def daemon_candidate_paths_def split: option.splits)
qed

lemma daemon_lookup_witness:
  "resolve_daemon_binary (\<lambda>p. p = Path True [''MacOS'', ''bolt-daemon''])
     (Some (Path True ([''MacOS''] @ [''LocalBolt'']))) (Some ''/missing'') =
   Some (Path True [''MacOS'', ''bolt-daemon''])"
  using daemon_lookup [of "Some (Path True ([''MacOS''] @ [''LocalBolt'']))" True "[''MacOS'']" "''LocalBolt''"
      "\<lambda>p. p = Path True [''MacOS'', ''bolt-daemon'']" "Some ''/missing''"]
  by simp

text \<open>
  How the daemon is started. A start that succeeds has made the data directory private to the
  user, then run the given binary with the pairing policy \<open>ask\<close>, listening on the port the
  handle reports; a port chosen automatically lies between 9100 and 9999, for every process id.
\<close>

lemma daemon_started:
  assumes "bolt_daemon_start spawn dir pid bin port_arg = (Some d, acts)"
  shows "(\<exists>path args. bin = Some path \<and> spawn path args = Some (daemon_pid d) \<and>
      acts = [CreateDirAll dir, SetMode dir 448, RunDaemon path args] \<and>
      drop 8 args = [''--pairing-policy'', ''ask''] \<and>
      take 4 args = [''--mode'', ''ws-endpoint'', ''--ws-listen'', ''0.0.0.0:'' @ show_nat (unat (ws_port d))]) \<and>
    (if port_arg = 0 then 9100 \<le> unat (ws_port d) \<and> unat (ws_port d) < 10000 else ws_port d = port_arg)"
proof -
  have "9100 \<le> unat (daemon_port 0 pid) \<and> unat (daemon_port 0 pid) < 10000"
  proof -
    have m: "unat (pid mod 900) < 900" by (simp add: unat_mod_distrib)
    then have u: "unat (ucast (pid mod 900) :: u16) = unat (pid mod 900)"
      by (simp add: unsigned_ucast_eq take_bit_nat_eq_self)
    with m have "unat (9100 + ucast (pid mod 900) :: u16) = 9100 + unat (pid mod 900)"
      by (simp add: unat_word_ariths)
    with m show ?thesis by (simp add: daemon_port_def)
  qed
  then show ?thesis
    using assms
    by (auto simp: bolt_daemon_start_def validate_cstr_def daemon_spawn_args_def Let_def daemon_port_def
        split: option.splits if_splits)
qed

lemma daemon_started_witness:
  "\<exists>d acts. bolt_daemon_start (\<lambda>_ _. Some 77) ''/data'' 1800 (Some ''bolt-daemon'') 0 = (Some d, acts) \<and>
     9100 \<le> unat (ws_port d)"
proof -
  have "utf8_valid ''bolt-daemon''" by code_simp
  then obtain d acts where
    "bolt_daemon_start (\<lambda>_ _. Some 77) ''/data'' 1800 (Some ''bolt-daemon'') 0 = (Some d, acts)"
    by (simp add: bolt_daemon_start_def validate_cstr_def Let_def)
  with daemon_started [OF this] show ?thesis by auto
qed

text \<open>
  The error output. However many lines the daemon has written, at most 1000 are kept,
  and asking for the last \<open>n\<close> lines with \<open>n\<close> at most 501 gives exactly the last \<open>n\<close> of
  everything written, or all if there were fewer; null only if they contain a NUL byte.
\<close>

lemma recent_stderr_exact:
  assumes "stderr_lines d = fold push_stderr ls []" "unat n \<le> 501"
  shows "length (stderr_lines d) \<le> 1000 \<and>
    bolt_daemon_recent_stderr (Some d) n =
      cstring_new (join_lines (drop (length ls - unat n) ls))"
  using stderr.fold_bound [of "[]" ls] keeps_recent_drop [OF fold_stderr_recent assms(2), of ls] assms(1)
  by (simp add: bolt_daemon_recent_stderr_def Let_def)

lemma read_stderr_lines:
  "buf @ concat chunks = concat (map (\<lambda>l. l @ [newline]) ls) @ tail \<Longrightarrow> [] \<notin> set chunks \<Longrightarrow>
     list_all text_line ls \<Longrightarrow>
     tail = [] \<or> (\<exists>bad rest. tail = bad @ newline # rest \<and> newline \<notin> set bad \<and> \<not> utf8_valid (bad @ [newline])) \<Longrightarrow>
     read_stderr buf (map Inr chunks) stored = fold push_stderr ls stored"
proof (induction ls arbitrary: buf chunks stored)
  case Nil
  show ?case
  proof (cases "tail = []")
    case True
    with Nil have "buf = [] \<and> chunks = []" by (cases chunks) auto
    then show ?thesis by (simp add: read_stderr.simps next_line_eof line_done_def)
  next
    case False
    with Nil.prems(4) obtain bad rest where bad: "tail = bad @ newline # rest" "newline \<notin> set bad"
      "\<not> utf8_valid (bad @ [newline])" by blast
    with Nil.prems(1) have "buf @ concat chunks = bad @ newline # rest" by simp
    from next_line_chunks [OF bad(2) this Nil.prems(2), of "[]"] obtain buf' chunks' where
      "next_line [] buf (map Inr chunks) = (line_done ([] @ bad @ [newline]), buf', map Inr chunks')" by blast
    with bad(3) show ?thesis by (simp add: read_stderr.simps [of buf] line_done_def)
  qed
next
  case (Cons l ls)
  then have "buf @ concat chunks = l @ newline # concat (map (\<lambda>l. l @ [newline]) ls) @ tail" by simp
  from next_line_chunks [OF _ this Cons.prems(2), of "[]"] Cons.prems(3) obtain buf' chunks' where step:
      "next_line [] buf (map Inr chunks) = (line_done ([] @ l @ [newline]), buf', map Inr chunks')"
      "buf' @ concat chunks' = concat (map (\<lambda>l. l @ [newline]) ls) @ tail" "[] \<notin> set chunks'"
    by (auto simp: text_line_def)
  have "line_done ([] @ l @ [newline]) = Some (Inr l)"
    using Cons.prems(3) by (simp add: line_done_text_line)
  with step Cons.prems(3,4) Cons.IH [OF step(2,3)] show ?case
    by (simp add: read_stderr.simps [of buf])
qed

text \<open>
  C27: the error output is captured, up to the first line that is not text. However the
  daemon's output is cut into reads, at most 1000 lines are kept, and asking for the last \<open>n\<close>
  of them, \<open>n\<close> being at most 501, gives exactly the last \<open>n\<close> of the lines before the first that
  is not UTF-8, or all if there were fewer; that line and everything after it is not captured.
  The answer is null only if the lines contain a NUL byte.
\<close>

theorem stderr_captured:
  assumes "concat chunks = concat (map (\<lambda>l. l @ [newline]) ls) @ tail" "[] \<notin> set chunks" "list_all text_line ls"
    "tail = [] \<or> (\<exists>bad rest. tail = bad @ newline # rest \<and> newline \<notin> set bad \<and> \<not> utf8_valid (bad @ [newline]))"
    "stderr_lines d = read_stderr [] (map Inr chunks) []" "unat n \<le> 501"
  shows "length (stderr_lines d) \<le> 1000 \<and>
    bolt_daemon_recent_stderr (Some d) n = cstring_new (join_lines (drop (length ls - unat n) ls))"
  using read_stderr_lines [of "[]" chunks ls tail "[]"] assms
  by (intro recent_stderr_exact) simp_all

theorem stderr_captured_witness:
  "bolt_daemon_recent_stderr (Some \<lparr>child_present = True, daemon_pid = 1,
     stderr_lines = read_stderr [] (map Inr [''a'' @ [newline] @ ''b'', [newline, CHR 0xFF], newline # ''c'']) [],
     ws_port = 9100, data_dir = ''/d'', socket_path = ''/s''\<rparr>) 5 = cstring_new (join_lines [''a'', ''b''])"
  (is "bolt_daemon_recent_stderr (Some ?d) 5 = _")
proof -
  have lines: "list_all text_line [''a'', ''b'']" by (simp add: text_line_def newline_def)
  have bad: "newline \<notin> set [CHR 0xFF] \<and> \<not> utf8_valid ([CHR 0xFF] @ [newline])"
    unfolding newline_def by code_simp
  have tail: "[CHR 0xFF] @ newline # ''c'' = [] \<or> (\<exists>bad rest. [CHR 0xFF] @ newline # ''c'' = bad @ newline # rest \<and>
      newline \<notin> set bad \<and> \<not> utf8_valid (bad @ [newline]))"
    using bad by blast
  have "length (stderr_lines ?d) \<le> 1000 \<and>
      bolt_daemon_recent_stderr (Some ?d) 5 = cstring_new (join_lines (drop (length [''a'', ''b''] - unat (5 :: u32)) [''a'', ''b'']))"
    by (rule stderr_captured [where chunks = "[''a'' @ [newline] @ ''b'', [newline, CHR 0xFF], newline # ''c'']"
          and tail = "[CHR 0xFF] @ newline # ''c''", OF _ _ lines tail])
      simp_all
  then show ?thesis by simp
qed


text \<open>
  Only certificate hashes are ever allowed. If the allow request succeeds, what it wrote
  is the given text without surrounding white space, exactly 64 ASCII hexadecimal digits; and
  every well-formed hash, padded or not, is accepted when the file can be written.
\<close>

lemma allow_quic_validates:
  "(case bolt_daemon_allow_quic_peer_cert_hash w (Some d) p fs of
      (r, fs') \<Rightarrow>
        (r = 1) = (\<exists>s. p = Some s \<and> utf8_valid s \<and> length (trim s) = 64 \<and>
                     list_all is_ascii_hexdigit (trim s) \<and> w (data_dir d @ ''/allow_quic_peer.signal'') \<and>
                     fs' = fs(data_dir d @ ''/allow_quic_peer.signal'' \<mapsto> trim s)))"
  by (auto simp: bolt_daemon_allow_quic_peer_cert_hash_def validate_cstr_def write_signal_def
      write_file_def c_bool_def split: option.splits)

end
