(* ===== verification/Shells.thy ===== *)
theory Shells
  imports Daemon
begin

text \<open>
  The Linux shells: \<open>native/linux/cli/src/main.rs\<close> and the pure parts of
  \<open>native/linux/gtk/src/main.rs\<close>. Decisions, events and their payloads are types of
  \<open>bolt_app_core\<close> and \<open>serde_json\<close>: a payload is of any type \<open>'j\<close>, and the three ways the
  code looks into one (a string, a boolean or an unsigned field, absent when missing or of
  another type) are parameters, as are the parsers of the two request payloads.
\<close>

section \<open>Decisions\<close>

datatype decision = AllowOnce | AllowAlways | DenyOnce | DenyAlways

definition parse_pairing_choice :: "string \<Rightarrow> decision" where
  "parse_pairing_choice input =
     (let s = to_ascii_lowercase (trim input)
      in if s = ''y'' \<or> s = ''yes'' then AllowOnce
         else if s = ''a'' \<or> s = ''always'' then AllowAlways
         else if s = ''d'' \<or> s = ''never'' then DenyAlways
         else DenyOnce)"

text \<open>Standard input is a line, or reading it failed.\<close>

definition pairing_decision :: "string option \<Rightarrow> decision" where
  "pairing_decision input = (case input of None \<Rightarrow> DenyOnce | Some l \<Rightarrow> parse_pairing_choice l)"

definition transfer_decision :: "string option \<Rightarrow> decision" where
  "transfer_decision input =
     (case input of
        None \<Rightarrow> DenyOnce
      | Some l \<Rightarrow> if eq_ignore_ascii_case (trim l) ''y'' then AllowOnce else DenyOnce)"

definition pairing_label :: "decision \<Rightarrow> string" where
  "pairing_label d = (if d = AllowOnce then ''accepted'' else ''denied'')"

definition transfer_label :: "decision \<Rightarrow> string" where
  "transfer_label d = (if d = AllowOnce then ''accepted'' else ''declined'')"

definition pairing_decision_for_response :: "string \<Rightarrow> decision" where
  "pairing_decision_for_response response =
     (if response = ''accept'' then AllowOnce
      else if response = ''accept_always'' then AllowAlways
      else if response = ''decline_always'' then DenyAlways
      else DenyOnce)"

definition transfer_decision_for_response :: "string \<Rightarrow> decision" where
  "transfer_decision_for_response response = (if response = ''accept'' then AllowOnce else DenyOnce)"

section \<open>Sizes for people\<close>

text \<open>
  Both shells turn a 64-bit size into \<open>f64\<close>, divide by a power of two and print one decimal.
  A conversion to \<open>f64\<close> keeps 53 significant bits, rounding to nearest and ties to even;
  dividing by a power of two is exact; printing rounds the exact value, ties to even.
\<close>

definition round_half_even :: "nat \<Rightarrow> nat \<Rightarrow> nat" where
  "round_half_even n d =
     (let q = n div d; r = n mod d
      in if 2 * r < d then q
         else if 2 * r > d then q + 1
         else if even q then q else q + 1)"

fun f64_exponent :: "nat \<Rightarrow> nat" where
  "f64_exponent n = (if n < 2 ^ 53 then 0 else Suc (f64_exponent (n div 2)))"

declare f64_exponent.simps [simp del]

definition f64_of_u64 :: "nat \<Rightarrow> nat" where
  "f64_of_u64 n = round_half_even n (2 ^ f64_exponent n) * 2 ^ f64_exponent n"

text \<open>The text \<open>{:.1}\<close> of the quotient of two whole numbers.\<close>

definition show_tenths :: "nat \<Rightarrow> nat \<Rightarrow> string" where
  "show_tenths n d =
     (let t = round_half_even (10 * n) d in show_nat (t div 10) @ ''.'' @ show_nat (t mod 10))"

definition KB :: nat where "KB = 1024"
definition MB :: nat where "MB = 1024 * KB"
definition GB :: nat where "GB = 1024 * MB"

definition format_bytes :: "nat \<Rightarrow> string" where
  "format_bytes bytes =
     (if bytes \<ge> GB then show_tenths (f64_of_u64 bytes) GB @ '' GB''
      else if bytes \<ge> MB then show_tenths (f64_of_u64 bytes) MB @ '' MB''
      else if bytes \<ge> KB then show_tenths (f64_of_u64 bytes) KB @ '' KB''
      else show_nat bytes @ '' B'')"

definition UNITS :: "string list" where
  "UNITS = [''B'', ''KB'', ''MB'', ''GB'', ''TB'']"

text \<open>
  The loop of \<open>human_size\<close>: the size is \<open>n\<close> over \<open>1024 ^ unit\<close>.
\<close>

function scale_size :: "nat \<Rightarrow> nat \<Rightarrow> nat" where
  "scale_size n unit =
     (if n \<ge> 1024 * 1024 ^ unit \<and> unit < length UNITS - 1 then scale_size n (Suc unit) else unit)"
  by pat_completeness auto
termination
  by (relation "measure (\<lambda>(n, unit). length UNITS - unit)") auto

declare scale_size.simps [simp del]

definition human_size :: "nat \<Rightarrow> string" where
  "human_size bytes =
     (let unit = scale_size (f64_of_u64 bytes) 0
      in if unit = 0 then show_nat bytes @ '' '' @ UNITS ! 0
         else show_tenths (f64_of_u64 bytes) (1024 ^ unit) @ '' '' @ UNITS ! unit)"

lemma f64_small: "n < 2 ^ 53 \<Longrightarrow> f64_of_u64 n = n"
  by (simp add: f64_of_u64_def f64_exponent.simps round_half_even_def)

lemma length_UNITS [simp]: "length UNITS = 5"
  by (simp add: UNITS_def)

lemma scale_size_stop: "n < 1024 * 1024 ^ u \<or> 4 \<le> u \<Longrightarrow> scale_size n u = u"
  by (subst scale_size.simps) auto

lemma scale_size_go: "1024 * 1024 ^ u \<le> n \<Longrightarrow> u < 4 \<Longrightarrow> scale_size n u = scale_size n (Suc u)"
  by (subst scale_size.simps) auto

text \<open>The unit the loop stops at is the number of times 1024 goes into the size, at most 4.\<close>

lemma scale_size_unit:
  "u < 4 \<Longrightarrow> 1024 ^ u \<le> n \<Longrightarrow> n < 1024 * 1024 ^ u \<Longrightarrow> scale_size n 0 = u"
proof (induction u)
  case 0
  then show ?case by (simp add: scale_size_stop)
next
  case (Suc u)
  then have "scale_size n u = Suc u" by (simp add: scale_size_go scale_size_stop)
  have "v \<le> u \<Longrightarrow> scale_size n 0 = scale_size n v" for v
  proof (induction v)
    case (Suc v)
    have "1024 * 1024 ^ v \<le> (1024 :: nat) ^ Suc u"
      using power_increasing [of "Suc v" "Suc u" "1024 :: nat"] Suc.prems by simp
    also have "\<dots> \<le> n" using \<open>1024 ^ Suc u \<le> n\<close> .
    finally show ?case using Suc \<open>Suc u < 4\<close> by (simp add: scale_size_go)
  qed simp
  from this [of u] \<open>scale_size n u = Suc u\<close> show ?case by simp
qed

lemma units_at: "UNITS ! 0 = ''B''" "UNITS ! Suc 0 = ''KB''" "UNITS ! 2 = ''MB''" "UNITS ! 3 = ''GB''"
  by (simp_all add: UNITS_def numeral_nat)

text \<open>
  Sizes for people. Below one tebibyte the command line and the GTK shell show the same
  text for a size, though one scales the \<open>f64\<close> in a loop and the other compares the integer
  with three units.
\<close>

lemma sizes_agree:
  assumes "bytes < 2 ^ 40"
  shows "human_size bytes = format_bytes bytes"
proof -
  have f: "f64_of_u64 bytes = bytes" using assms by (intro f64_small) simp
  consider "bytes < 1024" | "1024 \<le> bytes" "bytes < 1048576" | "1048576 \<le> bytes" "bytes < 1073741824"
    | "1073741824 \<le> bytes" by linarith
  then show ?thesis
  proof cases
    case 1
    then have "scale_size bytes 0 = 0" by (simp add: scale_size_stop)
    with 1 show ?thesis by (simp add: human_size_def format_bytes_def f KB_def MB_def GB_def units_at)
  next
    case 2
    then have "scale_size bytes 0 = 1" by (intro scale_size_unit) simp_all
    with 2 show ?thesis by (simp add: human_size_def format_bytes_def f KB_def MB_def GB_def units_at)
  next
    case 3
    then have "scale_size bytes 0 = 2" by (intro scale_size_unit) simp_all
    with 3 show ?thesis by (simp add: human_size_def format_bytes_def f KB_def MB_def GB_def units_at)
  next
    case 4
    with assms have "scale_size bytes 0 = 3" by (intro scale_size_unit) simp_all
    with 4 show ?thesis by (simp add: human_size_def format_bytes_def f KB_def MB_def GB_def units_at)
  qed
qed


lemma sizes_agree_witness: "human_size 1536 = format_bytes 1536"
  by (rule sizes_agree) simp

end
