(* ===== verification/Cli_Events.thy ===== *)
theory Cli_Events
  imports Shells
begin

text \<open>
  What the command line shell does with the daemon's events: \<open>event_loop\<close> and
  \<open>handle_event\<close> of \<open>native/linux/cli/src/main.rs\<close>. The loop reads lines from the daemon's
  socket through a \<open>BufReader\<close>; the reads of the socket, the answers typed at standard input
  and the values of the shutdown flag are its inputs, what is printed and sent its output.
  The JSON library and the message types of \<open>bolt_app_core\<close> are parameters.
\<close>

section \<open>Messages\<close>

text \<open>
  An IEEE double: not a number, an infinity, or \<open>m * 2 ^ e\<close> with a sign. The percentage is
  the rounded product with 100, truncated and saturated by the cast to \<open>u32\<close>. (Products that
  are subnormal or overflow round differently, but truncate and saturate to the same number.)
\<close>

datatype f64 = NaN | Infinity bool | Finite bool nat int

fun percent :: "f64 \<Rightarrow> u32" where
  "percent NaN = 0"
| "percent (Infinity negative) = (if negative then 0 else of_nat u32_max)"
| "percent (Finite negative m e) =
     (if negative then 0
      else let p = f64_of_u64 (100 * m)
           in of_nat (min u32_max (if e \<ge> 0 then p * 2 ^ nat e else p div 2 ^ nat (- e))))"

record 'j ipc_message =
  msg_type :: string
  is_event :: bool
  payload :: 'j

record 'c pairing_request =
  pr_request_id :: string
  remote_device_name :: string
  remote_device_type :: string
  sas :: string
  capabilities_requested :: 'c

record transfer_request =
  tr_request_id :: string
  file_name :: string
  file_size_bytes :: u64
  from_device_name :: string

text \<open>How the code looks into a payload: typed fields, its text, and the two request types.\<close>

record ('j, 'c) json_view =
  get_str :: "'j \<Rightarrow> string \<Rightarrow> string option"
  get_bool :: "'j \<Rightarrow> string \<Rightarrow> bool option"
  get_u64 :: "'j \<Rightarrow> string \<Rightarrow> u64 option"
  get_f64 :: "'j \<Rightarrow> string \<Rightarrow> f64 option"
  json_text :: "'j \<Rightarrow> string"
  pairing_of :: "'j \<Rightarrow> 'c pairing_request option"
  transfer_of :: "'j \<Rightarrow> transfer_request option"
  debug_text :: "'c \<Rightarrow> string"

text \<open>
  A line on standard output or standard error, a piece of a line on standard error, or a
  decision written to the daemon with its type and the request it answers.
\<close>

datatype shell_out = Println string | Eprintln string | Eprint string | Decided string string decision

definition pad_left :: "nat \<Rightarrow> string \<Rightarrow> string" where
  "pad_left w s = replicate (w - length s) CHR '' '' @ s"

text \<open>
  Standard input: each \<open>read_line\<close> takes the next line or fails (\<^const>\<open>None\<close>); at the end of
  the input it reads nothing.
\<close>

fun read_stdin :: "string option list \<Rightarrow> string option \<times> string option list" where
  "read_stdin [] = (Some [], [])"
| "read_stdin (l # ls) = (l, ls)"

section \<open>One event\<close>

text \<open>Writing a decision to the daemon succeeds or fails with an error text.\<close>

definition answer ::
    "(string \<Rightarrow> string \<Rightarrow> decision \<Rightarrow> string option) \<Rightarrow> string \<Rightarrow> string \<Rightarrow> decision \<Rightarrow> string \<Rightarrow>
     shell_out list" where
  "answer wr type_name request_id d kind =
     Decided type_name request_id d #
     (case wr type_name request_id d of
        None \<Rightarrow> []
      | Some e \<Rightarrow> [Eprintln (''[localbolt-cli] failed to send '' @ kind @ '' decision: '' @ e)])"

definition handle_pairing ::
    "('j, 'c) json_view \<Rightarrow> (string \<Rightarrow> string \<Rightarrow> decision \<Rightarrow> string option) \<Rightarrow> 'c pairing_request \<Rightarrow>
     string option \<Rightarrow> shell_out list" where
  "handle_pairing view wr req input =
     (let d = pairing_decision input
      in [Println (''[pairing] request from '' @ remote_device_name req @ '' ('' @ remote_device_type req @ '')'')] @
         (if sas req \<noteq> [] then [Println (''          SAS: '' @ sas req)] else []) @
         [Println (''          capabilities: '' @ debug_text view (capabilities_requested req)),
          Eprint ''          Accept? [y] once  [a] always  [N] no  [d] never: ''] @
         answer wr ''pairing.decision'' (pr_request_id req) d ''pairing'' @
         [Println (''[pairing] '' @ pairing_label d)])"

definition handle_transfer ::
    "(string \<Rightarrow> string \<Rightarrow> decision \<Rightarrow> string option) \<Rightarrow> transfer_request \<Rightarrow> string option \<Rightarrow>
     shell_out list" where
  "handle_transfer wr req input =
     (let d = transfer_decision input
      in [Println (''[transfer] incoming: '' @ file_name req @ '' ('' @
            format_bytes (unat (file_size_bytes req)) @ '') from '' @ from_device_name req),
          Eprint ''           Accept? [y/N]: ''] @
         answer wr ''transfer.incoming.decision'' (tr_request_id req) d ''transfer'' @
         [Println (''[transfer] '' @ transfer_label d)])"

definition session_connected :: "string \<Rightarrow> shell_out list option" where
  "session_connected peer =
     map_option (\<lambda>short. [Println (''[session] peer connected: '' @ short)])
       (slice_to peer (min (length peer) 12))"

definition transfer_progress :: "u32 \<Rightarrow> u64 \<Rightarrow> u64 \<Rightarrow> shell_out list" where
  "transfer_progress pct transferred total_bytes =
     Eprint ([CHR 0x0D] @ ''[transfer] '' @ pad_left 3 (show_nat (unat pct)) @ ''% ('' @
       format_bytes (unat transferred) @ '' / '' @ format_bytes (unat total_bytes) @ '')'') #
     (if pct \<ge> 100 then [Eprintln []] else [])"

text \<open>
  The arms of \<open>handle_event\<close> that only print, the last ones first; \<^const>\<open>None\<close> is the panic
  of a slice that does not end at a character boundary. A field that is missing or of another
  type has a default.
\<close>

definition str_or :: "('j, 'c) json_view \<Rightarrow> 'j ipc_message \<Rightarrow> string \<Rightarrow> string \<Rightarrow> string" where
  "str_or view msg k d = unwrap_or (get_str view (payload msg) k) d"

definition flag_of :: "('j, 'c) json_view \<Rightarrow> 'j ipc_message \<Rightarrow> string \<Rightarrow> bool" where
  "flag_of view msg k = unwrap_or (get_bool view (payload msg) k) False"

definition num_of :: "('j, 'c) json_view \<Rightarrow> 'j ipc_message \<Rightarrow> string \<Rightarrow> u64" where
  "num_of view msg k = unwrap_or (get_u64 view (payload msg) k) 0"

definition report_transfer :: "('j, 'c) json_view \<Rightarrow> 'j ipc_message \<Rightarrow> shell_out list" where
  "report_transfer view msg =
     (let ty = msg_type msg
      in if ty = ''transfer.started'' then
           [Println (''[transfer] started: '' @ str_or view msg ''file_name'' ''?'' @ '' ('' @
             format_bytes (unat (num_of view msg ''file_size_bytes'')) @ '') ['' @
             str_or view msg ''direction'' ''?'' @ '']'')]
         else if ty = ''transfer.progress'' then
           transfer_progress
             (case get_f64 view (payload msg) ''progress'' of None \<Rightarrow> 0 | Some x \<Rightarrow> percent x)
             (num_of view msg ''bytes_transferred'') (num_of view msg ''total_bytes'')
         else if ty = ''transfer.complete'' then
           [Println (''[transfer] complete: '' @ str_or view msg ''file_name'' ''?'' @ '' ('' @
             (if flag_of view msg ''verified'' then ''verified'' else ''UNVERIFIED'') @ '')'')]
         else if ty = ''transfer.paused'' then [Println ''[transfer] paused'']
         else if ty = ''transfer.resumed'' then [Println ''[transfer] resumed'']
         else if is_event msg then
           [Println (''[event] '' @ ty @ '': '' @ json_text view (payload msg))]
         else [])"

definition report_event :: "('j, 'c) json_view \<Rightarrow> 'j ipc_message \<Rightarrow> shell_out list option" where
  "report_event view msg =
     (let ty = msg_type msg
      in if ty = ''version.status'' then
           (let version = str_or view msg ''daemon_version'' ''?''
            in Some [if flag_of view msg ''compatible''
                     then Println (''[daemon] version handshake OK (daemon '' @ version @ '')'')
                     else Eprintln (''[daemon] version INCOMPATIBLE (daemon '' @ version @ '')'')])
         else if ty = ''daemon.status'' then
           Some [Println (''[daemon] status: version='' @ str_or view msg ''version'' ''?'' @
             '', connected_peers='' @ show_nat (unat (num_of view msg ''connected_peers'')))]
         else if ty = ''session.connected'' then session_connected (str_or view msg ''remote_peer_id'' ''?'')
         else if ty = ''session.sas'' then
           Some [Println (''[session] SAS verification code: '' @ str_or view msg ''sas'' ''?''),
                 Println ''          Verify this code matches the other device.'']
         else if ty = ''session.ended'' then
           Some [Println (''[session] ended: '' @ str_or view msg ''reason'' ''unknown'')]
         else if ty = ''session.error'' then
           Some [Eprintln (''[session] ERROR: '' @ str_or view msg ''reason'' ''unknown'')]
         else Some (report_transfer view msg))"

definition handle_event ::
    "('j, 'c) json_view \<Rightarrow> (string \<Rightarrow> string \<Rightarrow> decision \<Rightarrow> string option) \<Rightarrow> 'j ipc_message \<Rightarrow>
     string option list \<Rightarrow> (shell_out list \<times> string option list) option" where
  "handle_event view wr msg stdin =
     (if msg_type msg = ''pairing.request'' then
        (case pairing_of view (payload msg) of
           None \<Rightarrow> Some ([], stdin)
         | Some req \<Rightarrow>
             (case read_stdin stdin of (input, rest) \<Rightarrow>
                Some (handle_pairing view wr req input, rest)))
      else if msg_type msg = ''transfer.incoming.request'' then
        (case transfer_of view (payload msg) of
           None \<Rightarrow> Some ([], stdin)
         | Some req \<Rightarrow>
             (case read_stdin stdin of (input, rest) \<Rightarrow>
                Some (handle_transfer wr req input, rest)))
      else map_option (\<lambda>out. (out, stdin)) (report_event view msg))"

section \<open>The loop\<close>

text \<open>One line: blank lines are skipped, unparsable ones reported, messages handled.\<close>

definition line_step ::
    "('j, 'c) json_view \<Rightarrow> (string \<Rightarrow> (string, 'j ipc_message) result) \<Rightarrow>
     (string \<Rightarrow> string \<Rightarrow> decision \<Rightarrow> string option) \<Rightarrow> string \<Rightarrow> string option list \<Rightarrow>
     (shell_out list \<times> string option list) option" where
  "line_step view from_str wr line stdin =
     (if trim line = [] then Some ([], stdin)
      else case from_str line of
             Inl e \<Rightarrow> Some ([Eprintln (''[localbolt-cli] parse error: '' @ e)], stdin)
           | Inr msg \<Rightarrow> handle_event view wr msg stdin)"

text \<open>
  The loop ends at the end of the stream, at a read error, or when the shutdown flag is seen;
  \<open>shutdown i\<close> is what the \<open>i\<close>th look at the flag finds. The result is what was printed and
  sent, and whether the loop ended in a panic.
\<close>

definition after :: "shell_out list \<Rightarrow> shell_out list \<times> bool \<Rightarrow> shell_out list \<times> bool" where
  "after out r = (out @ fst r, snd r)"

function read_events ::
    "('j, 'c) json_view \<Rightarrow> (string \<Rightarrow> (string, 'j ipc_message) result) \<Rightarrow>
     (string \<Rightarrow> string \<Rightarrow> decision \<Rightarrow> string option) \<Rightarrow> (nat \<Rightarrow> bool) \<Rightarrow> nat \<Rightarrow>
     string option list \<Rightarrow> string \<Rightarrow> read_result list \<Rightarrow> shell_out list \<times> bool" where
  "read_events view from_str wr shutdown i stdin buf reads =
     (case next_line [] buf reads of (next, buf', reads') \<Rightarrow>
        (case next of
           None \<Rightarrow> ([], False)
         | Some line_result \<Rightarrow>
             if shutdown i then ([], False)
             else (case line_result of
                 Inl (Failed e) \<Rightarrow> ([Eprintln (''[localbolt-cli] IPC read error: '' @ e)], False)
               | Inl _ \<Rightarrow>
                   if shutdown (Suc i) then ([], False)
                   else read_events view from_str wr shutdown (i + 2) stdin buf' reads'
               | Inr line \<Rightarrow>
                   (case line_step view from_str wr line stdin of
                      None \<Rightarrow> ([], True)
                    | Some (out, stdin') \<Rightarrow>
                        after out
                          (read_events view from_str wr shutdown (Suc i) stdin' buf' reads')))))"
  by pat_completeness auto
termination
  by (relation "measure (\<lambda>(view, from_str, wr, shutdown, i, stdin, buf, reads). pending_size buf reads)")
    (auto dest: next_line_progress)

declare read_events.simps [simp del]

text \<open>
  The whole of \<open>event_loop\<close>: connecting, cloning the stream and writing the version handshake
  may each fail with an error text.
\<close>

definition event_loop ::
    "('j, 'c) json_view \<Rightarrow> (string \<Rightarrow> (string, 'j ipc_message) result) \<Rightarrow>
     (string \<Rightarrow> string \<Rightarrow> decision \<Rightarrow> string option) \<Rightarrow> (nat \<Rightarrow> bool) \<Rightarrow> string option \<Rightarrow>
     string option \<Rightarrow> string option \<Rightarrow> string option list \<Rightarrow> read_result list \<Rightarrow>
     shell_out list \<times> bool" where
  "event_loop view from_str wr shutdown connect_error clone_error handshake_error stdin reads =
     (case connect_error of
        Some e \<Rightarrow> ([Eprintln (''[localbolt-cli] IPC connect failed: '' @ e)], False)
      | None \<Rightarrow>
          (case clone_error of
             Some e \<Rightarrow> ([Eprintln (''[localbolt-cli] clone stream for writer: '' @ e)], False)
           | None \<Rightarrow>
               (case handshake_error of
                  Some e \<Rightarrow> ([Eprintln (''[localbolt-cli] handshake wr failed: '' @ e)], False)
                | None \<Rightarrow> read_events view from_str wr shutdown 0 stdin [] reads)))"

text \<open>
  A concrete payload type for examples: a text, which is its own fields and, unless empty, a
  pairing request; a line is a message of that type.
\<close>

definition demo_view :: "(string, unit) json_view" where
  "demo_view =
     \<lparr>get_str = \<lambda>p k. Some p, get_bool = \<lambda>p k. None, get_u64 = \<lambda>p k. None, get_f64 = \<lambda>p k. None,
      json_text = \<lambda>p. p,
      pairing_of = \<lambda>p. if p = [] then None
        else Some \<lparr>pr_request_id = p, remote_device_name = ''Phone'', remote_device_type = ''phone'',
                  sas = [], capabilities_requested = ()\<rparr>,
      transfer_of = \<lambda>p. None, debug_text = \<lambda>_. ''[]''\<rparr>"

definition demo_parse :: "string \<Rightarrow> (string, string ipc_message) result" where
  "demo_parse l = Inr \<lparr>msg_type = l, is_event = True, payload = l\<rparr>"

text \<open>What the loop makes of a list of lines when nobody interrupts it.\<close>

fun handle_lines ::
    "('j, 'c) json_view \<Rightarrow> (string \<Rightarrow> (string, 'j ipc_message) result) \<Rightarrow>
     (string \<Rightarrow> string \<Rightarrow> decision \<Rightarrow> string option) \<Rightarrow> string list \<Rightarrow> string option list \<Rightarrow>
     shell_out list \<times> bool" where
  "handle_lines view from_str wr [] stdin = ([], False)"
| "handle_lines view from_str wr (l # ls) stdin =
     (case line_step view from_str wr l stdin of
        None \<Rightarrow> ([], True)
      | Some (out, stdin') \<Rightarrow> after out (handle_lines view from_str wr ls stdin'))"

lemma read_events_text_lines:
  "buf @ concat chunks = concat (map (\<lambda>l. l @ [newline]) ls) \<Longrightarrow> [] \<notin> set chunks \<Longrightarrow>
     list_all text_line ls \<Longrightarrow>
     read_events view from_str wr (\<lambda>_. False) i stdin buf (map Inr chunks) =
       handle_lines view from_str wr ls stdin"
proof (induction ls arbitrary: buf chunks i stdin)
  case Nil
  then have "buf = [] \<and> chunks = []" by (cases chunks) auto
  then show ?case by (simp add: read_events.simps next_line_eof line_done_def)
next
  case (Cons l ls)
  then obtain buf' chunks' where step:
      "next_line [] buf (map Inr chunks) = (line_done ([] @ l @ [newline]), buf', map Inr chunks')"
      "buf' @ concat chunks' = concat (map (\<lambda>l. l @ [newline]) ls)" "[] \<notin> set chunks'"
    using next_line_chunks [of l buf chunks _ "[]"] by (auto simp: text_line_def)
  have "line_done ([] @ l @ [newline]) = Some (Inr l)"
    using Cons.prems(3) by (simp add: line_done_text_line)
  with step Cons.prems(3) Cons.IH [OF step(2,3)] show ?case
    by (simp add: read_events.simps [of view from_str wr _ i stdin buf] split: option.split)
qed



text \<open>
  A read timeout loses data. When the read timeout of a second strikes in the middle of a
  line, the bytes of the line read so far are forgotten: the loop goes on as if they had never
  arrived, so the message is lost and its rest is taken for a line.
\<close>

lemma timeout_loses_line:
  assumes "newline \<notin> set part" "part \<noteq> []"
  shows "read_events view from_str wr (\<lambda>_. False) i stdin [] (Inr part # Inl TimedOut # reads) =
    read_events view from_str wr (\<lambda>_. False) (i + 2) stdin [] reads"
  using assms by (subst read_events.simps) (simp add: next_line_refill next_line_eof next_line_error)

lemma timeout_loses_line_witness:
  "read_events demo_view demo_parse (\<lambda>_ _ _. None) (\<lambda>_. False) 0 [] []
     [Inr ''transfer.paused'', Inl TimedOut, Inr [newline]] =
   read_events demo_view demo_parse (\<lambda>_ _ _. None) (\<lambda>_. False) 2 [] [] [Inr [newline]]"
  using timeout_loses_line [of "''transfer.paused''" demo_view demo_parse "\<lambda>_ _ _. None" 0 "[]" "[Inr [newline]]"]
  by (simp add: newline_def numeral_2_eq_2)

section \<open>Answers\<close>

definition typed :: "string option list \<Rightarrow> string \<Rightarrow> bool" where
  "typed stdin s \<longleftrightarrow>
     (case fst (read_stdin stdin) of None \<Rightarrow> False | Some l \<Rightarrow> to_ascii_lowercase (trim l) = s)"

lemma pairing_decision_typed:
  "pairing_decision (fst (read_stdin stdin)) =
     (if typed stdin ''y'' \<or> typed stdin ''yes'' then AllowOnce
      else if typed stdin ''a'' \<or> typed stdin ''always'' then AllowAlways
      else if typed stdin ''d'' \<or> typed stdin ''never'' then DenyAlways
      else DenyOnce)"
  by (auto simp: typed_def pairing_decision_def parse_pairing_choice_def Let_def split: option.split)

lemma transfer_decision_typed:
  "transfer_decision (fst (read_stdin stdin)) = (if typed stdin ''y'' then AllowOnce else DenyOnce)"
  by (auto simp: typed_def transfer_decision_def eq_ignore_ascii_case_def to_ascii_lowercase_def
      to_ascii_lower_def is_ascii_upper_def split: option.split)

definition decided :: "shell_out list \<Rightarrow> (string \<times> string \<times> decision) list" where
  "decided out = List.map_filter (\<lambda>x. case x of Decided t rid d \<Rightarrow> Some (t, rid, d) | _ \<Rightarrow> None) out"

lemma decided_simps [simp]:
  "decided [] = []"
  "decided (Println s # out) = decided out"
  "decided (Eprintln s # out) = decided out"
  "decided (Eprint s # out) = decided out"
  "decided (Decided t rid d # out) = (t, rid, d) # decided out"
  "decided (xs @ ys) = decided xs @ decided ys"
  by (simp_all add: decided_def map_filter_def)

lemma decided_answer [simp]: "decided (answer wr t rid d kind) = [(t, rid, d)]"
  by (simp add: answer_def split: option.split)

lemma decided_pairing [simp]:
  "decided (handle_pairing view wr req input) =
     [(''pairing.decision'', pr_request_id req, pairing_decision input)]"
  by (simp add: handle_pairing_def Let_def)

lemma decided_transfer [simp]:
  "decided (handle_transfer wr req input) =
     [(''transfer.incoming.decision'', tr_request_id req, transfer_decision input)]"
  by (simp add: handle_transfer_def Let_def)

lemma decided_report: "report_event view msg = Some out \<Longrightarrow> decided out = []"
  unfolding report_event_def report_transfer_def Let_def session_connected_def transfer_progress_def
  by (simp split: if_splits option.splits; fastforce)

lemma decided_handle_event:
  assumes "handle_event view wr msg stdin = Some (out, stdin')"
  shows "decided out = (if msg_type msg = ''pairing.request'' then
       (case pairing_of view (payload msg) of
          None \<Rightarrow> []
        | Some req \<Rightarrow> [(''pairing.decision'', pr_request_id req, pairing_decision (fst (read_stdin stdin)))])
     else if msg_type msg = ''transfer.incoming.request'' then
       (case transfer_of view (payload msg) of
          None \<Rightarrow> []
        | Some req \<Rightarrow>
            [(''transfer.incoming.decision'', tr_request_id req, transfer_decision (fst (read_stdin stdin)))])
     else [])"
proof -
  consider "msg_type msg = ''pairing.request''" | "msg_type msg = ''transfer.incoming.request''"
    | "msg_type msg \<noteq> ''pairing.request''" "msg_type msg \<noteq> ''transfer.incoming.request''" by blast
  then show ?thesis
  proof cases
    case 1
    with assms show ?thesis
      by (cases "pairing_of view (payload msg)") (auto simp: handle_event_def split_beta)
  next
    case 2
    with assms show ?thesis
      by (cases "transfer_of view (payload msg)") (auto simp: handle_event_def split_beta)
  next
    case 3
    with assms have "report_event view msg = Some out" by (auto simp: handle_event_def)
    with 3 show ?thesis by (simp add: decided_report)
  qed
qed

text \<open>
  C30: decisions come from the user. An event makes the shell send a decision only if it is a
  well-formed pairing or transfer request, and then exactly one, for the request's own
  identifier: a pairing is allowed or remembered only when one of the offered words was typed,
  a transfer is accepted only for \<open>y\<close>; a missing, unreadable or other answer denies once.
\<close>

theorem decisions_only_when_asked:
  assumes "handle_event view wr msg stdin = Some (out, stdin')"
  shows "decided out =
    (if msg_type msg = ''pairing.request'' then
       (case pairing_of view (payload msg) of
          None \<Rightarrow> []
        | Some req \<Rightarrow>
            [(''pairing.decision'', pr_request_id req,
              if typed stdin ''y'' \<or> typed stdin ''yes'' then AllowOnce
              else if typed stdin ''a'' \<or> typed stdin ''always'' then AllowAlways
              else if typed stdin ''d'' \<or> typed stdin ''never'' then DenyAlways
              else DenyOnce)])
     else if msg_type msg = ''transfer.incoming.request'' then
       (case transfer_of view (payload msg) of
          None \<Rightarrow> []
        | Some req \<Rightarrow>
            [(''transfer.incoming.decision'', tr_request_id req,
              if typed stdin ''y'' then AllowOnce else DenyOnce)])
     else [])"
  using decided_handle_event [OF assms]
  unfolding pairing_decision_typed transfer_decision_typed .

theorem decisions_only_when_asked_witness:
  "\<exists>out rest. handle_event demo_view (\<lambda>_ _ _. None)
       \<lparr>msg_type = ''pairing.request'', is_event = True, payload = ''r1''\<rparr> [Some ''Always''] = Some (out, rest) \<and>
     decided out = [(''pairing.decision'', ''r1'', AllowAlways)]"
proof -
  let ?req = "\<lparr>pr_request_id = ''r1'', remote_device_name = ''Phone'', remote_device_type = ''phone'',
      sas = [], capabilities_requested = ()\<rparr>"
  have req: "pairing_of demo_view ''r1'' = Some ?req" by (simp add: demo_view_def)
  then have h: "handle_event demo_view (\<lambda>_ _ _. None)
      \<lparr>msg_type = ''pairing.request'', is_event = True, payload = ''r1''\<rparr> [Some ''Always''] =
    Some (handle_pairing demo_view (\<lambda>_ _ _. None) ?req (Some ''Always''), [])"
    by (simp only: handle_event_def ipc_message.simps read_stdin.simps option.case prod.case if_True simp_thms)
  have "trim ''Always'' = ''Always''" by (simp add: trim_visible)
  moreover have "to_ascii_lowercase ''Always'' = ''always''" by code_simp
  ultimately have "to_ascii_lowercase (trim ''Always'') = ''always''" by simp
  then have "typed [Some ''Always''] s \<longleftrightarrow> s = ''always''" for s by (auto simp: typed_def)
  with decisions_only_when_asked [OF h]
  have "decided (handle_pairing demo_view (\<lambda>_ _ _. None) ?req (Some ''Always'')) =
    [(''pairing.decision'', ''r1'', AllowAlways)]"
    by (simp add: req del: decided_pairing)
  with h show ?thesis by blast
qed

text \<open>
  C39: a peer identifier can crash the shell. The only event whose handling panics is
  \<open>session.connected\<close>, and it does exactly when the identifier is longer than twelve bytes and
  its thirteenth byte continues a character.
\<close>

theorem event_panics_iff:
  "handle_event view wr msg stdin = None \<longleftrightarrow>
     msg_type msg = ''session.connected'' \<and>
     (\<exists>peer. get_str view (payload msg) ''remote_peer_id'' = Some peer \<and>
        12 < length peer \<and> is_continuation (peer ! 12))"
proof -
  have slice: "session_connected peer = None \<longleftrightarrow> 12 < length peer \<and> is_continuation (peer ! 12)" for peer
    by (auto simp: session_connected_def slice_to_def is_char_boundary_def min_def)
  have "report_event view msg = None \<longleftrightarrow>
      msg_type msg = ''session.connected'' \<and>
      session_connected (unwrap_or (get_str view (payload msg) ''remote_peer_id'') ''?'') = None"
    by (simp add: report_event_def str_or_def Let_def)
  then show ?thesis
    by (cases "get_str view (payload msg) ''remote_peer_id''")
      (simp_all add: handle_event_def slice unwrap_or_def split_beta split: option.split)
qed

end
