(* ===== verification/Gtk_Shell.thy ===== *)
theory Gtk_Shell
  imports Cli_Events
begin

text \<open>
  The GTK shell, \<open>native/linux/gtk/src/main.rs\<close>, without its widgets: what the window shows
  as the daemon's events come in, the dialogs it opens, and the decision each answer to a
  dialog sends. Payloads are looked into as in the command line shell.
\<close>

section \<open>What is shown\<close>

text \<open>A dialog: its texts, its responses with their labels, the default and the close response.\<close>

record dialog =
  heading :: string
  body :: string
  responses :: "(string \<times> string) list"
  default_response :: string
  close_response :: string

record ui =
  status_title :: string
  status_description :: string
  status_icon :: string
  progress_visible :: bool
  progress_fraction :: f64
  progress_text :: string

text \<open>A request that waits for the user, with its dialog.\<close>

datatype 'c prompt = Pairing "'c pairing_request" | Transfer transfer_request

definition ellipsis :: string where
  "ellipsis = [CHR 0xE2, CHR 0x80, CHR 0xA6]"

definition ui_new :: ui where
  "ui_new =
     \<lparr>status_title = ''Starting'' @ ellipsis, status_description = ''Launching the LocalBolt engine'',
      status_icon = ''network-transmit-receive-symbolic'',
      progress_visible = False, progress_fraction = Finite False 0 0, progress_text = []\<rparr>"

definition idle :: "string \<Rightarrow> string \<Rightarrow> ui \<Rightarrow> ui" where
  "idle title description u =
     u\<lparr>status_title := title, status_description := description,
       status_icon := ''network-wireless-symbolic''\<rparr>"

text \<open>\<open>f64::clamp(0.0, 1.0)\<close>.\<close>

fun clamp_unit :: "f64 \<Rightarrow> f64" where
  "clamp_unit NaN = NaN"
| "clamp_unit (Infinity negative) = (if negative then Finite False 0 0 else Finite False 1 0)"
| "clamp_unit (Finite negative m e) =
     (if negative \<and> m > 0 then Finite False 0 0
      else if \<not> negative \<and> (if e \<ge> 0 then m * 2 ^ nat e > 1 else m > 2 ^ nat (- e)) then Finite False 1 0
      else Finite negative m e)"

section \<open>Events\<close>

definition show_event ::
    "('j, 'c) json_view \<Rightarrow> string \<Rightarrow> 'j \<Rightarrow> ui \<Rightarrow> ui \<times> 'c prompt list" where
  "show_event view name p u =
     (if name = ''watchdog'' then
        (if get_str view p ''state'' = Some ''Ready''
         then idle ''Ready'' ''Waiting for a device to connect'' u else u, [])
      else if name = ''daemon://pairing-request'' then
        (u, case pairing_of view p of None \<Rightarrow> [] | Some req \<Rightarrow> [Pairing req])
      else if name = ''daemon://transfer-request'' then
        (u, case transfer_of view p of None \<Rightarrow> [] | Some req \<Rightarrow> [Transfer req])
      else if name = ''daemon://session-connected'' then
        (idle ''Connected'' ''Secure channel established'' u, [])
      else if name = ''daemon://transfer-started'' then
        (let file = unwrap_or (get_str view p ''file_name'') ''file''
         in (u\<lparr>status_title := ''Receiving'' @ ellipsis, status_description := file,
               status_icon := ''folder-download-symbolic'', progress_fraction := Finite False 0 0,
               progress_text := file, progress_visible := True\<rparr>, []))
      else if name = ''daemon://transfer-progress'' then
        (case get_f64 view p ''progress'' of
           None \<Rightarrow> u | Some f \<Rightarrow> u\<lparr>progress_fraction := clamp_unit f\<rparr>, [])
      else if name = ''daemon://transfer-complete'' then
        (let file = unwrap_or (get_str view p ''file_name'') ''file''
         in ((idle ''Received'' (''Saved '' @ file @ '' to your Downloads'') (u\<lparr>progress_visible := False\<rparr>))
               \<lparr>status_icon := ''emblem-ok-symbolic''\<rparr>, []))
      else if name = ''daemon://transfer-error'' \<or> name = ''daemon://session-error'' then
        (idle ''Something went wrong'' ''The transfer didn't finish'' (u\<lparr>progress_visible := False\<rparr>), [])
      else (u, []))"

fun show_events ::
    "('j, 'c) json_view \<Rightarrow> (string \<times> 'j) list \<Rightarrow> ui \<Rightarrow> ui \<times> 'c prompt list" where
  "show_events view [] u = (u, [])"
| "show_events view ((name, p) # evs) u =
     (case show_event view name p u of (u', ps) \<Rightarrow>
        (case show_events view evs u' of (u'', qs) \<Rightarrow> (u'', ps @ qs)))"

section \<open>Dialogs\<close>

definition pairing_dialog :: "'c pairing_request \<Rightarrow> dialog" where
  "pairing_dialog req =
     \<lparr>heading = ''Connection request'',
      body = (if sas req = [] then remote_device_name req @ '' wants to connect.''
              else remote_device_name req @ '' wants to connect.'' @ [newline, newline] @
                ''Confirm this code matches on both screens:'' @ [newline, newline] @ sas req),
      responses = [(''decline_always'', ''Never''), (''decline'', ''Decline''),
                   (''accept_always'', ''Always Allow''), (''accept'', ''Connect Once'')],
      default_response = ''accept'', close_response = ''decline''\<rparr>"

definition transfer_dialog :: "transfer_request \<Rightarrow> dialog" where
  "transfer_dialog req =
     \<lparr>heading = ''Incoming file'',
      body = from_device_name req @ '' wants to send you:'' @ [newline, newline] @ file_name req @
        ''  ('' @ human_size (unat (file_size_bytes req)) @ '')'',
      responses = [(''decline'', ''Decline''), (''accept'', ''Accept'')],
      default_response = ''accept'', close_response = ''decline''\<rparr>"

fun dialog_of :: "'c prompt \<Rightarrow> dialog" where
  "dialog_of (Pairing req) = pairing_dialog req"
| "dialog_of (Transfer req) = transfer_dialog req"

text \<open>What an answer sends to the daemon: the message type, the request and the decision.\<close>

definition pairing_answer :: "'c pairing_request \<Rightarrow> string \<Rightarrow> string \<times> string \<times> decision" where
  "pairing_answer req response =
     (''pairing.decision'', pr_request_id req, pairing_decision_for_response response)"

definition transfer_answer :: "transfer_request \<Rightarrow> string \<Rightarrow> string \<times> string \<times> decision" where
  "transfer_answer req response =
     (''transfer.incoming.decision'', tr_request_id req, transfer_decision_for_response response)"

fun dialog_answer :: "'c prompt \<Rightarrow> string \<Rightarrow> string \<times> string \<times> decision" where
  "dialog_answer (Pairing req) response = pairing_answer req response"
| "dialog_answer (Transfer req) response = transfer_answer req response"

text \<open>The development locations of the daemon, below the directory of the manifest.\<close>

definition dev_daemon_paths :: "string \<Rightarrow> string list" where
  "dev_daemon_paths manifest_dir =
     (let root = manifest_dir @ ''/../../../../bolt-daemon/target''
      in [root @ ''/release/bolt-daemon'', root @ ''/debug/bolt-daemon''])"

section \<open>Properties\<close>

text \<open>The last event that starts or ends a transfer decides.\<close>

definition transfer_events :: "string list" where
  "transfer_events = [''daemon://transfer-started'', ''daemon://transfer-complete'',
     ''daemon://transfer-error'', ''daemon://session-error'']"

fun receiving :: "(string \<times> 'j) list \<Rightarrow> bool \<Rightarrow> bool" where
  "receiving [] b = b"
| "receiving ((name, p) # evs) b =
     receiving evs (if name \<in> set transfer_events then name = ''daemon://transfer-started'' else b)"

lemma show_event_progress:
  "progress_visible (fst (show_event view name p u)) =
     (if name \<in> set transfer_events then name = ''daemon://transfer-started'' else progress_visible u)"
  by (simp add: show_event_def idle_def transfer_events_def Let_def split: option.split)

lemma show_events_progress:
  "progress_visible (fst (show_events view evs u)) = receiving evs (progress_visible u)"
  by (induction evs arbitrary: u) (auto simp: split_beta show_event_progress)

text \<open>The prompts an event opens do not depend on what is shown.\<close>

definition prompts_of :: "('j, 'c) json_view \<Rightarrow> string \<times> 'j \<Rightarrow> 'c prompt list" where
  "prompts_of view ev =
     (if fst ev = ''daemon://pairing-request'' then
        (case pairing_of view (snd ev) of None \<Rightarrow> [] | Some req \<Rightarrow> [Pairing req])
      else if fst ev = ''daemon://transfer-request'' then
        (case transfer_of view (snd ev) of None \<Rightarrow> [] | Some req \<Rightarrow> [Transfer req])
      else [])"

fun requested :: "('j, 'c) json_view \<Rightarrow> 'j \<Rightarrow> 'c prompt \<Rightarrow> bool" where
  "requested view p (Pairing req) \<longleftrightarrow> pairing_of view p = Some req"
| "requested view p (Transfer req) \<longleftrightarrow> transfer_of view p = Some req"

lemma prompts_request: "q \<in> set (prompts_of view ev) \<Longrightarrow> requested view (snd ev) q"
  by (cases "fst ev = ''daemon://pairing-request''"; cases "fst ev = ''daemon://transfer-request''";
      cases "pairing_of view (snd ev)"; cases "transfer_of view (snd ev)"; simp add: prompts_of_def)

lemma show_event_prompts: "snd (show_event view name p u) = prompts_of view (name, p)"
  by (simp add: show_event_def prompts_of_def Let_def split: option.split)

lemma show_events_prompts: "snd (show_events view evs u) = concat (map (prompts_of view) evs)"
  by (induction evs arbitrary: u) (auto simp: split_beta show_event_prompts)

lemma dialog_answers:
  "snd (snd (dialog_answer q (close_response (dialog_of q)))) = DenyOnce"
  "snd (snd (dialog_answer q (default_response (dialog_of q)))) = AllowOnce"
  "\<forall>r. snd (snd (dialog_answer q r)) \<in> {AllowAlways, DenyAlways} \<longrightarrow>
     r \<in> {''accept_always'', ''decline_always''}"
  "distinct (map (\<lambda>(r, label). snd (snd (dialog_answer q r))) (responses (dialog_of q)))"
  by (cases q; simp add: pairing_answer_def transfer_answer_def pairing_dialog_def transfer_dialog_def pairing_decision_for_response_def
      transfer_decision_for_response_def)+

text \<open>
  The window tells the truth and nothing is accepted unasked. After any events the progress
  bar is visible exactly if the last event that begins or ends a transfer began one; every
  dialog answers a request that came in; closing a dialog refuses once, its default accepts
  once, only the explicit responses are remembered, and each offered response sends a decision
  of its own for that request.
\<close>

lemma gtk_shell_correct:
  "progress_visible (fst (show_events view evs ui_new)) = receiving evs False \<and>
   (\<forall>q\<in>set (snd (show_events view evs ui_new)).
      (\<exists>name p. (name, p) \<in> set evs \<and>
         requested view p q) \<and>
      snd (snd (dialog_answer q (close_response (dialog_of q)))) = DenyOnce \<and>
      snd (snd (dialog_answer q (default_response (dialog_of q)))) = AllowOnce \<and>
      (\<forall>r. snd (snd (dialog_answer q r)) \<in> {AllowAlways, DenyAlways} \<longrightarrow>
         r \<in> {''accept_always'', ''decline_always''}) \<and>
      distinct (map (\<lambda>(r, label). snd (snd (dialog_answer q r))) (responses (dialog_of q))))"
proof (intro conjI ballI)
  show "progress_visible (fst (show_events view evs ui_new)) = receiving evs False"
    by (simp add: show_events_progress ui_new_def)
  fix q assume "q \<in> set (snd (show_events view evs ui_new))"
  then have "\<exists>ev\<in>set evs. q \<in> set (prompts_of view ev)" by (simp add: show_events_prompts)
  then show "\<exists>name p. (name, p) \<in> set evs \<and> requested view p q"
    using prompts_request by (metis prod.collapse)
qed (rule dialog_answers)+

lemma gtk_shell_correct_witness:
  "progress_visible (fst (show_events demo_view
     [(''daemon://transfer-started'', ''a.txt''), (''watchdog'', ''Ready'')] ui_new))"
  using gtk_shell_correct [of demo_view "[(''daemon://transfer-started'', ''a.txt''), (''watchdog'', ''Ready'')]"]
  by (simp add: transfer_events_def)

end
