(* ===== verification/Gtk_App.thy ===== *)
theory Gtk_App
  imports Gtk_Shell "HOL-Library.Multiset"
begin

text \<open>
  The running GTK application, \<open>build_ui\<close> of \<open>native/linux/gtk/src/main.rs\<close>: the callbacks on the
  daemon's threads put events into a channel, the loop on the main thread takes them out one by
  one, dialogs stay open until the user answers them, in any order and while further events come
  in. A run is the list of what happens; the application is a function of it.
\<close>

section \<open>The application\<close>

record ('j, 'c) gtk_app =
  window_view :: ui
  inbox :: "(string \<times> 'j) list"
  open_dialogs :: "'c prompt list"
  decisions_sent :: "(string \<times> string \<times> decision) list"
  shutdown_flag :: bool

definition gtk_new :: "('j, 'c) gtk_app" where
  "gtk_new = \<lparr>window_view = ui_new, inbox = [], open_dialogs = [], decisions_sent = [], shutdown_flag = False\<rparr>"

text \<open>
  The two callbacks, one turn of the event loop, the response to an open dialog (a response it
  offers; closing it responds with its close response) with the bridge's success, and the
  request to close the window.
\<close>

datatype 'j gtk_action =
    BridgeEvent string 'j
  | WatchdogEvent string
  | LoopTurn
  | DialogResponse nat string bool
  | CloseRequest

definition offered :: "'c prompt \<Rightarrow> string \<Rightarrow> bool" where
  "offered q response \<longleftrightarrow> response \<in> fst ` set (responses (dialog_of q))"

text \<open>A decision that cannot be sent is only logged.\<close>

definition send_to_bridge ::
    "bool \<Rightarrow> string \<times> string \<times> decision \<Rightarrow> ('j, 'c) gtk_app \<Rightarrow> ('j, 'c) gtk_app" where
  "send_to_bridge ok msg a = (if ok then a\<lparr>decisions_sent := decisions_sent a @ [msg]\<rparr> else a)"

fun gtk_do ::
    "('j, 'c) json_view \<Rightarrow> (string \<Rightarrow> 'j) \<Rightarrow> 'j gtk_action \<Rightarrow> ('j, 'c) gtk_app \<Rightarrow> ('j, 'c) gtk_app" where
  "gtk_do view state_json (BridgeEvent name p) a = a\<lparr>inbox := inbox a @ [(name, p)]\<rparr>"
| "gtk_do view state_json (WatchdogEvent state) a = a\<lparr>inbox := inbox a @ [(''watchdog'', state_json state)]\<rparr>"
| "gtk_do view state_json LoopTurn a =
     (case inbox a of
        [] \<Rightarrow> a
      | (name, p) # rest \<Rightarrow>
          (case show_event view name p (window_view a) of
             (u, ps) \<Rightarrow> a\<lparr>window_view := u, inbox := rest, open_dialogs := open_dialogs a @ ps\<rparr>))"
| "gtk_do view state_json (DialogResponse i response ok) a =
     (if i < length (open_dialogs a) \<and> offered (open_dialogs a ! i) response
      then (send_to_bridge ok (dialog_answer (open_dialogs a ! i) response) a)
             \<lparr>open_dialogs := remove_at i (open_dialogs a)\<rparr>
      else a)"
| "gtk_do view state_json CloseRequest a = a\<lparr>shutdown_flag := True\<rparr>"

definition gtk_run ::
    "('j, 'c) json_view \<Rightarrow> (string \<Rightarrow> 'j) \<Rightarrow> 'j gtk_action list \<Rightarrow> ('j, 'c) gtk_app" where
  "gtk_run view state_json acts = fold (gtk_do view state_json) acts gtk_new"

section \<open>What a run has seen\<close>

definition posted :: "(string \<Rightarrow> 'j) \<Rightarrow> 'j gtk_action list \<Rightarrow> (string \<times> 'j) list" where
  "posted state_json acts = concat (map (\<lambda>act.
     case act of BridgeEvent name p \<Rightarrow> [(name, p)]
     | WatchdogEvent state \<Rightarrow> [(''watchdog'', state_json state)] | _ \<Rightarrow> []) acts)"

text \<open>
  Where a run stands: which events the loop has handled, and which dialogs have been answered
  with what.
\<close>

definition run_ok ::
    "('j, 'c) json_view \<Rightarrow> (string \<times> 'j) list \<Rightarrow> (string \<times> 'j) list \<Rightarrow> ('c prompt \<times> string) list \<Rightarrow>
     ('j, 'c) gtk_app \<Rightarrow> bool" where
  "run_ok view events handled answered a \<longleftrightarrow>
     events = handled @ inbox a \<and>
     window_view a = fst (show_events view handled ui_new) \<and>
     mset (snd (show_events view handled ui_new)) = mset (open_dialogs a) + mset (map fst answered) \<and>
     subseq (decisions_sent a) (map (\<lambda>(q, response). dialog_answer q response) answered) \<and>
     (\<forall>(q, response) \<in> set answered. offered q response)"

lemma show_events_snoc:
  "show_events view (evs @ [(name, p)]) u =
     (case show_events view evs u of (u', ps) \<Rightarrow>
        case show_event view name p u' of (u'', qs) \<Rightarrow> (u'', ps @ qs))"
  by (induction evs arbitrary: u) (auto simp: split_beta)

lemma mset_remove_at: "i < length xs \<Longrightarrow> mset xs = add_mset (xs ! i) (mset (remove_at i xs))"
  by (subst id_take_nth_drop [of i xs]) (simp_all add: remove_at_def del: append_take_drop_id)

lemma run_ok_turn:
  assumes "run_ok view events handled answered a"
  shows "\<exists>handled'. run_ok view events handled' answered (gtk_do view state_json LoopTurn a)"
proof (cases "inbox a")
  case Nil
  with assms show ?thesis by auto
next
  case (Cons ev rest)
  obtain name p where ev: "ev = (name, p)" by fastforce
  obtain u ps where s: "show_event view name p (window_view a) = (u, ps)" by fastforce
  with assms Cons ev have "run_ok view events (handled @ [ev]) answered (gtk_do view state_json LoopTurn a)"
    by (auto simp: run_ok_def show_events_snoc split_beta)
  then show ?thesis by blast
qed

lemma run_ok_response:
  assumes "run_ok view events handled answered a"
  shows "\<exists>answered'. run_ok view events handled answered' (gtk_do view state_json (DialogResponse i response ok) a)"
proof (cases "i < length (open_dialogs a) \<and> offered (open_dialogs a ! i) response")
  case False
  with assms show ?thesis by auto
next
  case True
  let ?q = "open_dialogs a ! i"
  have "mset (open_dialogs a) = add_mset ?q (mset (remove_at i (open_dialogs a)))"
    using True by (intro mset_remove_at) simp
  with assms True
  have "run_ok view events handled (answered @ [(?q, response)]) (gtk_do view state_json (DialogResponse i response ok) a)"
    by (auto simp: run_ok_def send_to_bridge_def intro: list_emb_append_mono subseq_append)
  then show ?thesis by blast
qed


lemma run_ok_do:
  assumes "run_ok view events handled answered a"
  shows "\<exists>handled' answered'. run_ok view (events @ posted state_json [act]) handled' answered'
    (gtk_do view state_json act a)"
proof (cases act)
  case LoopTurn
  with run_ok_turn [OF assms, of state_json] show ?thesis by (auto simp: posted_def)
next
  case (DialogResponse i response ok)
  with run_ok_response [OF assms, of state_json i response ok] show ?thesis
    by (auto simp: posted_def simp del: gtk_do.simps)
qed (use assms in \<open>auto simp: run_ok_def posted_def\<close>)

lemma gtk_run_ok:
  "\<exists>handled answered. run_ok view (posted state_json acts) handled answered (gtk_run view state_json acts)"
proof (induction acts rule: rev_induct)
  case Nil
  have "run_ok view [] [] [] gtk_new" by (simp add: run_ok_def gtk_new_def)
  then show ?case by (auto simp: gtk_run_def posted_def)
next
  case (snoc act acts)
  then obtain handled answered where "run_ok view (posted state_json acts) handled answered (gtk_run view state_json acts)"
    by blast
  from run_ok_do [OF this, of state_json act] show ?case by (simp add: gtk_run_def posted_def)
qed

lemma shutdown_do: "shutdown_flag (gtk_do view state_json act a) \<longleftrightarrow> shutdown_flag a \<or> act = CloseRequest"
  by (cases act) (auto simp: send_to_bridge_def split: list.split prod.split)

lemma shutdown_run: "shutdown_flag (gtk_run view state_json acts) \<longleftrightarrow> CloseRequest \<in> set acts"
  by (induction acts rule: rev_induct) (auto simp: gtk_run_def gtk_new_def shutdown_do)

lemma accepting_response:
  "snd (snd (dialog_answer q r)) \<in> {AllowOnce, AllowAlways} \<longrightarrow> r \<in> {''accept'', ''accept_always''}"
  by (cases q) (simp_all add: pairing_answer_def transfer_answer_def pairing_decision_for_response_def
      transfer_decision_for_response_def)

section \<open>Properties\<close>



end
