(* ===== verification/Test_Kit.thy ===== *)
theory Test_Kit
  imports Rust_Std "HOL-Library.Monad_Syntax"
begin

text \<open>
  The vocabulary of the repository's unit tests. A test is a computation that either panics
  (\<^const>\<open>None\<close>) or finishes: \<open>unwrap\<close> panics on an error, \<open>assert!\<close> on a false condition. A
  test passes when it finishes.
\<close>

definition unwrap :: "('e, 'a) result \<Rightarrow> 'a option" where
  "unwrap r = (case r of Inl _ \<Rightarrow> None | Inr v \<Rightarrow> Some v)"

definition unwrap_err :: "('e, 'a) result \<Rightarrow> 'e option" where
  "unwrap_err r = (case r of Inl e \<Rightarrow> Some e | Inr _ \<Rightarrow> None)"

definition assert_that :: "bool \<Rightarrow> unit option" where
  "assert_that b = (if b then Some () else None)"

definition passes :: "unit option \<Rightarrow> bool" where
  "passes t \<longleftrightarrow> t = Some ()"

text \<open>\<open>format!("{n:04}")\<close>.\<close>

definition pad4 :: "nat \<Rightarrow> string" where
  "pad4 n = replicate (4 - length (show_nat n)) CHR ''0'' @ show_nat n"

named_theorems test_simps \<open>evaluation of unit tests\<close>

lemma unwrap_simps [test_simps]: "unwrap (Inr v) = Some v" "unwrap (Inl e) = None"
  "unwrap_err (Inl e) = Some e" "unwrap_err (Inr v) = None"
  by (simp_all add: unwrap_def unwrap_err_def)

lemma assert_simps [test_simps]: "assert_that True = Some ()" "assert_that False = None"
  by (simp_all add: assert_that_def)

lemma bind_assert [test_simps]: "Option.bind (assert_that b) f = (if b then f () else None)"
  by (simp add: assert_that_def)

lemma passes_simps [test_simps]: "passes (Some u)" "\<not> passes None" "passes (assert_that b) = b"
  by (simp_all add: passes_def assert_that_def)

lemma contains_prefix: "prefix pat s \<Longrightarrow> contains pat s"
  by (simp add: contains_iff_sublist prefix_imp_sublist)

lemma contains_append: "contains pat s \<Longrightarrow> contains pat (s @ t)" "contains pat t \<Longrightarrow> contains pat (s @ t)"
  by (auto simp: contains_iff_sublist sublist_append)

lemma parse_zeros: "parse_digits mx 0 (replicate k CHR ''0'' @ s) = parse_digits mx 0 s"
proof (induction k)
  case (Suc k)
  have "byte CHR ''0'' = 48" "is_ascii_digit CHR ''0''" by code_simp+
  with Suc show ?case by simp
qed simp

lemma pad4_inj: "pad4 m = pad4 n \<longleftrightarrow> m = n"
proof
  assume "pad4 m = pad4 n"
  then have "parse_digits (max m n) 0 (show_nat m) = parse_digits (max m n) 0 (show_nat n)"
    using parse_zeros [of "max m n"] unfolding pad4_def by metis
  then show "m = n" by (simp add: parse_digits_show_nat)
qed simp

end
