(* ===== verification/Room_Tests.thy ===== *)
theory Room_Tests
  imports Room_System Test_Kit
begin

text \<open>
  The unit tests of \<open>signal/src/room.rs\<close>, run on the model of the room manager. The variables
  of a test that name channels are the channel numbers; \<open>st\<close> is the room manager with its
  channels after the statements so far.
\<close>

section \<open>The tests' helpers\<close>

type_synonym test_state = "nat rv_state"

text \<open>\<open>make_peer\<close> creates a channel; \<open>try_recv\<close> takes the next message of its receiver.\<close>

definition test_peer :: "string \<Rightarrow> string \<Rightarrow> nat \<Rightarrow> test_state \<Rightarrow> peer_info \<times> test_state" where
  "test_peer code name tx st =
     (make_peer code name tx, st\<lparr>chans := (chans st)(tx := \<lparr>rx_alive = True, queue = [], wire = []\<rparr>)\<rparr>)"

definition try_recv :: "nat \<Rightarrow> test_state \<Rightarrow> nat server_message option \<times> test_state" where
  "try_recv rx st =
     (case queue (chans st rx) of
        [] \<Rightarrow> (None, st)
      | m # ms \<Rightarrow> (Some m, st\<lparr>chans := (chans st)(rx := (chans st rx)\<lparr>queue := ms\<rparr>)\<rparr>))"

definition drop_rx :: "nat \<Rightarrow> test_state \<Rightarrow> test_state" where
  "drop_rx rx st = st\<lparr>chans := (chans st)(rx := (chans st rx)\<lparr>rx_alive := False\<rparr>)\<rparr>"

text \<open>\<open>rm.add_peer(ip, peer).unwrap()\<close>\<close>

definition add_ok :: "string \<Rightarrow> peer_info \<Rightarrow> test_state \<Rightarrow> ((peer_data list \<times> u64) \<times> test_state) option" where
  "add_ok ip p st =
     (case add_peer ip p st of (r, st') \<Rightarrow> do { v \<leftarrow> unwrap r; Some (v, st') })"

text \<open>A loop that registers peers whose receivers end with each iteration.\<close>

fun add_each :: "(string \<times> string) list \<Rightarrow> nat \<Rightarrow> test_state \<Rightarrow> test_state option" where
  "add_each [] tx st = Some st"
| "add_each ((ip, code) # rest) tx st =
     (case test_peer code ''device'' tx st of
        (p, st) \<Rightarrow> do { (_, st) \<leftarrow> add_ok ip p st; add_each rest (Suc tx) (drop_rx tx st) })"

section \<open>The tests\<close>

definition add_peer_inserts_into_correct_room :: "unit option" where
  "add_peer_inserts_into_correct_room =
     (case test_peer ''ALPHA'' ''Desktop A'' 0 room_manager_new of
        (p, st) \<Rightarrow>
          (case add_peer ''192.168.1.10'' p st of
             (r, st) \<Rightarrow> do {
               assert_that (is_ok r);
               (existing, _) \<leftarrow> unwrap r;
               assert_that (existing = []);
               assert_that (room_count st = 1);
               assert_that (peer_count st = 1);
               let peers = get_room_peers ''192.168.1.10'' st;
               assert_that (length peers = 1);
               assert_that (pd_peer_code (peers ! 0) = ''ALPHA'') }))"

definition add_peer_returns_existing_peers_before_insert :: "unit option" where
  "add_peer_returns_existing_peers_before_insert =
     do { let (p1, st) = test_peer ''AAA'' ''First'' 0 room_manager_new;
          let (p2, st) = test_peer ''BBB'' ''Second'' 1 st;
          (_, st) \<leftarrow> add_ok ''10.0.0.1'' p1 st;
          ((existing, _), st) \<leftarrow> add_ok ''10.0.0.1'' p2 st;
          assert_that (length existing = 1);
          assert_that (pd_peer_code (existing ! 0) = ''AAA'') }"

definition add_peer_replaces_duplicate_peer_code :: "unit option" where
  "add_peer_replaces_duplicate_peer_code =
     do { let (p1, st) = test_peer ''DUP'' ''First'' 0 room_manager_new;
          let (p2, st) = test_peer ''DUP'' ''Second'' 1 st;
          ((_, session1), st) \<leftarrow> add_ok ''10.0.0.1'' p1 st;
          ((_, session2), st) \<leftarrow> add_ok ''10.0.0.1'' p2 st;
          assert_that (session2 > session1);
          assert_that (peer_count st = 1);
          let peers = get_room_peers ''10.0.0.1'' st;
          assert_that (length peers = 1);
          assert_that (pd_device_name (peers ! 0) = ''Second'');
          assert_that (fst (try_recv 0 st) = None) }"

definition add_peer_same_code_different_rooms_allowed :: "unit option" where
  "add_peer_same_code_different_rooms_allowed =
     do { let (p1, st) = test_peer ''SAME'' ''Room A'' 0 room_manager_new;
          let (p2, st) = test_peer ''SAME'' ''Room B'' 1 st;
          let (r1, st) = add_peer ''10.0.0.1'' p1 st;
          assert_that (is_ok r1);
          let (r2, st) = add_peer ''10.0.0.2'' p2 st;
          assert_that (is_ok r2);
          assert_that (room_count st = 2);
          assert_that (peer_count st = 2) }"

definition remove_peer_skips_replaced_session_dp5 :: "unit option" where
  "remove_peer_skips_replaced_session_dp5 =
     do { let (p1, st) = test_peer ''RECONNECT'' ''First'' 0 room_manager_new;
          let (p2, st) = test_peer ''RECONNECT'' ''Second'' 1 st;
          ((_, session1), st) \<leftarrow> add_ok ''10.0.0.1'' p1 st;
          ((_, session2), st) \<leftarrow> add_ok ''10.0.0.1'' p2 st;
          assert_that (peer_count st = 1);
          let st = remove_peer ''10.0.0.1'' ''RECONNECT'' session1 st;
          assert_that (peer_count st = 1);
          let peers = get_room_peers ''10.0.0.1'' st;
          assert_that (pd_device_name (peers ! 0) = ''Second'');
          let st = remove_peer ''10.0.0.1'' ''RECONNECT'' session2 st;
          assert_that (peer_count st = 0) }"

definition add_peer_broadcasts_peer_joined_to_existing :: "unit option" where
  "add_peer_broadcasts_peer_joined_to_existing =
     do { let (p1, st) = test_peer ''FIRST'' ''Device 1'' 0 room_manager_new;
          let (p2, st) = test_peer ''SECOND'' ''Device 2'' 1 st;
          (_, st) \<leftarrow> add_ok ''10.0.0.1'' p1 st;
          (_, st) \<leftarrow> add_ok ''10.0.0.1'' p2 st;
          msg \<leftarrow> fst (try_recv 0 st);
          case msg of
            PeerJoined peer \<Rightarrow> assert_that (pd_peer_code peer = ''SECOND'')
          | _ \<Rightarrow> None }"

definition remove_peer_removes_from_room :: "unit option" where
  "remove_peer_removes_from_room =
     do { let (p1, st) = test_peer ''RM1'' ''Device 1'' 0 room_manager_new;
          let (p2, st) = test_peer ''RM2'' ''Device 2'' 1 st;
          ((_, s1), st) \<leftarrow> add_ok ''10.0.0.1'' p1 st;
          (_, st) \<leftarrow> add_ok ''10.0.0.1'' p2 st;
          assert_that (peer_count st = 2);
          let st = remove_peer ''10.0.0.1'' ''RM1'' s1 st;
          assert_that (peer_count st = 1);
          let peers = get_room_peers ''10.0.0.1'' st;
          assert_that (length peers = 1);
          assert_that (pd_peer_code (peers ! 0) = ''RM2'') }"

definition remove_peer_cleans_up_empty_room :: "unit option" where
  "remove_peer_cleans_up_empty_room =
     do { let (p1, st) = test_peer ''SOLO'' ''Only One'' 0 room_manager_new;
          ((_, s1), st) \<leftarrow> add_ok ''10.0.0.1'' p1 st;
          assert_that (room_count st = 1);
          let st = remove_peer ''10.0.0.1'' ''SOLO'' s1 st;
          assert_that (room_count st = 0);
          assert_that (peer_count st = 0) }"

definition remove_peer_broadcasts_peer_left :: "unit option" where
  "remove_peer_broadcasts_peer_left =
     do { let (stay, st) = test_peer ''STAY'' ''Stayer'' 0 room_manager_new;
          let (leave, st) = test_peer ''LEAVE'' ''Leaver'' 1 st;
          (_, st) \<leftarrow> add_ok ''10.0.0.1'' stay st;
          ((_, s_leave), st) \<leftarrow> add_ok ''10.0.0.1'' leave st;
          let (_, st) = try_recv 0 st;
          let st = remove_peer ''10.0.0.1'' ''LEAVE'' s_leave st;
          msg \<leftarrow> fst (try_recv 0 st);
          case msg of
            PeerLeft code \<Rightarrow> assert_that (code = ''LEAVE'')
          | _ \<Rightarrow> None }"

definition remove_peer_nonexistent_does_not_panic :: "unit option" where
  "remove_peer_nonexistent_does_not_panic =
     do { let (p1, st) = test_peer ''EXISTS'' ''Real'' 0 room_manager_new;
          (_, st) \<leftarrow> add_ok ''10.0.0.1'' p1 st;
          let st = remove_peer ''10.0.0.1'' ''EXISTS'' 999999 st;
          assert_that (peer_count st = 1);
          let st = remove_peer ''10.0.0.99'' ''GHOST'' 0 st;
          assert_that (peer_count st = 1) }"


definition find_peer_returns_sender_for_same_room_peer :: "unit option" where
  "find_peer_returns_sender_for_same_room_peer =
     do { let (p1, st) = test_peer ''FINDME'' ''Device'' 0 room_manager_new;
          (_, st) \<leftarrow> add_ok ''10.0.0.1'' p1 st;
          let sender = find_peer ''10.0.0.1'' ''FINDME'' st;
          assert_that (sender \<noteq> None) }"

definition find_peer_returns_none_for_absent_peer :: "unit option" where
  "find_peer_returns_none_for_absent_peer =
     assert_that (find_peer ''10.0.0.1'' ''NOBODY'' (room_manager_new :: test_state) = None)"

definition find_peer_rejects_cross_room_lookup :: "unit option" where
  "find_peer_rejects_cross_room_lookup =
     do { let (p1, st) = test_peer ''ROOM1PEER'' ''Room 1'' 0 room_manager_new;
          let (p2, st) = test_peer ''ROOM2PEER'' ''Room 2'' 1 st;
          (_, st) \<leftarrow> add_ok ''10.0.0.1'' p1 st;
          (_, st) \<leftarrow> add_ok ''10.0.0.2'' p2 st;
          assert_that (find_peer ''10.0.0.1'' ''ROOM1PEER'' st \<noteq> None);
          assert_that (find_peer ''10.0.0.2'' ''ROOM2PEER'' st \<noteq> None);
          assert_that (find_peer ''10.0.0.1'' ''ROOM2PEER'' st = None);
          assert_that (find_peer ''10.0.0.2'' ''ROOM1PEER'' st = None);
          assert_that (find_peer ''10.0.0.1'' ''MISSING'' st = None) }"

definition find_peer_cross_room_regression :: "unit option" where
  "find_peer_cross_room_regression =
     do { let (attacker, st) = test_peer ''ATTACKER'' ''Malicious'' 0 room_manager_new;
          let (victim, st) = test_peer ''VICTIM'' ''Target'' 1 st;
          (_, st) \<leftarrow> add_ok ''10.0.0.1'' attacker st;
          (_, st) \<leftarrow> add_ok ''10.0.0.2'' victim st;
          assert_that (find_peer ''10.0.0.1'' ''VICTIM'' st = None) }"

definition find_peer_manual_finds_unique_cross_room_peer :: "unit option" where
  "find_peer_manual_finds_unique_cross_room_peer =
     do { let (p1, st) = test_peer ''ROOM1'' ''Room 1'' 0 room_manager_new;
          let (p2, st) = test_peer ''MANUAL'' ''Room 2'' 1 st;
          (_, st) \<leftarrow> add_ok ''10.0.0.1'' p1 st;
          (_, st) \<leftarrow> add_ok ''10.0.0.2'' p2 st;
          assert_that (case find_peer_manual ''MANUAL'' st of Found _ \<Rightarrow> True | _ \<Rightarrow> False) }"

definition find_peer_manual_rejects_duplicate_codes_across_rooms :: "unit option" where
  "find_peer_manual_rejects_duplicate_codes_across_rooms =
     do { let (p1, st) = test_peer ''DUPMAN'' ''Room 1'' 0 room_manager_new;
          let (p2, st) = test_peer ''DUPMAN'' ''Room 2'' 1 st;
          (_, st) \<leftarrow> add_ok ''10.0.0.1'' p1 st;
          (_, st) \<leftarrow> add_ok ''10.0.0.2'' p2 st;
          assert_that (find_peer_manual ''DUPMAN'' st = Ambiguous) }"

definition find_peer_manual_returns_not_found_for_absent_code :: "unit option" where
  "find_peer_manual_returns_not_found_for_absent_code =
     assert_that (find_peer_manual ''MISSING'' (room_manager_new :: test_state) = NotFound)"

definition peer_a_disconnect_does_not_affect_peer_b :: "unit option" where
  "peer_a_disconnect_does_not_affect_peer_b =
     do { let (pa, st) = test_peer ''PEERA'' ''Device A'' 0 room_manager_new;
          let (pb, st) = test_peer ''PEERB'' ''Device B'' 1 st;
          ((_, sa), st) \<leftarrow> add_ok ''10.0.0.1'' pa st;
          (_, st) \<leftarrow> add_ok ''10.0.0.1'' pb st;
          assert_that (peer_count st = 2);
          let st = remove_peer ''10.0.0.1'' ''PEERA'' sa st;
          assert_that (peer_count st = 1);
          assert_that (find_peer ''10.0.0.1'' ''PEERB'' st \<noteq> None);
          assert_that (find_peer ''10.0.0.1'' ''PEERA'' st = None);
          let peers = get_room_peers ''10.0.0.1'' st;
          assert_that (length peers = 1);
          assert_that (pd_peer_code (peers ! 0) = ''PEERB'');
          assert_that (room_count st = 1) }"

definition multi_room_isolation :: "unit option" where
  "multi_room_isolation =
     do { let (p1, st) = test_peer ''R1A'' ''Room1 A'' 0 room_manager_new;
          let (p2, st) = test_peer ''R1B'' ''Room1 B'' 1 st;
          let (p3, st) = test_peer ''R2A'' ''Room2 A'' 2 st;
          ((_, s1a), st) \<leftarrow> add_ok ''10.0.0.1'' p1 st;
          ((_, s1b), st) \<leftarrow> add_ok ''10.0.0.1'' p2 st;
          (_, st) \<leftarrow> add_ok ''10.0.0.2'' p3 st;
          assert_that (room_count st = 2);
          assert_that (peer_count st = 3);
          let st = remove_peer ''10.0.0.1'' ''R1A'' s1a st;
          let st = remove_peer ''10.0.0.1'' ''R1B'' s1b st;
          assert_that (room_count st = 1);
          assert_that (peer_count st = 1);
          assert_that (find_peer ''10.0.0.2'' ''R2A'' st \<noteq> None);
          assert_that (get_room_peers ''10.0.0.1'' st = []) }"

definition get_room_peers_nonexistent_returns_empty :: "unit option" where
  "get_room_peers_nonexistent_returns_empty =
     assert_that (get_room_peers ''172.16.0.99'' (room_manager_new :: test_state) = [])"

definition empty_manager_counts_are_zero :: "unit option" where
  "empty_manager_counts_are_zero =
     do { assert_that (room_count (room_manager_new :: test_state) = 0);
          assert_that (peer_count (room_manager_new :: test_state) = 0) }"

definition get_room_peers_returns_public_data :: "unit option" where
  "get_room_peers_returns_public_data =
     do { let (p1, st) = test_peer ''PUB1'' ''Device 1'' 0 room_manager_new;
          let (p2, st) = test_peer ''PUB2'' ''Device 2'' 1 st;
          (_, st) \<leftarrow> add_ok ''10.0.0.1'' p1 st;
          (_, st) \<leftarrow> add_ok ''10.0.0.1'' p2 st;
          let peers = get_room_peers ''10.0.0.1'' st;
          assert_that (length peers = 2);
          let codes = map pd_peer_code peers;
          assert_that (''PUB1'' \<in> set codes);
          assert_that (''PUB2'' \<in> set codes) }"

definition max_peers_per_room_enforced :: "unit option" where
  "max_peers_per_room_enforced =
     do { let ip = ''10.0.0.99'';
          st \<leftarrow> add_each (map (\<lambda>i. (ip, ''P'' @ pad4 i)) [0..<MAX_PEERS_PER_ROOM]) 0 room_manager_new;
          let (p, st) = test_peer ''OVERFLOW'' ''overflow device'' MAX_PEERS_PER_ROOM st;
          let (result, st) = add_peer ip p st;
          assert_that (\<not> is_ok result);
          e \<leftarrow> unwrap_err result;
          assert_that (contains ''room full'' e) }"

definition peers_below_room_limit_accepted :: "unit option" where
  "peers_below_room_limit_accepted =
     do { let ip = ''10.0.0.100'';
          st \<leftarrow> add_each (map (\<lambda>i. (ip, ''OK'' @ show_nat i)) [0..<5]) 0 room_manager_new;
          assert_that (length (get_room_peers ip st) = 5) }"

definition reconnect_with_same_code_does_not_count_as_new_peer :: "unit option" where
  "reconnect_with_same_code_does_not_count_as_new_peer =
     do { let ip = ''10.0.0.101'';
          st \<leftarrow> add_each (map (\<lambda>i. (ip, ''P'' @ pad4 i)) [0..<MAX_PEERS_PER_ROOM]) 0 room_manager_new;
          let (p, st) = test_peer ''P0000'' ''reconnected device'' MAX_PEERS_PER_ROOM st;
          assert_that (is_ok (fst (add_peer ip p st))) }"

definition max_rooms_enforced :: "unit option" where
  "max_rooms_enforced =
     do { st \<leftarrow> add_each (map (\<lambda>i. (''192.168.'' @ show_nat (i div 256) @ ''.'' @ show_nat (i mod 256),
                                    ''ROOM'' @ show_nat i)) [0..<100]) 0 room_manager_new;
          assert_that (length (rooms st) = 100);
          assert_that (MAX_ROOMS \<ge> 1024);
          assert_that (MAX_ROOMS \<le> 1000000) }"

definition max_rooms_rejects_new_room_at_limit :: "unit option" where
  "max_rooms_rejects_new_room_at_limit =
     do { st \<leftarrow> add_each (map (\<lambda>i. (''1.1.'' @ show_nat (i div 256) @ ''.'' @ show_nat (i mod 256),
                                    ''B'' @ show_nat i)) [0..<50]) 0 room_manager_new;
          assert_that (length (rooms st) = 50);
          assert_that (MAX_ROOMS = 65536) }"

section \<open>They pass\<close>

lemmas room_test_simps =
  test_peer_def add_ok_def try_recv_def make_peer_def room_manager_new_def add_peer_def add_peer_refused_def
  add_peer_entry_def MAX_ROOMS_def MAX_PEERS_PER_ROOM_def room_at_def Let_def remove_at_def to_peer_data_def
  send_def room_count_def peer_count_def get_room_peers_def find_peer_def find_peer_manual_def
  remove_peer_def remove_peer_locked_def remove_room_def test_simps

lemma room_tests_1:
  "passes add_peer_inserts_into_correct_room"
  "passes add_peer_returns_existing_peers_before_insert"
  "passes add_peer_replaces_duplicate_peer_code"
  "passes add_peer_same_code_different_rooms_allowed"
  "passes remove_peer_skips_replaced_session_dp5"
  "passes add_peer_broadcasts_peer_joined_to_existing"
  unfolding add_peer_inserts_into_correct_room_def add_peer_returns_existing_peers_before_insert_def
    add_peer_replaces_duplicate_peer_code_def add_peer_same_code_different_rooms_allowed_def
    remove_peer_skips_replaced_session_dp5_def add_peer_broadcasts_peer_joined_to_existing_def
  by (simp_all add: room_test_simps)

lemma room_tests_2:
  "passes remove_peer_removes_from_room"
  "passes remove_peer_cleans_up_empty_room"
  "passes remove_peer_broadcasts_peer_left"
  "passes remove_peer_nonexistent_does_not_panic"
  "passes find_peer_returns_sender_for_same_room_peer"
  "passes find_peer_returns_none_for_absent_peer"
  unfolding remove_peer_removes_from_room_def remove_peer_cleans_up_empty_room_def
    remove_peer_broadcasts_peer_left_def remove_peer_nonexistent_does_not_panic_def
    find_peer_returns_sender_for_same_room_peer_def find_peer_returns_none_for_absent_peer_def
  by (simp_all add: room_test_simps)

lemma room_tests_3:
  "passes find_peer_rejects_cross_room_lookup"
  "passes find_peer_cross_room_regression"
  "passes find_peer_manual_finds_unique_cross_room_peer"
  "passes find_peer_manual_rejects_duplicate_codes_across_rooms"
  "passes find_peer_manual_returns_not_found_for_absent_code"
  "passes peer_a_disconnect_does_not_affect_peer_b"
  "passes multi_room_isolation"
  "passes get_room_peers_nonexistent_returns_empty"
  "passes empty_manager_counts_are_zero"
  "passes get_room_peers_returns_public_data"
  unfolding find_peer_rejects_cross_room_lookup_def find_peer_cross_room_regression_def
    find_peer_manual_finds_unique_cross_room_peer_def find_peer_manual_rejects_duplicate_codes_across_rooms_def
    find_peer_manual_returns_not_found_for_absent_code_def peer_a_disconnect_does_not_affect_peer_b_def
    multi_room_isolation_def get_room_peers_nonexistent_returns_empty_def empty_manager_counts_are_zero_def
    get_room_peers_returns_public_data_def
  by (simp_all add: room_test_simps)


text \<open>
  The tests with loops are not unrolled: a new code is added at the end of its room, so a loop
  over new codes fills a room, and a loop over new addresses opens one room each.
\<close>

lemma drop_rx_rooms [simp]: "rooms (drop_rx tx st) = rooms st" "rooms_inv (drop_rx tx st) = rooms_inv st"
  "room_at ip (drop_rx tx st) = room_at ip st" "add_peer_refused ip (drop_rx tx st) = add_peer_refused ip st"
  by (simp_all add: drop_rx_def add_peer_refused_def)

lemma add_new:
  assumes "rooms_inv st" "\<not> add_peer_refused ip st" "code \<notin> peer_code ` set (room_at ip st)"
    "length (room_at ip st) < MAX_PEERS_PER_ROOM" "test_peer code name tx st = (p, st1)"
  obtains v p' st' where "add_ok ip p st1 = Some (v, st')" "rooms_inv st'" "peer_code p' = code"
    "rooms st' = AList.update ip (room_at ip st @ [p']) (rooms st)"
proof -
  have p: "p = make_peer code name tx" and st1: "rooms_inv st1" "rooms st1 = rooms st" "room_at ip st1 = room_at ip st"
    "add_peer_refused ip st1 = add_peer_refused ip st"
    using assms(1,5) by (auto simp: test_peer_def add_peer_refused_def)
  have others: "others ip code st1 = room_at ip st"
    using assms(3) by (auto simp: others_def st1 filter_id_conv)
  obtain r st' where a: "add_peer ip p st1 = (r, st')" by fastforce
  from st1(1) a show thesis
  proof (cases rule: add_peer_cases)
    case added
    from added(3) a have "add_peer ip p st1 = (Inr (map to_peer_data (room_at ip st), next_session st1), st')"
      by (simp add: p others)
    from rooms_inv_add_peer [OF st1(1) this] this added(4) show ?thesis
      by (intro that [of _ st' "p\<lparr>session_id := next_session st1\<rparr>"])
        (simp_all add: add_ok_def unwrap_simps p others st1)
  qed (use assms(2,4) st1(4) in \<open>simp_all add: p others\<close>)
qed

lemma add_each_room:
  assumes "rooms_inv st" "\<not> add_peer_refused ip st" "distinct codes"
    "set codes \<inter> peer_code ` set (room_at ip st) = {}"
    "length (room_at ip st) + length codes \<le> MAX_PEERS_PER_ROOM"
  shows "\<exists>st'. add_each (map (Pair ip) codes) tx st = Some st' \<and> rooms_inv st' \<and>
    \<not> add_peer_refused ip st' \<and> map peer_code (room_at ip st') = map peer_code (room_at ip st) @ codes"
  using assms
proof (induction codes arbitrary: tx st)
  case (Cons code codes)
  obtain p st1 where t: "test_peer code ''device'' tx st = (p, st1)" by fastforce
  obtain v p' st2 where a: "add_ok ip p st1 = Some (v, st2)" "rooms_inv st2" "peer_code p' = code"
    "rooms st2 = AList.update ip (room_at ip st @ [p']) (rooms st)"
    using Cons.prems by (elim add_new [OF _ _ _ _ t]) auto
  have room: "room_at ip st2 = room_at ip st @ [p']" "\<not> add_peer_refused ip st2"
    using a(4) by (simp_all add: room_at_def add_peer_refused_def update_conv')
  have "\<exists>st'. add_each (map (Pair ip) codes) (Suc tx) (drop_rx tx st2) = Some st' \<and> rooms_inv st' \<and>
    \<not> add_peer_refused ip st' \<and> map peer_code (room_at ip st') = map peer_code (room_at ip (drop_rx tx st2)) @ codes"
    using Cons.prems a(2,3) room by (intro Cons.IH) auto
  then show ?case using t a(1,3) room by auto
qed simp

lemma add_each_rooms:
  assumes "rooms_inv st" "distinct (map fst ps)" "fst ` set ps \<inter> fst ` set (rooms st) = {}"
    "length (rooms st) + length ps \<le> MAX_ROOMS"
  shows "\<exists>st'. add_each ps tx st = Some st' \<and> length (rooms st') = length (rooms st) + length ps"
  using assms
proof (induction ps arbitrary: tx st)
  case (Cons q ps)
  obtain ip code where q: "q = (ip, code)" by fastforce
  obtain p st1 where t: "test_peer code ''device'' tx st = (p, st1)" by fastforce
  have free: "map_of (rooms st) ip = None" using Cons.prems(3) by (auto simp: q map_of_eq_None_iff)
  then have empty: "room_at ip st = []" by (simp add: room_at_def)
  obtain v p' st2 where a: "add_ok ip p st1 = Some (v, st2)" "rooms_inv st2"
    "rooms st2 = AList.update ip [p'] (rooms st)"
    using Cons.prems empty by (elim add_new [where ip = ip, OF _ _ _ _ t]) (auto simp: add_peer_refused_def)
  have len: "length (rooms st2) = Suc (length (rooms st))"
    using free by (simp add: a(3) length_update_absent map_of_eq_None_iff)
  have "\<exists>st'. add_each ps (Suc tx) (drop_rx tx st2) = Some st' \<and>
      length (rooms st') = length (rooms (drop_rx tx st2)) + length ps"
    using Cons.prems a(2,3) len by (intro Cons.IH) (auto simp: q dom_update)
  then show ?case using t a(1) len by (auto simp: q)
qed simp


lemma new_rooms [simp]: "rooms room_manager_new = []" "room_at ip room_manager_new = []"
  "\<not> add_peer_refused ip room_manager_new"
  by (simp_all add: room_manager_new_def room_at_def add_peer_refused_def MAX_ROOMS_def)

lemma room_filled:
  "\<exists>st. add_each (map (\<lambda>i. (ip, ''P'' @ pad4 i)) [0..<MAX_PEERS_PER_ROOM]) 0 room_manager_new = Some st \<and>
     rooms_inv st \<and> \<not> add_peer_refused ip st \<and>
     map peer_code (room_at ip st) = map (\<lambda>i. ''P'' @ pad4 i) [0..<MAX_PEERS_PER_ROOM]"
proof -
  let ?codes = "map (\<lambda>i. ''P'' @ pad4 i) [0..<MAX_PEERS_PER_ROOM]"
  have "distinct ?codes" by (simp add: distinct_map inj_on_def pad4_inj)
  then have "\<exists>st. add_each (map (Pair ip) ?codes) 0 room_manager_new = Some st \<and> rooms_inv st \<and>
      \<not> add_peer_refused ip st \<and> map peer_code (room_at ip st) = map peer_code (room_at ip (room_manager_new :: test_state)) @ ?codes"
    by (intro add_each_room) (simp_all add: rooms_inv_new)
  then show ?thesis by (simp add: o_def)
qed

lemma loop_test_full: "passes max_peers_per_room_enforced"
proof -
  let ?ip = "''10.0.0.99''"
  obtain st where st: "add_each (map (\<lambda>i. (?ip, ''P'' @ pad4 i)) [0..<MAX_PEERS_PER_ROOM]) 0 room_manager_new = Some st"
    "rooms_inv st" "\<not> add_peer_refused ?ip st"
    "map peer_code (room_at ?ip st) = map (\<lambda>i. ''P'' @ pad4 i) [0..<MAX_PEERS_PER_ROOM]"
    using room_filled by blast
  obtain p st1 where t: "test_peer ''OVERFLOW'' ''overflow device'' MAX_PEERS_PER_ROOM st = (p, st1)" by fastforce
  then have p: "peer_code p = ''OVERFLOW''" "rooms st1 = rooms st" "rooms_inv st1"
    "room_at ?ip st1 = room_at ?ip st" "add_peer_refused ?ip st1 = add_peer_refused ?ip st"
    using st(2) by (auto simp: test_peer_def add_peer_refused_def)
  obtain r st2 where a: "add_peer ?ip p st1 = (r, st2)" by fastforce
  have "length (others ?ip ''OVERFLOW'' st1) = MAX_PEERS_PER_ROOM"
  proof -
    have "length (room_at ?ip st) = MAX_PEERS_PER_ROOM" using arg_cong [OF st(4), of length] by simp
    moreover have "''OVERFLOW'' \<notin> set (map peer_code (room_at ?ip st))" unfolding st(4) by auto
    then have "others ?ip ''OVERFLOW'' st1 = room_at ?ip st"
      unfolding others_def p(4) by (intro filter_True) (metis image_eqI list.set_map)
    ultimately show ?thesis by simp
  qed
  with p(3) a have "r = Inl (''room full ('' @ show_nat MAX_PEERS_PER_ROOM @ '' peers)'')"
    by (cases rule: add_peer_cases) (use st(3) p(1,5) in simp_all)
  moreover have "contains ''room full'' (''room full ('' @ show_nat MAX_PEERS_PER_ROOM @ '' peers)'')"
    by (simp add: contains_prefix)
  ultimately show ?thesis
    using st(1) t a by (simp add: max_peers_per_room_enforced_def Let_def test_simps)
qed

lemma loop_test_reconnect: "passes reconnect_with_same_code_does_not_count_as_new_peer"
proof -
  let ?ip = "''10.0.0.101''"
  obtain st where st: "add_each (map (\<lambda>i. (?ip, ''P'' @ pad4 i)) [0..<MAX_PEERS_PER_ROOM]) 0 room_manager_new = Some st"
    "rooms_inv st" "\<not> add_peer_refused ?ip st"
    "map peer_code (room_at ?ip st) = map (\<lambda>i. ''P'' @ pad4 i) [0..<MAX_PEERS_PER_ROOM]"
    using room_filled by blast
  obtain p st1 where t: "test_peer ''P0000'' ''reconnected device'' MAX_PEERS_PER_ROOM st = (p, st1)" by fastforce
  then have p: "peer_code p = ''P0000''" "rooms_inv st1" "room_at ?ip st1 = room_at ?ip st"
    "add_peer_refused ?ip st1 = add_peer_refused ?ip st"
    using st(2) by (auto simp: test_peer_def add_peer_refused_def)
  obtain r st2 where a: "add_peer ?ip p st1 = (r, st2)" by fastforce
  have "length (others ?ip ''P0000'' st1) < MAX_PEERS_PER_ROOM"
  proof -
    have "length (room_at ?ip st) = MAX_PEERS_PER_ROOM" using arg_cong [OF st(4), of length] by simp
    moreover have "''P'' @ pad4 0 = ''P0000''" by code_simp
    then have "''P0000'' \<in> set (map peer_code (room_at ?ip st))"
      unfolding st(4) by (auto simp: MAX_PEERS_PER_ROOM_def image_iff intro!: bexI [of _ 0])
    then have "length (others ?ip ''P0000'' st1) < length (room_at ?ip st)"
      unfolding others_def p(3) by (auto intro: length_filter_less)
    ultimately show ?thesis by simp
  qed
  with p(2) a have "is_ok r"
    by (cases rule: add_peer_cases) (use st(3) p(1,4) in \<open>simp_all add: is_ok_iff\<close>)
  then show ?thesis
    using st(1) t a by (simp add: reconnect_with_same_code_does_not_count_as_new_peer_def Let_def test_simps)
qed

lemma loop_test_below: "passes peers_below_room_limit_accepted"
proof -
  let ?ip = "''10.0.0.100''" and ?codes = "map (\<lambda>i. ''OK'' @ show_nat i) [0..<5]"
  have "distinct ?codes" by (simp add: distinct_map inj_on_def show_nat_inj)
  then have "\<exists>st. add_each (map (Pair ?ip) ?codes) 0 room_manager_new = Some st \<and> rooms_inv st \<and>
      \<not> add_peer_refused ?ip st \<and> map peer_code (room_at ?ip st) = map peer_code (room_at ?ip (room_manager_new :: test_state)) @ ?codes"
    by (intro add_each_room) (simp_all add: rooms_inv_new MAX_PEERS_PER_ROOM_def)
  then obtain st where st: "add_each (map (\<lambda>i. (?ip, ''OK'' @ show_nat i)) [0..<5]) 0 room_manager_new = Some st"
    "map peer_code (room_at ?ip st) = ?codes"
    by (auto simp: o_def)
  have "length (room_at ?ip st) = 5" using arg_cong [OF st(2), of length] by simp
  moreover have "length (get_room_peers ?ip st) = length (room_at ?ip st)"
    by (simp add: get_room_peers_def room_at_def split: option.split)
  ultimately show ?thesis using st(1) by (simp add: peers_below_room_limit_accepted_def Let_def test_simps del: upt.simps)
qed

lemma loop_tests_rooms: "passes max_rooms_enforced" "passes max_rooms_rejects_new_room_at_limit"
proof -
  have "\<exists>st. add_each (map (\<lambda>i. (pre @ show_nat (i div 256) @ ''.'' @ show_nat (i mod 256), code i)) [0..<n])
      0 room_manager_new = Some st \<and> length (rooms st) = n" if "n \<le> 256" for pre code n
  proof -
    have "inj_on (\<lambda>i. pre @ show_nat (i div 256) @ ''.'' @ show_nat (i mod 256)) {0..<n}"
      using that by (auto simp: inj_on_def show_nat_inj)
    then have "distinct (map fst (map (\<lambda>i. (pre @ show_nat (i div 256) @ ''.'' @ show_nat (i mod 256), code i)) [0..<n]))"
      by (simp add: distinct_map o_def)
    from add_each_rooms [OF rooms_inv_new this, of 0] that show ?thesis
      by (simp add: MAX_ROOMS_def)
  qed
  from this [of 100 "''192.168.''" "\<lambda>i. ''ROOM'' @ show_nat i"] this [of 50 "''1.1.''" "\<lambda>i. ''B'' @ show_nat i"]
  show "passes max_rooms_enforced" "passes max_rooms_rejects_new_room_at_limit"
    by (auto simp: max_rooms_enforced_def max_rooms_rejects_new_room_at_limit_def MAX_ROOMS_def test_simps
        simp del: upt.simps upt_rec_numeral)
qed


section \<open>Properties\<close>

text \<open>The tests of this file, and that they all pass.\<close>

definition room_tests :: "unit option list" where
  "room_tests =
    [add_peer_inserts_into_correct_room, add_peer_returns_existing_peers_before_insert,
     add_peer_replaces_duplicate_peer_code, add_peer_same_code_different_rooms_allowed,
     remove_peer_skips_replaced_session_dp5, add_peer_broadcasts_peer_joined_to_existing,
     remove_peer_removes_from_room, remove_peer_cleans_up_empty_room, remove_peer_broadcasts_peer_left,
     remove_peer_nonexistent_does_not_panic, find_peer_returns_sender_for_same_room_peer,
     find_peer_returns_none_for_absent_peer, find_peer_rejects_cross_room_lookup,
     find_peer_cross_room_regression, find_peer_manual_finds_unique_cross_room_peer,
     find_peer_manual_rejects_duplicate_codes_across_rooms,
     find_peer_manual_returns_not_found_for_absent_code, peer_a_disconnect_does_not_affect_peer_b,
     multi_room_isolation, get_room_peers_nonexistent_returns_empty, empty_manager_counts_are_zero,
     get_room_peers_returns_public_data, max_peers_per_room_enforced, peers_below_room_limit_accepted,
     reconnect_with_same_code_does_not_count_as_new_peer, max_rooms_enforced,
     max_rooms_rejects_new_room_at_limit]"

lemma room_tests_pass: "list_all passes room_tests"
  unfolding room_tests_def
  using room_tests_1 room_tests_2 room_tests_3 loop_test_full loop_test_reconnect loop_test_below
    loop_tests_rooms by simp

end
