(* ===== verification/Server_Tests.thy ===== *)
theory Server_Tests
  imports Connection Server_Main Test_Kit
begin

text \<open>
  The unit tests of \<open>signal/src/server.rs\<close> and \<open>signal/src/lib.rs\<close>, run on the model: the
  validators at their boundaries, the rate limiter under paused time, the trust in forwarding
  headers, the constants and the connection slots.
\<close>

section \<open>Sizes and names\<close>

definition message_size_within_limit :: "unit option" where
  "message_size_within_limit =
     do { assert_that (is_ok (validate_message_size 0));
          assert_that (is_ok (validate_message_size 1024));
          assert_that (is_ok (validate_message_size MAX_MESSAGE_BYTES)) }"

definition message_size_exceeds_limit :: "unit option" where
  "message_size_exceeds_limit =
     do { let result = validate_message_size (MAX_MESSAGE_BYTES + 1);
          assert_that (\<not> is_ok result);
          err \<leftarrow> unwrap_err result;
          assert_that (contains ''message too large'' err);
          assert_that (contains (show_nat (MAX_MESSAGE_BYTES + 1)) err) }"

definition message_size_boundary :: "unit option" where
  "message_size_boundary =
     do { assert_that (is_ok (validate_message_size MAX_MESSAGE_BYTES));
          assert_that (\<not> is_ok (validate_message_size (MAX_MESSAGE_BYTES + 1))) }"

definition device_name_within_limit :: "unit option" where
  "device_name_within_limit =
     do { assert_that (is_ok (validate_device_name ''iPhone 15''));
          assert_that (is_ok (validate_device_name (replicate MAX_DEVICE_NAME_BYTES CHR ''x''))) }"

definition device_name_exceeds_limit :: "unit option" where
  "device_name_exceeds_limit =
     do { let result = validate_device_name (replicate (MAX_DEVICE_NAME_BYTES + 1) CHR ''x'');
          assert_that (\<not> is_ok result);
          err \<leftarrow> unwrap_err result;
          assert_that (contains ''device_name too long'' err) }"

definition device_name_empty_is_ok :: "unit option" where
  "device_name_empty_is_ok = assert_that (is_ok (validate_device_name []))"

section \<open>Peer codes\<close>

text \<open>\<open>assert_eq!(f(s).unwrap(), c)\<close>, and an error whose text contains a phrase.\<close>

definition assert_gives :: "(string, string) result \<Rightarrow> string \<Rightarrow> unit option" where
  "assert_gives r c = do { v \<leftarrow> unwrap r; assert_that (v = c) }"

definition assert_err_contains :: "(string, string) result \<Rightarrow> string \<Rightarrow> unit option" where
  "assert_err_contains r pat =
     do { assert_that (\<not> is_ok r); e \<leftarrow> unwrap_err r; assert_that (contains pat e) }"

definition line_break :: string where "line_break = [CHR 0x0A]"

definition signal_target_valid :: "unit option" where
  "signal_target_valid =
     do { assert_gives (validate_signal_target ''ABC123'') ''ABC123'';
          assert_gives (validate_signal_target ''X'') ''X'';
          assert_gives (validate_signal_target (replicate MAX_PEER_CODE_BYTES CHR ''A''))
            (replicate MAX_PEER_CODE_BYTES CHR ''A'') }"

definition signal_target_hyphens_stripped :: "unit option" where
  "signal_target_hyphens_stripped =
     do { assert_gives (validate_signal_target ''ABC-123'') ''ABC123'';
          assert_gives (validate_signal_target ''AB-CD-EF'') ''ABCDEF'';
          assert_gives (validate_signal_target ''ABCD-EFGH'') ''ABCDEFGH'' }"

definition signal_target_empty :: "unit option" where
  "signal_target_empty = assert_err_contains (validate_signal_target []) ''cannot be empty''"

definition signal_target_only_hyphens :: "unit option" where
  "signal_target_only_hyphens = assert_err_contains (validate_signal_target ''---'') ''cannot be empty''"

definition signal_target_too_long :: "unit option" where
  "signal_target_too_long =
     assert_err_contains (validate_signal_target (replicate (MAX_PEER_CODE_BYTES + 1) CHR ''A'')) ''too long''"

definition signal_target_non_alphanumeric :: "unit option" where
  "signal_target_non_alphanumeric =
     do { assert_that (\<not> is_ok (validate_signal_target ''ABC 123''));
          assert_that (\<not> is_ok (validate_signal_target (''ABC'' @ line_break @ ''123'')));
          assert_that (\<not> is_ok (validate_signal_target ''AB!C'')) }"

definition peer_code_valid :: "unit option" where
  "peer_code_valid =
     do { assert_gives (validate_peer_code ''ABC123'') ''ABC123'';
          assert_gives (validate_peer_code (replicate MAX_PEER_CODE_BYTES CHR ''Z''))
            (replicate MAX_PEER_CODE_BYTES CHR ''Z'') }"

definition peer_code_hyphens_stripped :: "unit option" where
  "peer_code_hyphens_stripped =
     do { assert_gives (validate_peer_code ''ABCD-EFGH'') ''ABCDEFGH'';
          assert_gives (validate_peer_code ''AB-CD'') ''ABCD'';
          assert_gives (validate_peer_code ''A-B-C-D'') ''ABCD'' }"

definition peer_code_empty :: "unit option" where
  "peer_code_empty = assert_that (\<not> is_ok (validate_peer_code []))"

definition peer_code_only_hyphens :: "unit option" where
  "peer_code_only_hyphens = assert_err_contains (validate_peer_code ''----'') ''cannot be empty''"

definition peer_code_too_long :: "unit option" where
  "peer_code_too_long =
     assert_that (\<not> is_ok (validate_peer_code (replicate (MAX_PEER_CODE_BYTES + 1) CHR ''A'')))"

definition peer_code_too_long_after_strip :: "unit option" where
  "peer_code_too_long_after_strip =
     do { assert_that (is_ok (validate_peer_code (replicate MAX_PEER_CODE_BYTES CHR ''A'' @ ''--'')));
          assert_that (\<not> is_ok (validate_peer_code (replicate (MAX_PEER_CODE_BYTES + 1) CHR ''A'' @ ''-''))) }"

definition peer_code_non_alphanumeric :: "unit option" where
  "peer_code_non_alphanumeric =
     do { assert_that (\<not> is_ok (validate_peer_code ''AB!C''));
          assert_that (\<not> is_ok (validate_peer_code ''AB C''));
          assert_that (\<not> is_ok (validate_peer_code (''AB'' @ line_break @ ''C''))) }"

definition peer_code_error_prefix :: "unit option" where
  "peer_code_error_prefix =
     do { err \<leftarrow> unwrap_err (validate_peer_code []);
          assert_that (prefix ''invalid_peer_code:'' err);
          err \<leftarrow> unwrap_err (validate_peer_code ''AB!C'');
          assert_that (prefix ''invalid_peer_code:'' err) }"

section \<open>Rate limiter\<close>

text \<open>
  Time is paused at \<open>now\<close> and advanced explicitly; loops repeat a check and either ignore its
  result or assert it.
\<close>

fun checks :: "nat \<Rightarrow> nat \<Rightarrow> rate_limit \<Rightarrow> rate_limit" where
  "checks now 0 rl = rl"
| "checks now (Suc n) rl = checks now n (snd (rate_limit_check now rl))"

fun checks_ok :: "nat \<Rightarrow> nat \<Rightarrow> rate_limit \<Rightarrow> rate_limit option" where
  "checks_ok now 0 rl = Some rl"
| "checks_ok now (Suc n) rl =
     (case rate_limit_check now rl of
        (r, rl) \<Rightarrow> do { assert_that (is_ok r); checks_ok now n rl })"

fun checks_refused :: "nat \<Rightarrow> nat \<Rightarrow> rate_limit \<Rightarrow> rate_limit option" where
  "checks_refused now 0 rl = Some rl"
| "checks_refused now (Suc n) rl =
     (case rate_limit_check now rl of
        (r, rl) \<Rightarrow> do { assert_that (r = Inl False); checks_refused now n rl })"

definition budget :: nat where "budget = unat RATE_LIMIT_PER_SECOND"

definition rate_limit_allows_within_budget :: "nat \<Rightarrow> unit option" where
  "rate_limit_allows_within_budget now =
     do { let rl = rate_limit_new now; _ \<leftarrow> checks_ok now budget rl; Some () }"

definition rate_limit_rejects_over_budget :: "nat \<Rightarrow> unit option" where
  "rate_limit_rejects_over_budget now =
     do { let rl = checks now budget (rate_limit_new now);
          assert_that (fst (rate_limit_check now rl) = Inl False) }"

definition rate_limit_closes_after_threshold :: "nat \<Rightarrow> unit option" where
  "rate_limit_closes_after_threshold now =
     do { let rl = checks now budget (rate_limit_new now);
          rl \<leftarrow> checks_refused now (unat (RATE_LIMIT_CLOSE_THRESHOLD - 1)) rl;
          assert_that (fst (rate_limit_check now rl) = Inl True) }"

definition rate_limit_resets_after_window :: "nat \<Rightarrow> unit option" where
  "rate_limit_resets_after_window now =
     do { let rl = checks now budget (rate_limit_new now);
          let (r, rl) = rate_limit_check now rl;
          assert_that (\<not> is_ok r);
          let now = now + 2 * one_second;
          assert_that (is_ok (fst (rate_limit_check now rl))) }"

definition rate_limit_violation_count_resets_on_success :: "nat \<Rightarrow> unit option" where
  "rate_limit_violation_count_resets_on_success now =
     do { let rl = checks now budget (rate_limit_new now);
          rl \<leftarrow> checks_refused now 2 rl;
          let now = now + 2 * one_second;
          let (r, rl) = rate_limit_check now rl;
          assert_that (is_ok r);
          let rl = checks now (budget - 1) rl;
          assert_that (fst (rate_limit_check now rl) = Inl False) }"


section \<open>Forwarding headers\<close>

text \<open>
  These four tests do not call the handler: they repeat its choice of the raw address, without
  the branch for private socket addresses.
\<close>

definition extracted_raw_ip :: "ip_addr list \<Rightarrow> ip_addr \<Rightarrow> string option \<Rightarrow> string" where
  "extracted_raw_ip trusted socket_ip xff =
     (case (if socket_ip \<in> set trusted then xff else None) of Some ip \<Rightarrow> ip | None \<Rightarrow> show_ip socket_ip)"

definition xff_ignored_when_proxy_not_trusted :: "unit option" where
  "xff_ignored_when_proxy_not_trusted =
     do { socket_ip \<leftarrow> parse_ip ''203.0.113.50'';
          let raw_ip = extracted_raw_ip [] socket_ip (Some ''10.0.0.1'');
          assert_that (raw_ip = ''203.0.113.50'') }"

definition xff_honored_when_proxy_trusted :: "unit option" where
  "xff_honored_when_proxy_trusted =
     do { proxy \<leftarrow> parse_ip ''198.51.100.1'';
          socket_ip \<leftarrow> parse_ip ''198.51.100.1'';
          let raw_ip = extracted_raw_ip [proxy] socket_ip (Some ''10.0.0.1'');
          assert_that (raw_ip = ''10.0.0.1'') }"

definition xff_falls_back_to_socket_when_trusted_but_no_header :: "unit option" where
  "xff_falls_back_to_socket_when_trusted_but_no_header =
     do { proxy \<leftarrow> parse_ip ''198.51.100.1'';
          socket_ip \<leftarrow> parse_ip ''198.51.100.1'';
          let raw_ip = extracted_raw_ip [proxy] socket_ip None;
          assert_that (raw_ip = ''198.51.100.1'') }"

definition xff_empty_trusted_list_always_ignores_header :: "unit option" where
  "xff_empty_trusted_list_always_ignores_header =
     do { socket_ip \<leftarrow> parse_ip ''127.0.0.1'';
          let raw_ip = extracted_raw_ip [] socket_ip (Some ''spoofed.ip'');
          assert_that (raw_ip = ''127.0.0.1'') }"

section \<open>Constants\<close>

definition trust_boundary_constants :: "unit option" where
  "trust_boundary_constants =
     do { assert_that (MAX_MESSAGE_BYTES = 1048576);
          assert_that (MAX_DEVICE_NAME_BYTES = 256);
          assert_that (MAX_PEER_CODE_BYTES = 16);
          assert_that (RATE_LIMIT_PER_SECOND = 50);
          assert_that (RATE_LIMIT_CLOSE_THRESHOLD = 3) }"

definition ws_config_sets_message_limits :: "unit option" where
  "ws_config_sets_message_limits =
     do { let (max_message_size, max_frame_size) = ws_config;
          assert_that (max_message_size = MAX_MESSAGE_BYTES);
          assert_that (max_frame_size = MAX_MESSAGE_BYTES) }"

definition idle_timeout_constant_is_reasonable :: "unit option" where
  "idle_timeout_constant_is_reasonable =
     do { assert_that (IDLE_TIMEOUT \<ge> 60);
          assert_that (IDLE_TIMEOUT \<le> 600);
          assert_that (IDLE_TIMEOUT = 300) }"

section \<open>Connection slots\<close>

text \<open>A guard is the flag \<open>try_acquire_slot\<close> returns; dropping it is \<^const>\<open>guard_drop\<close>.\<close>

definition test_server :: "u64 \<Rightarrow> nat signaling_server option" where
  "test_server mx =
     do { addr \<leftarrow> parse_socket_addr ''127.0.0.1:0'';
          Some (with_max_connections mx (signaling_server_new addr)) }"

definition limit_zero_rejects_all :: "unit option" where
  "limit_zero_rejects_all =
     do { server \<leftarrow> test_server 0;
          let (guard, server) = try_acquire_slot server;
          assert_that (\<not> guard);
          assert_that (active_connections server = 0) }"

definition limit_one_allows_first_rejects_second :: "unit option" where
  "limit_one_allows_first_rejects_second =
     do { server \<leftarrow> test_server 1;
          let (guard, server) = try_acquire_slot server;
          assert_that guard;
          assert_that (active_connections server = 1);
          let (guard2, server) = try_acquire_slot server;
          assert_that (\<not> guard2);
          assert_that (active_connections server = 1) }"

definition disconnect_releases_slot :: "unit option" where
  "disconnect_releases_slot =
     do { server \<leftarrow> test_server 1;
          let (guard, server) = try_acquire_slot server;
          assert_that guard;
          assert_that (active_connections server = 1);
          let server = guard_drop server;
          assert_that (active_connections server = 0);
          let (guard2, server) = try_acquire_slot server;
          assert_that guard2;
          assert_that (active_connections server = 1) }"

definition default_limit_nonzero :: "unit option" where
  "default_limit_nonzero =
     do { addr \<leftarrow> parse_socket_addr ''127.0.0.1:0'';
          let server = (signaling_server_new addr :: nat signaling_server);
          assert_that (max_connections server = DEFAULT_MAX_WS_CONNECTIONS);
          assert_that (DEFAULT_MAX_WS_CONNECTIONS > 0) }"

section \<open>They pass\<close>

lemma size_error: "contains (show_nat n) (a @ show_nat n @ b)" "contains ''message too large'' (''message too large ('' @ c)"
  by (simp_all only: contains_iff_sublist sublist_appendI) (simp add: prefix_imp_sublist)

lemma size_tests:
  "passes message_size_within_limit" "passes message_size_exceeds_limit" "passes message_size_boundary"
  "passes device_name_within_limit" "passes device_name_exceeds_limit" "passes device_name_empty_is_ok"
proof -
  show "passes message_size_within_limit" "passes message_size_boundary" "passes device_name_within_limit"
    "passes device_name_exceeds_limit" "passes device_name_empty_is_ok"
    unfolding message_size_within_limit_def message_size_boundary_def
      device_name_within_limit_def device_name_exceeds_limit_def device_name_empty_is_ok_def
    by (simp_all add: validate_message_size_def validate_device_name_def MAX_MESSAGE_BYTES_def
        MAX_DEVICE_NAME_BYTES_def test_simps contains_prefix)
  let ?n = "show_nat (MAX_MESSAGE_BYTES + 1)"
  have "validate_message_size (MAX_MESSAGE_BYTES + 1) =
      Inl (''message too large ('' @ ?n @ '' bytes, max '' @ show_nat MAX_MESSAGE_BYTES @ '')'')"
    by (simp only: validate_message_size_def) simp
  then show "passes message_size_exceeds_limit"
    unfolding message_size_exceeds_limit_def Let_def
    by (simp only: Option.bind.simps size_error test_simps is_ok_def sum.case not_False_eq_True if_True)
qed

lemma target_tests:
  "passes signal_target_valid" "passes signal_target_hyphens_stripped" "passes signal_target_empty"
  "passes signal_target_only_hyphens" "passes signal_target_too_long" "passes signal_target_non_alphanumeric"
  by code_simp+

lemma code_tests:
  "passes peer_code_valid" "passes peer_code_hyphens_stripped" "passes peer_code_empty"
  "passes peer_code_only_hyphens" "passes peer_code_too_long" "passes peer_code_too_long_after_strip"
  "passes peer_code_non_alphanumeric" "passes peer_code_error_prefix"
  by code_simp+

lemma address_texts:
  "show_ip (V4 203 0 113 50) = ''203.0.113.50''" "show_ip (V4 198 51 100 1) = ''198.51.100.1''"
  "show_ip (V4 127 0 0 1) = ''127.0.0.1''" "show_ip (V4 8 8 8 8) = ''8.8.8.8''"
proof -
  have "show_ipv4 203 0 113 50 = ''203.0.113.50''" "show_ipv4 198 51 100 1 = ''198.51.100.1''"
    "show_ipv4 127 0 0 1 = ''127.0.0.1''" "show_ipv4 8 8 8 8 = ''8.8.8.8''"
    by code_simp+
  then show "show_ip (V4 203 0 113 50) = ''203.0.113.50''" "show_ip (V4 198 51 100 1) = ''198.51.100.1''"
    "show_ip (V4 127 0 0 1) = ''127.0.0.1''" "show_ip (V4 8 8 8 8) = ''8.8.8.8''"
    by simp_all
qed

lemmas parsed_texts = parse_show_ipv4 [of 203 0 113 50] parse_show_ipv4 [of 198 51 100 1]
  parse_show_ipv4 [of 127 0 0 1] parse_show_ipv4 [of 8 8 8 8]

lemmas address_parses = parsed_texts [unfolded address_texts]

lemma extracted_texts:
  "extracted_raw_ip [] (V4 203 0 113 50) x = ''203.0.113.50''"
  "extracted_raw_ip [] (V4 127 0 0 1) x = ''127.0.0.1''"
  "extracted_raw_ip [V4 198 51 100 1] (V4 198 51 100 1) None = ''198.51.100.1''"
  "extracted_raw_ip [V4 198 51 100 1] (V4 198 51 100 1) (Some t) = t"
  unfolding extracted_raw_ip_def address_texts by simp_all

lemma header_tests:
  "passes xff_ignored_when_proxy_not_trusted" "passes xff_honored_when_proxy_trusted"
  "passes xff_falls_back_to_socket_when_trusted_but_no_header"
  "passes xff_empty_trusted_list_always_ignores_header"
proof -
  note run = address_parses Option.bind.simps Let_def extracted_texts
  show "passes xff_ignored_when_proxy_not_trusted"
    unfolding xff_ignored_when_proxy_not_trusted_def run by (simp add: test_simps)
  show "passes xff_honored_when_proxy_trusted"
    unfolding xff_honored_when_proxy_trusted_def run by (simp add: test_simps)
  show "passes xff_falls_back_to_socket_when_trusted_but_no_header"
    unfolding xff_falls_back_to_socket_when_trusted_but_no_header_def run by (simp add: test_simps)
  show "passes xff_empty_trusted_list_always_ignores_header"
    unfolding xff_empty_trusted_list_always_ignores_header_def run by (simp add: test_simps)
qed

lemma constant_tests:
  "passes trust_boundary_constants" "passes ws_config_sets_message_limits"
  "passes idle_timeout_constant_is_reasonable"
  by (simp_all add: trust_boundary_constants_def ws_config_sets_message_limits_def
      idle_timeout_constant_is_reasonable_def MAX_MESSAGE_BYTES_def MAX_DEVICE_NAME_BYTES_def
      MAX_PEER_CODE_BYTES_def rate_limit_consts ws_config_def IDLE_TIMEOUT_def test_simps)

lemma slot_tests:
  "passes limit_zero_rejects_all" "passes limit_one_allows_first_rejects_second"
  "passes disconnect_releases_slot" "passes default_limit_nonzero"
proof -
  have zero: "show_nat 0 = ''0''" by code_simp
  have "parse_socket_addr ''127.0.0.1:0'' = Some (V4 127 0 0 1, 0)"
    using parse_socket_show [of 0 127 0 0 1] unfolding address_texts zero by simp
  then show "passes limit_zero_rejects_all" "passes limit_one_allows_first_rejects_second"
    "passes disconnect_releases_slot" "passes default_limit_nonzero"
    by (simp_all add: limit_zero_rejects_all_def limit_one_allows_first_rejects_second_def
        disconnect_releases_slot_def default_limit_nonzero_def test_server_def with_max_connections_def
        signaling_server_new_def try_acquire_slot_def guard_drop_def DEFAULT_MAX_WS_CONNECTIONS_def
        Let_def test_simps)
qed


text \<open>The loops of the limiter's tests: a budget that lasts, a refusal, a fresh window.\<close>

lemma spend:
  assumes "now < window_start rl + one_second" "n \<le> unat (remaining rl)"
    "0 < n \<or> consecutive_violations rl = 0"
  shows "\<exists>rl'. checks_ok now n rl = Some rl' \<and> checks now n rl = rl' \<and>
    window_start rl' = window_start rl \<and> unat (remaining rl') = unat (remaining rl) - n \<and>
    consecutive_violations rl' = 0"
  using assms
proof (induction n arbitrary: rl)
  case (Suc n)
  have "\<not> one_second \<le> now - window_start rl" "0 < remaining rl"
    using Suc.prems one_second_pos by (auto simp: word_gt_0_no unat_gt_0 intro!: word_gt_0 [THEN iffD2])
  then have c: "rate_limit_check now rl = (Inr (), rl\<lparr>remaining := remaining rl - 1, consecutive_violations := 0\<rparr>)"
    by (simp add: rate_limit_check_def Let_def)
  have "unat (remaining rl - 1) = unat (remaining rl) - 1"
    using word_pos_minus_one \<open>0 < remaining rl\<close> by blast
  with Suc.IH [of "rl\<lparr>remaining := remaining rl - 1, consecutive_violations := 0\<rparr>"] Suc.prems c
  show ?case by (auto simp: test_simps)
qed simp

lemma spend_all:
  obtains rl where "checks now budget (rate_limit_new now) = rl" "checks_ok now budget (rate_limit_new now) = Some rl"
    "window_start rl = now" "remaining rl = 0" "consecutive_violations rl = 0"
proof -
  have "0 < budget" "budget \<le> unat (remaining (rate_limit_new now))"
    by (simp_all add: budget_def rate_limit_new_def rate_limit_consts)
  moreover have "now < window_start (rate_limit_new now) + one_second"
    using one_second_pos by (simp add: rate_limit_new_def)
  moreover have "unat (remaining (rate_limit_new now)) - budget = 0"
    by (simp add: budget_def rate_limit_new_def)
  ultimately show ?thesis
    using spend [of now "rate_limit_new now" budget] that
    by (auto simp: unat_eq_zero rate_limit_new_def)
qed

lemma check_empty:
  "window_start rl = now \<Longrightarrow> remaining rl = 0 \<Longrightarrow>
   rate_limit_check now rl =
     (Inl (consecutive_violations rl + 1 \<ge> 3), rl\<lparr>consecutive_violations := consecutive_violations rl + 1\<rparr>)"
  using one_second_pos by (simp add: rate_limit_check_def Let_def rate_limit_consts)

lemma check_fresh:
  "window_start rl = now \<Longrightarrow>
   rate_limit_check (now + 2 * one_second) rl =
     (Inr (), rl\<lparr>remaining := 49, window_start := now + 2 * one_second, consecutive_violations := 0\<rparr>)"
  using one_second_pos by (simp add: rate_limit_check_def Let_def rate_limit_consts)

lemma below_threshold: "\<not> (3 :: u32) \<le> 1" "\<not> (3 :: u32) \<le> 2"
  by (simp_all add: word_le_nat_alt)

lemma checks_refused_2: "checks_refused now 2 rl = checks_refused now (Suc (Suc 0)) rl"
  by (simp only: numeral_2_eq_2)

lemma limiter_tests:
  "passes (rate_limit_allows_within_budget now)" "passes (rate_limit_rejects_over_budget now)"
  "passes (rate_limit_closes_after_threshold now)" "passes (rate_limit_resets_after_window now)"
proof -
  obtain rl where rl: "checks now budget (rate_limit_new now) = rl"
    "checks_ok now budget (rate_limit_new now) = Some rl"
    "window_start rl = now" "remaining rl = 0" "consecutive_violations rl = 0"
    by (rule spend_all)
  have two: "unat (3 - 1 :: u32) = 2" by simp
  show "passes (rate_limit_allows_within_budget now)" "passes (rate_limit_rejects_over_budget now)"
    "passes (rate_limit_resets_after_window now)"
    using rl by (simp_all add: rate_limit_allows_within_budget_def rate_limit_rejects_over_budget_def
        rate_limit_resets_after_window_def check_empty check_fresh below_threshold Let_def test_simps)
  show "passes (rate_limit_closes_after_threshold now)"
    using rl by (simp add: rate_limit_closes_after_threshold_def RATE_LIMIT_CLOSE_THRESHOLD_def two checks_refused_2
        check_empty below_threshold Let_def test_simps)
qed

lemma limiter_recovers: "passes (rate_limit_violation_count_resets_on_success now)"
proof -
  obtain rl where rl: "checks now budget (rate_limit_new now) = rl"
    "window_start rl = now" "remaining rl = 0" "consecutive_violations rl = 0"
    by (rule spend_all)
  let ?later = "now + 2 * one_second"
  have refused: "checks_refused now 2 rl = Some (rl\<lparr>consecutive_violations := 2\<rparr>)"
    using rl by (simp add: checks_refused_2 check_empty below_threshold test_simps)
  let ?fresh = "rl\<lparr>remaining := 49, window_start := ?later, consecutive_violations := 0\<rparr>"
  have ok: "rate_limit_check ?later (rl\<lparr>consecutive_violations := 2\<rparr>) = (Inr (), ?fresh)"
    using rl check_fresh [of "rl\<lparr>consecutive_violations := 2\<rparr>" now] by simp
  have "budget - 1 = 49" by (simp add: budget_def rate_limit_consts)
  then have "\<exists>rl'. checks ?later (budget - 1) ?fresh = rl' \<and> window_start rl' = ?later \<and>
      remaining rl' = 0 \<and> consecutive_violations rl' = 0"
    using spend [of ?later ?fresh 49] one_second_pos by (auto simp: unat_eq_zero)
  then have "fst (rate_limit_check ?later (checks ?later (budget - 1) ?fresh)) = Inl False"
    by (auto simp: check_empty below_threshold)
  with rl(1) refused ok show ?thesis
    by (simp add: rate_limit_violation_count_resets_on_success_def Let_def test_simps)
qed

section \<open>Properties\<close>

text \<open>The tests of this file, and that they all pass.\<close>

definition server_tests :: "nat \<Rightarrow> unit option list" where
  "server_tests now =
    [message_size_within_limit, message_size_exceeds_limit, message_size_boundary,
     device_name_within_limit, device_name_exceeds_limit, device_name_empty_is_ok,
     signal_target_valid, signal_target_hyphens_stripped, signal_target_empty, signal_target_only_hyphens,
     signal_target_too_long, signal_target_non_alphanumeric, peer_code_valid, peer_code_hyphens_stripped,
     peer_code_empty, peer_code_only_hyphens, peer_code_too_long, peer_code_too_long_after_strip,
     peer_code_non_alphanumeric, peer_code_error_prefix, rate_limit_allows_within_budget now,
     rate_limit_rejects_over_budget now, rate_limit_closes_after_threshold now,
     rate_limit_resets_after_window now, rate_limit_violation_count_resets_on_success now,
     xff_ignored_when_proxy_not_trusted, xff_honored_when_proxy_trusted,
     xff_falls_back_to_socket_when_trusted_but_no_header, xff_empty_trusted_list_always_ignores_header,
     trust_boundary_constants, ws_config_sets_message_limits, idle_timeout_constant_is_reasonable,
     limit_zero_rejects_all, limit_one_allows_first_rejects_second, disconnect_releases_slot,
     default_limit_nonzero]"

lemma server_tests_pass: "list_all passes (server_tests now)"
  unfolding server_tests_def
  using size_tests target_tests code_tests limiter_tests limiter_recovers header_tests
    constant_tests slot_tests by simp

text \<open>
  The tests of the forwarding headers pass, but not for the server. The test that an empty
  list of trusted proxies makes the header always ignored passes because it repeats the choice
  without the branch for private addresses: from the very socket address it uses, the server
  does take the forwarded address, here a well-formed one, as the client's.
\<close>

lemma header_test_differs:
  "passes xff_empty_trusted_list_always_ignores_header \<and>
   extracted_raw_ip [] (V4 127 0 0 1) (Some ''8.8.8.8'') = ''127.0.0.1'' \<and>
   client_room [] (V4 127 0 0 1) NoHeader (HeaderText ''8.8.8.8'') = ''8.8.8.8''"
proof -
  have privacy: "is_private_ip ''127.0.0.1''" "\<not> is_private_ip ''8.8.8.8''" by code_simp+
  note forwarded = forwarded_text [of 8 8 8 8, unfolded address_texts]
  from forwarded privacy header_tests(4) show ?thesis
    unfolding extracted_texts client_room_def raw_client_ip_def address_texts by simp
qed

end
