(* ===== verification/Wire.thy ===== *)
theory Wire
  imports Protocol "HOL-Library.Monad_Syntax"
begin

text \<open>
  The JSON form of the messages, as the \<open>serde\<close> attributes of \<open>signal/protocol/src/lib.rs\<close>
  prescribe it: an object tagged by \<open>type\<close> with snake-case names, device types in lower case,
  absent optional fields left out. A JSON object is the list of its members in textual order,
  so repeated members can be told apart; numbers are kept as text. A payload is a
  \<open>serde_json::Value\<close>; writing and reading one are parameters.
\<close>

datatype json =
    JNull
  | JBool bool
  | JNumber string
  | JString string
  | JArray "json list"
  | JObject "(string \<times> json) list"

section \<open>Writing\<close>

fun device_type_name :: "device_type \<Rightarrow> string" where
  "device_type_name Phone = ''phone''"
| "device_type_name Tablet = ''tablet''"
| "device_type_name Laptop = ''laptop''"
| "device_type_name Desktop = ''desktop''"

definition optional_field :: "string \<Rightarrow> string option \<Rightarrow> (string \<times> json) list" where
  "optional_field k x = (case x of None \<Rightarrow> [] | Some s \<Rightarrow> [(k, JString s)])"

definition peer_fields ::
    "string \<Rightarrow> string \<Rightarrow> device_type \<Rightarrow> string option \<Rightarrow> string option \<Rightarrow> (string \<times> json) list" where
  "peer_fields code name dt url hash =
     [(''peer_code'', JString code), (''device_name'', JString name),
      (''device_type'', JString (device_type_name dt))] @
     optional_field ''wt_url'' url @ optional_field ''wt_cert_hash'' hash"

definition peer_data_json :: "peer_data \<Rightarrow> json" where
  "peer_data_json d = JObject (peer_fields (pd_peer_code d) (pd_device_name d) (pd_device_type d)
     (pd_wt_url d) (pd_wt_cert_hash d))"

definition tagged :: "string \<Rightarrow> (string \<times> json) list \<Rightarrow> json" where
  "tagged tag fs = JObject ((''type'', JString tag) # fs)"

fun client_message_json :: "('v \<Rightarrow> json) \<Rightarrow> 'v client_message \<Rightarrow> json" where
  "client_message_json enc (Register code name dt url hash) =
     tagged ''register'' (peer_fields code name dt url hash)"
| "client_message_json enc (Signal to payload) =
     tagged ''signal'' [(''to'', JString to), (''payload'', enc payload)]"
| "client_message_json enc (ManualSignal to payload) =
     tagged ''manual_signal'' [(''to'', JString to), (''payload'', enc payload)]"
| "client_message_json enc Ping = tagged ''ping'' []"

fun server_message_json :: "('v \<Rightarrow> json) \<Rightarrow> 'v server_message \<Rightarrow> json" where
  "server_message_json enc (Peers ps) = tagged ''peers'' [(''peers'', JArray (map peer_data_json ps))]"
| "server_message_json enc (PeerJoined p) = tagged ''peer_joined'' [(''peer'', peer_data_json p)]"
| "server_message_json enc (PeerLeft code) = tagged ''peer_left'' [(''peer_code'', JString code)]"
| "server_message_json enc (ServerSignal from payload) =
     tagged ''signal'' [(''from'', JString from), (''payload'', enc payload)]"
| "server_message_json enc (ServerError message) = tagged ''error'' [(''message'', JString message)]"

section \<open>Reading\<close>

text \<open>
  The derived readers on objects: members of other names are ignored, a repeated member of a
  known name is an error, a missing member is an error unless it has a default, and a null is
  an absent optional string. \<^const>\<open>None\<close> stands for every other text: errors, and the
  encodings by position that \<open>serde\<close> tolerates besides the documented objects.
\<close>

definition member_of :: "string \<Rightarrow> (string \<times> json) list \<Rightarrow> json list" where
  "member_of k fs = map snd (filter (\<lambda>f. fst f = k) fs)"

definition required :: "string \<Rightarrow> (json \<Rightarrow> 'a option) \<Rightarrow> (string \<times> json) list \<Rightarrow> 'a option" where
  "required k rd fs = (case member_of k fs of [v] \<Rightarrow> rd v | _ \<Rightarrow> None)"

fun read_string :: "json \<Rightarrow> string option" where
  "read_string (JString s) = Some s"
| "read_string _ = None"

fun read_option :: "json \<Rightarrow> string option option" where
  "read_option JNull = Some None"
| "read_option (JString s) = Some (Some s)"
| "read_option _ = None"

definition optional_string :: "string \<Rightarrow> (string \<times> json) list \<Rightarrow> string option option" where
  "optional_string k fs = (case member_of k fs of [] \<Rightarrow> Some None | [v] \<Rightarrow> read_option v | _ \<Rightarrow> None)"

definition read_device_type :: "json \<Rightarrow> device_type option" where
  "read_device_type j =
     do { s \<leftarrow> read_string j; List.find (\<lambda>dt. device_type_name dt = s) [Phone, Tablet, Laptop, Desktop] }"

definition read_peer_fields ::
    "(string \<times> json) list \<Rightarrow>
     (string \<times> string \<times> device_type \<times> string option \<times> string option) option" where
  "read_peer_fields fs =
     do { code \<leftarrow> required ''peer_code'' read_string fs;
          name \<leftarrow> required ''device_name'' read_string fs;
          dt \<leftarrow> required ''device_type'' read_device_type fs;
          url \<leftarrow> optional_string ''wt_url'' fs;
          hash \<leftarrow> optional_string ''wt_cert_hash'' fs;
          Some (code, name, dt, url, hash) }"

fun read_object :: "json \<Rightarrow> (string \<times> json) list option" where
  "read_object (JObject fs) = Some fs"
| "read_object _ = None"

definition read_peer_data :: "json \<Rightarrow> peer_data option" where
  "read_peer_data j =
     do { fs \<leftarrow> read_object j;
          (code, name, dt, url, hash) \<leftarrow> read_peer_fields fs;
          Some \<lparr>pd_peer_code = code, pd_device_name = name, pd_device_type = dt,
                pd_wt_url = url, pd_wt_cert_hash = hash\<rparr> }"

fun read_all :: "('a \<Rightarrow> 'b option) \<Rightarrow> 'a list \<Rightarrow> 'b list option" where
  "read_all rd [] = Some []"
| "read_all rd (x # xs) = do { y \<leftarrow> rd x; ys \<leftarrow> read_all rd xs; Some (y # ys) }"

fun read_array :: "(json \<Rightarrow> 'a option) \<Rightarrow> json \<Rightarrow> 'a list option" where
  "read_array rd (JArray js) = read_all rd js"
| "read_array rd _ = None"

definition read_relay ::
    "string \<Rightarrow> (json \<Rightarrow> 'v option) \<Rightarrow> (string \<Rightarrow> 'v \<Rightarrow> 'm) \<Rightarrow> (string \<times> json) list \<Rightarrow> 'm option" where
  "read_relay k dec con fs =
     do { peer \<leftarrow> required k read_string fs; payload \<leftarrow> required ''payload'' dec fs; Some (con peer payload) }"

definition read_client_message :: "(json \<Rightarrow> 'v option) \<Rightarrow> json \<Rightarrow> 'v client_message option" where
  "read_client_message dec j =
     do { fs \<leftarrow> read_object j;
          tag \<leftarrow> required ''type'' read_string fs;
          if tag = ''register'' then
            do { (code, name, dt, url, hash) \<leftarrow> read_peer_fields fs; Some (Register code name dt url hash) }
          else if tag = ''signal'' then read_relay ''to'' dec Signal fs
          else if tag = ''manual_signal'' then read_relay ''to'' dec ManualSignal fs
          else if tag = ''ping'' then Some Ping
          else None }"

definition read_server_message :: "(json \<Rightarrow> 'v option) \<Rightarrow> json \<Rightarrow> 'v server_message option" where
  "read_server_message dec j =
     do { fs \<leftarrow> read_object j;
          tag \<leftarrow> required ''type'' read_string fs;
          if tag = ''peers'' then map_option Peers (required ''peers'' (read_array read_peer_data) fs)
          else if tag = ''peer_joined'' then map_option PeerJoined (required ''peer'' read_peer_data fs)
          else if tag = ''peer_left'' then map_option PeerLeft (required ''peer_code'' read_string fs)
          else if tag = ''signal'' then read_relay ''from'' dec ServerSignal fs
          else if tag = ''error'' then map_option ServerError (required ''message'' read_string fs)
          else None }"

section \<open>Round trips\<close>

lemma member_of_simps [simp]:
  "member_of k [] = []"
  "member_of k ((k', v) # fs) = (if k' = k then v # member_of k fs else member_of k fs)"
  "member_of k (fs @ gs) = member_of k fs @ member_of k gs"
  "member_of k (optional_field k' x) =
     (if k' = k then (case x of None \<Rightarrow> [] | Some s \<Rightarrow> [JString s]) else [])"
  by (auto simp: member_of_def optional_field_def split: option.split)

lemma read_device_type_name [simp]: "read_device_type (JString (device_type_name dt)) = Some dt"
  by (cases dt) (simp_all add: read_device_type_def)

lemma read_peer_fields_written [simp]:
  "read_peer_fields (peer_fields code name dt url hash) = Some (code, name, dt, url, hash)"
  "read_peer_fields ((''type'', v) # peer_fields code name dt url hash) = Some (code, name, dt, url, hash)"
  by (auto simp: read_peer_fields_def peer_fields_def required_def optional_string_def split: option.split)

lemma no_type_field [simp]: "member_of ''type'' (peer_fields code name dt url hash) = []"
  by (simp add: peer_fields_def)

lemma read_peer_data_written [simp]: "read_peer_data (peer_data_json d) = Some d"
  by (simp add: read_peer_data_def peer_data_json_def)

lemma read_all_map [simp]: "(\<And>x. rd (f x) = Some x) \<Longrightarrow> read_all rd (map f xs) = Some xs"
  by (induction xs) simp_all



end
