(* ===== verification/Wire_Tests.thy ===== *)
theory Wire_Tests
  imports Wire Test_Kit
begin

text \<open>
  The wire compatibility tests of \<open>signal/protocol/src/lib.rs\<close> and the reading tests of
  \<open>signal/src/protocol.rs\<close>, run on the model of the messages' JSON form. Payloads are JSON
  values themselves; a JSON text in a test stands for the value it denotes, with its members in
  their order. The test \<open>wire_client_register\<close> has no counterpart: it builds a \<open>Register\<close> without
  two of its fields, which is no message.
\<close>

type_synonym wire_client = "json client_message"
type_synonym wire_server = "json server_message"

definition offer :: json where
  "offer = JObject [(''sdp'', JString ''offer-data'')]"

text \<open>\<open>assert_wire_eq\<close> compares \<open>serde_json::to_value\<close> of a message with the expected object.\<close>

definition assert_client_wire :: "wire_client \<Rightarrow> json \<Rightarrow> unit option" where
  "assert_client_wire msg expected = assert_that (client_message_json (\<lambda>v. v) msg = expected)"

definition assert_server_wire :: "wire_server \<Rightarrow> json \<Rightarrow> unit option" where
  "assert_server_wire msg expected = assert_that (server_message_json (\<lambda>v. v) msg = expected)"

definition client_from :: "json \<Rightarrow> wire_client option" where
  "client_from = read_client_message Some"

definition server_from :: "json \<Rightarrow> wire_server option" where
  "server_from = read_server_message Some"

fun get :: "json \<Rightarrow> string \<Rightarrow> json option" where
  "get (JObject fs) k = map_of fs k"
| "get _ k = None"

section \<open>Writing\<close>

definition wire_client_signal :: "unit option" where
  "wire_client_signal =
     assert_client_wire (Signal ''XYZ789'' offer)
       (JObject [(''type'', JString ''signal''), (''to'', JString ''XYZ789''),
                 (''payload'', JObject [(''sdp'', JString ''offer-data'')])])"

definition wire_client_manual_signal :: "unit option" where
  "wire_client_manual_signal =
     assert_client_wire (ManualSignal ''XYZ789'' offer)
       (JObject [(''type'', JString ''manual_signal''), (''to'', JString ''XYZ789''),
                 (''payload'', JObject [(''sdp'', JString ''offer-data'')])])"

definition wire_client_ping :: "unit option" where
  "wire_client_ping = assert_client_wire Ping (JObject [(''type'', JString ''ping'')])"

definition wire_server_peers :: "unit option" where
  "wire_server_peers =
     assert_server_wire
       (Peers [\<lparr>pd_peer_code = ''ABC123'', pd_device_name = ''MacBook'', pd_device_type = Laptop,
                pd_wt_url = None, pd_wt_cert_hash = None\<rparr>])
       (JObject [(''type'', JString ''peers''),
                 (''peers'', JArray [JObject [(''peer_code'', JString ''ABC123''),
                                             (''device_name'', JString ''MacBook''),
                                             (''device_type'', JString ''laptop'')]])])"

definition wire_server_peer_joined :: "unit option" where
  "wire_server_peer_joined =
     assert_server_wire
       (PeerJoined \<lparr>pd_peer_code = ''DEF456'', pd_device_name = ''iPad'', pd_device_type = Tablet,
                    pd_wt_url = None, pd_wt_cert_hash = None\<rparr>)
       (JObject [(''type'', JString ''peer_joined''),
                 (''peer'', JObject [(''peer_code'', JString ''DEF456''),
                                    (''device_name'', JString ''iPad''),
                                    (''device_type'', JString ''tablet'')])])"

definition wire_server_peer_left :: "unit option" where
  "wire_server_peer_left =
     assert_server_wire (PeerLeft ''ABC123'')
       (JObject [(''type'', JString ''peer_left''), (''peer_code'', JString ''ABC123'')])"

definition wire_server_signal :: "unit option" where
  "wire_server_signal =
     assert_server_wire (ServerSignal ''ABC123'' offer)
       (JObject [(''type'', JString ''signal''), (''from'', JString ''ABC123''),
                 (''payload'', JObject [(''sdp'', JString ''offer-data'')])])"

definition wire_server_error :: "unit option" where
  "wire_server_error =
     assert_server_wire (ServerError ''bad request'')
       (JObject [(''type'', JString ''error''), (''message'', JString ''bad request'')])"

section \<open>Reading\<close>

definition register_text :: json where
  "register_text =
     JObject [(''type'', JString ''register''), (''peer_code'', JString ''ABC123''),
              (''device_name'', JString ''iPhone 15''), (''device_type'', JString ''phone'')]"

definition relay_text :: "string \<Rightarrow> json" where
  "relay_text tag =
     JObject [(''type'', JString tag), (''to'', JString ''XYZ789''),
              (''payload'', JObject [(''sdp'', JString ''...'')])]"

definition deserialize_client_register :: "unit option" where
  "deserialize_client_register =
     do { msg \<leftarrow> client_from register_text;
          case msg of
            Register code name dt _ _ \<Rightarrow>
              do { assert_that (code = ''ABC123'');
                   assert_that (name = ''iPhone 15'');
                   assert_that (dt = Phone) }
          | _ \<Rightarrow> None }"

definition deserialize_client_signal :: "unit option" where
  "deserialize_client_signal =
     do { msg \<leftarrow> client_from (relay_text ''signal'');
          case msg of
            Signal to payload \<Rightarrow>
              do { assert_that (to = ''XYZ789''); assert_that (get payload ''sdp'' \<noteq> None) }
          | _ \<Rightarrow> None }"

definition deserialize_client_manual_signal :: "unit option" where
  "deserialize_client_manual_signal =
     do { msg \<leftarrow> client_from (relay_text ''manual_signal'');
          case msg of
            ManualSignal to payload \<Rightarrow>
              do { assert_that (to = ''XYZ789''); assert_that (get payload ''sdp'' \<noteq> None) }
          | _ \<Rightarrow> None }"

definition deserialize_server_peers :: "unit option" where
  "deserialize_server_peers =
     do { msg \<leftarrow> server_from
            (JObject [(''type'', JString ''peers''),
                      (''peers'', JArray [JObject [(''peer_code'', JString ''ABC123''),
                                                  (''device_name'', JString ''test''),
                                                  (''device_type'', JString ''desktop'')]])]);
          case msg of
            Peers ps \<Rightarrow>
              do { assert_that (length ps = 1); assert_that (pd_peer_code (ps ! 0) = ''ABC123'') }
          | _ \<Rightarrow> None }"

definition deserialize_server_signal :: "unit option" where
  "deserialize_server_signal =
     do { msg \<leftarrow> server_from
            (JObject [(''type'', JString ''signal''), (''from'', JString ''alice''),
                      (''payload'', JObject [(''sdp'', JString ''offer-data'')])]);
          case msg of
            ServerSignal from payload \<Rightarrow>
              do { assert_that (from = ''alice''); assert_that (payload = offer) }
          | _ \<Rightarrow> None }"

definition deserialize_server_error :: "unit option" where
  "deserialize_server_error =
     do { msg \<leftarrow> server_from
            (JObject [(''type'', JString ''error''), (''message'', JString ''peer not found'')]);
          case msg of
            ServerError message \<Rightarrow> assert_that (message = ''peer not found'')
          | _ \<Rightarrow> None }"

definition device_type_roundtrip :: "unit option" where
  "device_type_roundtrip =
     assert_that (list_all (\<lambda>(variant, expected).
         device_type_name variant = expected \<and> read_device_type (JString expected) = Some variant)
       [(Phone, ''phone''), (Tablet, ''tablet''), (Laptop, ''laptop''), (Desktop, ''desktop'')])"

text \<open>The tests of \<open>signal/src/protocol.rs\<close>, which re-exports the types.\<close>

definition deserialize_register :: "unit option" where
  "deserialize_register =
     do { msg \<leftarrow> client_from register_text;
          case msg of
            Register code name dt _ _ \<Rightarrow>
              do { assert_that (code = ''ABC123'');
                   assert_that (name = ''iPhone 15'');
                   assert_that (dt = Phone) }
          | _ \<Rightarrow> None }"

definition deserialize_signal :: "unit option" where
  "deserialize_signal =
     do { msg \<leftarrow> client_from (relay_text ''signal'');
          case msg of
            Signal to payload \<Rightarrow>
              do { assert_that (to = ''XYZ789''); assert_that (get payload ''sdp'' \<noteq> None) }
          | _ \<Rightarrow> None }"

definition deserialize_manual_signal :: "unit option" where
  "deserialize_manual_signal =
     do { msg \<leftarrow> client_from (relay_text ''manual_signal'');
          case msg of
            ManualSignal to payload \<Rightarrow>
              do { assert_that (to = ''XYZ789''); assert_that (get payload ''sdp'' \<noteq> None) }
          | _ \<Rightarrow> None }"

section \<open>Properties\<close>

text \<open>The tests of this file, and that they all pass.\<close>

definition wire_tests :: "unit option list" where
  "wire_tests =
    [wire_client_signal, wire_client_manual_signal, wire_client_ping, wire_server_peers,
     wire_server_peer_joined, wire_server_peer_left, wire_server_signal, wire_server_error,
     deserialize_client_register, deserialize_client_signal, deserialize_client_manual_signal,
     deserialize_server_peers, deserialize_server_signal, deserialize_server_error,
     device_type_roundtrip, deserialize_register, deserialize_signal, deserialize_manual_signal]"

lemma wire_tests_pass: "list_all passes wire_tests"
  unfolding wire_tests_def
  by code_simp

end
