(* ===== verification/Signaling_Client.thy ===== *)
theory Signaling_Client
  imports Ffi
begin

text \<open>
  The discovery client of the bridge, \<open>native/shared/src/signaling.rs\<close>: what its event
  callback does to the shared lists, and the functions through which the shell reads them. The
  events come from \<open>bolt_app_core::signaling_client\<close>; their constructors are the ones the
  callback matches on, and a peer has the fields it uses. JSON text is a parameter, as is the
  type \<open>'j\<close> of JSON values.
\<close>

section \<open>State and events\<close>

datatype plane = Local | Cloud

record client_peer =
  cp_peer_code :: string
  cp_device_name :: string
  cp_device_type :: string
  cp_wt_url :: "string option"
  cp_wt_cert_hash :: "string option"

datatype 'j discovery_event =
    PeerList "client_peer list" plane
  | DPeerJoined client_peer plane
  | DPeerLeft string plane
  | DConnected plane
  | DDisconnected string plane
  | DSignal string string 'j plane
  | DError string

datatype signaling_event =
    EvPeerJoined client_peer plane
  | EvPeerLeft string plane
  | EvConnected plane
  | EvDisconnected string plane

record bolt_signaling =
  own_code :: string
  events :: "signaling_event list"
  peers :: "client_peer list"
  connected :: bool
  incoming_signals :: "string list"

definition signaling_new :: "string \<Rightarrow> bolt_signaling" where
  "signaling_new code =
     \<lparr>own_code = code, events = [], peers = [], connected = False, incoming_signals = []\<rparr>"

text \<open>
  The configuration \<open>bolt_signaling_start\<close> passes to the client library, with the null
  pointers read as absent.
\<close>

record signaling_config =
  server_url :: string
  cloud_url :: "string option"
  cfg_peer_code :: string
  cfg_device_name :: string
  cfg_device_type :: string
  cfg_wt_url :: "string option"
  cfg_wt_cert_hash :: "string option"

definition optional_arg :: "string option \<Rightarrow> string option" where
  "optional_arg ptr = (case ptr of None \<Rightarrow> None | Some _ \<Rightarrow> Some (cstr_to_string ptr))"

definition bolt_signaling_start ::
    "string option \<Rightarrow> string option \<Rightarrow> string option \<Rightarrow> string option \<Rightarrow> string option \<Rightarrow>
     string option \<Rightarrow> signaling_config \<times> bolt_signaling" where
  "bolt_signaling_start local_arg cloud_arg code_arg name_arg wt_url_arg wt_hash_arg =
     (\<lparr>server_url = cstr_to_string local_arg, cloud_url = optional_arg cloud_arg,
       cfg_peer_code = cstr_to_string code_arg, cfg_device_name = cstr_to_string name_arg,
       cfg_device_type = ''desktop'', cfg_wt_url = optional_arg wt_url_arg,
       cfg_wt_cert_hash = optional_arg wt_hash_arg\<rparr>,
      signaling_new (cstr_to_string code_arg))"

section \<open>The callback\<close>

definition add_unless_known :: "client_peer \<Rightarrow> client_peer list \<Rightarrow> client_peer list" where
  "add_unless_known peer ps =
     (if list_ex (\<lambda>existing. cp_peer_code existing = cp_peer_code peer) ps then ps else ps @ [peer])"

definition merge_peer :: "string \<Rightarrow> client_peer \<Rightarrow> client_peer list \<Rightarrow> client_peer list" where
  "merge_peer self peer ps = (if cp_peer_code peer \<noteq> self then add_unless_known peer ps else ps)"

definition on_event ::
    "(string \<Rightarrow> string \<Rightarrow> 'j \<Rightarrow> string option) \<Rightarrow> 'j discovery_event \<Rightarrow> bolt_signaling \<Rightarrow> bolt_signaling" where
  "on_event signal_json ev s =
     (case ev of
        PeerList ps _ \<Rightarrow> s\<lparr>peers := fold (merge_peer (own_code s)) ps (peers s)\<rparr>
      | DPeerJoined peer plane \<Rightarrow>
          if cp_peer_code peer \<noteq> own_code s then
            s\<lparr>peers := add_unless_known peer (peers s), events := events s @ [EvPeerJoined peer plane]\<rparr>
          else s
      | DPeerLeft code plane \<Rightarrow>
          s\<lparr>peers := filter (\<lambda>peer. cp_peer_code peer \<noteq> code) (peers s),
            events := events s @ [EvPeerLeft code plane]\<rparr>
      | DConnected plane \<Rightarrow> s\<lparr>connected := True, events := events s @ [EvConnected plane]\<rparr>
      | DDisconnected reason plane \<Rightarrow> s\<lparr>events := events s @ [EvDisconnected reason plane]\<rparr>
      | DSignal from signal_type data _ \<Rightarrow>
          (case signal_json from signal_type data of
             None \<Rightarrow> s
           | Some json \<Rightarrow> s\<lparr>incoming_signals := incoming_signals s @ [json]\<rparr>)
      | DError _ \<Rightarrow> s)"

definition on_events ::
    "(string \<Rightarrow> string \<Rightarrow> 'j \<Rightarrow> string option) \<Rightarrow> 'j discovery_event list \<Rightarrow> bolt_signaling \<Rightarrow> bolt_signaling" where
  "on_events signal_json evs s = fold (on_event signal_json) evs s"

section \<open>What the shell reads\<close>

definition bolt_signaling_peer_count :: "bolt_signaling option \<Rightarrow> u32" where
  "bolt_signaling_peer_count handle =
     (case handle of None \<Rightarrow> 0 | Some s \<Rightarrow> of_nat (length (peers s)))"

record bolt_peer =
  bp_peer_code :: "string option"
  bp_device_name :: "string option"
  bp_device_type :: "string option"
  bp_wt_url :: "string option"
  bp_wt_cert_hash :: "string option"

definition to_bolt_peer :: "client_peer \<Rightarrow> bolt_peer" where
  "to_bolt_peer p =
     \<lparr>bp_peer_code = cstring_new (cp_peer_code p), bp_device_name = cstring_new (cp_device_name p),
      bp_device_type = cstring_new (cp_device_type p),
      bp_wt_url = Option.bind (cp_wt_url p) cstring_new,
      bp_wt_cert_hash = Option.bind (cp_wt_cert_hash p) cstring_new\<rparr>"

definition bolt_signaling_get_peer :: "bolt_signaling option \<Rightarrow> u32 \<Rightarrow> bolt_peer option" where
  "bolt_signaling_get_peer handle index =
     (case handle of
        None \<Rightarrow> None
      | Some s \<Rightarrow>
          (let i = unat index
           in if i \<ge> length (peers s) then None else Some (to_bolt_peer (peers s ! i))))"

definition bolt_signaling_is_connected :: "bolt_signaling option \<Rightarrow> int" where
  "bolt_signaling_is_connected handle =
     (case handle of None \<Rightarrow> 0 | Some s \<Rightarrow> if connected s then 1 else 0)"

definition bolt_signaling_drain_events :: "bolt_signaling option \<Rightarrow> u32 \<times> bolt_signaling option" where
  "bolt_signaling_drain_events handle =
     (case handle of
        None \<Rightarrow> (0, None)
      | Some s \<Rightarrow> (of_nat (length (events s)), Some (s\<lparr>events := []\<rparr>)))"

definition bolt_signaling_drain_signals ::
    "bolt_signaling option \<Rightarrow> string option \<times> bolt_signaling option" where
  "bolt_signaling_drain_signals handle =
     (case handle of
        None \<Rightarrow> (None, None)
      | Some s \<Rightarrow>
          if incoming_signals s = [] then (None, Some s)
          else (cstring_new (join_lines (incoming_signals s)), Some (s\<lparr>incoming_signals := []\<rparr>)))"

text \<open>Stopping frees the handle; the result says whether a client was shut down.\<close>

definition bolt_signaling_stop :: "bolt_signaling option \<Rightarrow> bool" where
  "bolt_signaling_stop handle = (case handle of None \<Rightarrow> False | Some _ \<Rightarrow> True)"

text \<open>
  Sending: the result and the call made to the client library (target, type, data, sender).
  Data that is null or not JSON becomes the empty object.
\<close>

definition bolt_signaling_send_signal ::
    "'j \<Rightarrow> (string \<Rightarrow> 'j option) \<Rightarrow> bolt_signaling option \<Rightarrow> string option \<Rightarrow> string option \<Rightarrow>
     string option \<Rightarrow> int \<times> (string \<times> string \<times> 'j \<times> string) option" where
  "bolt_signaling_send_signal empty_object from_str handle to_arg type_arg data_arg =
     (case handle of
        None \<Rightarrow> (0, None)
      | Some s \<Rightarrow>
          if to_arg = None \<or> type_arg = None then (0, None)
          else
            (let data = (if data_arg = None then empty_object
                         else (case from_str (cstr_to_string data_arg) of
                                 None \<Rightarrow> empty_object | Some v \<Rightarrow> v))
             in (1, Some (cstr_to_string to_arg, cstr_to_string type_arg, data, own_code s))))"

section \<open>Lemmas\<close>

definition client_inv :: "bolt_signaling \<Rightarrow> bool" where
  "client_inv s \<longleftrightarrow> distinct (map cp_peer_code (peers s)) \<and> own_code s \<notin> cp_peer_code ` set (peers s)"

lemma add_unless_known_codes:
  "cp_peer_code ` set (add_unless_known p ps) = insert (cp_peer_code p) (cp_peer_code ` set ps)"
  by (auto simp: add_unless_known_def list_ex_iff) (metis image_eqI)

lemma add_unless_known_distinct:
  "distinct (map cp_peer_code ps) \<Longrightarrow> distinct (map cp_peer_code (add_unless_known p ps))"
  by (auto simp: add_unless_known_def list_ex_iff)

lemma merge_distinct:
  "distinct (map cp_peer_code ps) \<Longrightarrow> distinct (map cp_peer_code (fold (merge_peer self) qs ps))"
  by (induction qs arbitrary: ps) (simp_all add: merge_peer_def add_unless_known_distinct)

lemma merge_codes:
  "cp_peer_code ` set (fold (merge_peer self) qs ps) =
     cp_peer_code ` set ps \<union> (cp_peer_code ` set qs - {self})"
  by (induction qs arbitrary: ps) (auto simp: merge_peer_def add_unless_known_codes)

lemma on_event_own_code [simp]: "own_code (on_event f ev s) = own_code s"
  by (simp add: on_event_def split: discovery_event.splits option.splits)

lemma on_events_simps [simp]:
  "on_events f [] s = s"
  "on_events f (ev # evs) s = on_events f evs (on_event f ev s)"
  by (simp_all add: on_events_def)

lemma on_event_inv: "client_inv s \<Longrightarrow> client_inv (on_event f ev s)"
  unfolding client_inv_def on_event_own_code
  by (auto simp: on_event_def merge_codes merge_distinct add_unless_known_codes
      add_unless_known_distinct distinct_map_filter split: discovery_event.splits option.splits)

lemma on_events_inv: "client_inv s \<Longrightarrow> client_inv (on_events f evs s)"
  by (induction evs arbitrary: s) (simp_all add: on_event_inv)

lemma signaling_new_inv: "client_inv (signaling_new code)"
  by (simp add: client_inv_def signaling_new_def)

text \<open>Which codes the list shows: those seen since they last left, on whichever plane.\<close>

fun visible :: "string \<Rightarrow> 'j discovery_event list \<Rightarrow> string set \<Rightarrow> string set" where
  "visible self [] cs = cs"
| "visible self (ev # evs) cs =
     visible self evs
       (case ev of
          PeerList ps _ \<Rightarrow> cs \<union> (cp_peer_code ` set ps - {self})
        | DPeerJoined p _ \<Rightarrow> cs \<union> ({cp_peer_code p} - {self})
        | DPeerLeft code _ \<Rightarrow> cs - {code}
        | _ \<Rightarrow> cs)"

lemma on_event_codes:
  "cp_peer_code ` set (peers (on_event f ev s)) = visible (own_code s) [ev] (cp_peer_code ` set (peers s))"
  by (auto simp: on_event_def merge_codes add_unless_known_codes split: discovery_event.splits option.splits)

lemma on_events_codes:
  "cp_peer_code ` set (peers (on_events f evs s)) = visible (own_code s) evs (cp_peer_code ` set (peers s))"
  by (induction evs arbitrary: s) (simp_all add: on_event_codes)

text \<open>The signals an event sequence queues.\<close>

definition queued_signals ::
    "(string \<Rightarrow> string \<Rightarrow> 'j \<Rightarrow> string option) \<Rightarrow> 'j discovery_event list \<Rightarrow> string list" where
  "queued_signals signal_json evs =
     List.map_filter (\<lambda>ev. case ev of DSignal from ty data _ \<Rightarrow> signal_json from ty data | _ \<Rightarrow> None) evs"

lemma on_events_signals:
  "incoming_signals (on_events f evs s) = incoming_signals s @ queued_signals f evs"
proof (induction evs arbitrary: s)
  case Nil
  then show ?case by (simp add: queued_signals_def map_filter_simps)
next
  case (Cons ev evs)
  have "incoming_signals (on_event f ev s) = incoming_signals s @ queued_signals f [ev]"
    by (auto simp: on_event_def queued_signals_def map_filter_simps split: discovery_event.splits option.splits)
  moreover have "queued_signals f (ev # evs) = queued_signals f [ev] @ queued_signals f evs"
    by (simp add: queued_signals_def map_filter_simps split: option.splits)
  ultimately show ?case using Cons by simp
qed

lemma on_events_connected:
  "connected (on_events f evs s) \<longleftrightarrow> connected s \<or> list_ex (\<lambda>ev. case ev of DConnected _ \<Rightarrow> True | _ \<Rightarrow> False) evs"
  by (induction evs arbitrary: s) (auto simp: on_event_def split: discovery_event.splits option.splits)

section \<open>Properties\<close>

text \<open>
  The peer list. After any events since the start, the list shows each code once, never
  the device's own, and exactly the codes announced since they last left on any plane; the
  shell gets a peer for every index below the count it is told and null from there on.
\<close>

lemma peer_list_correct:
  assumes "s = on_events signal_json evs (signaling_new code)" "length (peers s) < 2 ^ 32"
  shows "distinct (map cp_peer_code (peers s)) \<and> code \<notin> cp_peer_code ` set (peers s) \<and>
    cp_peer_code ` set (peers s) = visible code evs {} \<and>
    (bolt_signaling_get_peer (Some s) i \<noteq> None \<longleftrightarrow> i < bolt_signaling_peer_count (Some s))"
proof -
  have own: "own_code (on_events signal_json evs t) = own_code t" for t
    by (induction evs arbitrary: t) simp_all
  have inv: "client_inv s" unfolding assms(1) by (intro on_events_inv signaling_new_inv)
  moreover have "own_code s = code" using assms(1) own by (simp add: signaling_new_def)
  moreover have "cp_peer_code ` set (peers s) = visible code evs {}"
    using on_events_codes [of signal_json evs "signaling_new code"] assms(1)
    by (simp add: signaling_new_def)
  moreover have "unat (of_nat (length (peers s)) :: u32) = length (peers s)"
    using assms(2) by (simp add: unat_of_nat)
  ultimately show ?thesis
    by (auto simp: client_inv_def bolt_signaling_get_peer_def bolt_signaling_peer_count_def
        word_less_nat_alt Let_def)
qed

lemma peer_list_correct_witness:
  "cp_peer_code ` set (peers (on_events (\<lambda>_ _ _. None)
     [DPeerJoined \<lparr>cp_peer_code = ''BBB'', cp_device_name = ''B'', cp_device_type = ''phone'',
        cp_wt_url = None, cp_wt_cert_hash = None\<rparr> Local,
      DPeerLeft ''CCC'' Cloud :: nat discovery_event] (signaling_new ''AAA''))) = {''BBB''}"
proof -
  let ?evs = "[DPeerJoined \<lparr>cp_peer_code = ''BBB'', cp_device_name = ''B'', cp_device_type = ''phone'',
        cp_wt_url = None, cp_wt_cert_hash = None\<rparr> Local, DPeerLeft ''CCC'' Cloud :: nat discovery_event]"
  let ?s = "on_events (\<lambda>_ _ _. None) ?evs (signaling_new ''AAA'')"
  have "length (peers ?s) < 2 ^ 32"
    by (simp add: on_event_def signaling_new_def add_unless_known_def)
  from peer_list_correct [OF refl this] show ?thesis by auto
qed

text \<open>
  The connected flag only ever rises. \<open>is_connected\<close> answers 1 exactly when some plane
  has connected since the start; disconnections, even of both planes, never take it back.
\<close>

lemma connected_never_reset:
  "bolt_signaling_is_connected (Some (on_events signal_json evs (signaling_new code))) =
     (if list_ex (\<lambda>ev. case ev of DConnected _ \<Rightarrow> True | _ \<Rightarrow> False) evs then 1 else 0)"
  by (simp add: bolt_signaling_is_connected_def on_events_connected) (simp add: signaling_new_def)

text \<open>
  Incoming signals reach the shell. If the JSON texts contain neither newlines nor NUL
  bytes (the serialiser escapes control characters), draining returns all signals received
  since the last drain, in order, as the lines of one string, and leaves none; with no signal
  it returns null.
\<close>

lemma signals_drained:
  assumes "incoming_signals s0 = []"
    "\<And>from ty data json. signal_json from ty data = Some json \<Longrightarrow> plain_line json"
  shows "case bolt_signaling_drain_signals (Some (on_events signal_json evs s0)) of
      (r, s) \<Rightarrow>
        map_option incoming_signals s = Some [] \<and>
        (case r of
           None \<Rightarrow> queued_signals signal_json evs = []
         | Some line \<Rightarrow> queued_signals signal_json evs = split_on newline line)"
proof -
  let ?q = "queued_signals signal_json evs"
  have q: "incoming_signals (on_events signal_json evs s0) = ?q" using assms(1) by (simp add: on_events_signals)
  have "list_all plain_line ?q"
    using assms(2)
    by (induction evs) (auto simp: queued_signals_def map_filter_simps split: discovery_event.splits option.splits)
  with join_lines_plain [of ?q] q show ?thesis
    by (simp add: bolt_signaling_drain_signals_def)
qed

end
