(* ===== verification/C_Memory.thy ===== *)
theory C_Memory
  imports Signaling_Client "HOL-Library.Multiset"
begin

text \<open>
  The memory that crosses the C interface of \<open>native/shared/src\<close>: strings and peers are handed
  to the shell as raw pointers and come back to be freed. The heap holds the live blocks; a
  pointer that has been freed is never handed out again, so using it twice shows. \<^const>\<open>None\<close>
  is undefined behaviour: freeing what is not a live block of the right kind.
\<close>

section \<open>The heap\<close>

type_synonym ptr = nat

text \<open>The C structure of a peer: five pointers, each null or a string.\<close>

record c_peer =
  c_peer_code :: ptr
  c_device_name :: ptr
  c_device_type :: ptr
  c_wt_url :: ptr
  c_wt_cert_hash :: ptr

datatype block = CStr string | CPeer c_peer

record heap =
  blocks :: "ptr \<Rightarrow> block option"
  next_ptr :: ptr

definition heap_ok :: "heap \<Rightarrow> bool" where
  "heap_ok h \<longleftrightarrow> 0 < next_ptr h \<and> blocks h 0 = None \<and> (\<forall>p \<ge> next_ptr h. blocks h p = None)"

definition heap_new :: heap where
  "heap_new = \<lparr>blocks = Map.empty, next_ptr = 1\<rparr>"

definition into_raw :: "block \<Rightarrow> heap \<Rightarrow> ptr \<times> heap" where
  "into_raw b h = (next_ptr h, \<lparr>blocks = (blocks h)(next_ptr h \<mapsto> b), next_ptr = Suc (next_ptr h)\<rparr>)"

definition release :: "ptr \<Rightarrow> heap \<Rightarrow> heap" where
  "release p h = h\<lparr>blocks := (blocks h)(p := None)\<rparr>"

text \<open>A string or null to a pointer, and a pointer to a string that is being freed.\<close>

definition string_into_raw :: "string option \<Rightarrow> heap \<Rightarrow> ptr \<times> heap" where
  "string_into_raw s h = (case s of None \<Rightarrow> (0, h) | Some t \<Rightarrow> into_raw (CStr t) h)"

definition bolt_free_string :: "ptr \<Rightarrow> heap \<Rightarrow> heap option" where
  "bolt_free_string p h =
     (if p = 0 then Some h
      else case blocks h p of Some (CStr _) \<Rightarrow> Some (release p h) | _ \<Rightarrow> None)"

section \<open>Peers\<close>

text \<open>The allocations of \<open>bolt_signaling_get_peer\<close>, in its order.\<close>

definition alloc_peer :: "bolt_peer \<Rightarrow> heap \<Rightarrow> ptr \<times> heap" where
  "alloc_peer b h =
     (let (url, h1) = string_into_raw (bp_wt_url b) h;
          (hash, h2) = string_into_raw (bp_wt_cert_hash b) h1;
          (code, h3) = string_into_raw (bp_peer_code b) h2;
          (name, h4) = string_into_raw (bp_device_name b) h3;
          (kind, h5) = string_into_raw (bp_device_type b) h4
      in into_raw (CPeer \<lparr>c_peer_code = code, c_device_name = name, c_device_type = kind,
                          c_wt_url = url, c_wt_cert_hash = hash\<rparr>) h5)"

definition get_peer_ptr :: "bolt_signaling option \<Rightarrow> u32 \<Rightarrow> heap \<Rightarrow> ptr \<times> heap" where
  "get_peer_ptr handle index h =
     (case bolt_signaling_get_peer handle index of None \<Rightarrow> (0, h) | Some b \<Rightarrow> alloc_peer b h)"

definition free_fields :: "ptr list \<Rightarrow> heap \<Rightarrow> heap option" where
  "free_fields ps h = fold (\<lambda>p r. Option.bind r (bolt_free_string p)) ps (Some h)"

definition bolt_peer_free :: "ptr \<Rightarrow> heap \<Rightarrow> heap option" where
  "bolt_peer_free p h =
     (if p = 0 then Some h
      else case blocks h p of
             Some (CPeer c) \<Rightarrow>
               map_option (release p)
                 (free_fields [c_peer_code c, c_device_name c, c_device_type c, c_wt_url c, c_wt_cert_hash c] h)
           | _ \<Rightarrow> None)"

text \<open>What the shell reads through a pointer.\<close>

definition string_at :: "heap \<Rightarrow> ptr \<Rightarrow> string option" where
  "string_at h p = (case blocks h p of Some (CStr s) \<Rightarrow> Some s | _ \<Rightarrow> None)"

definition peer_at :: "heap \<Rightarrow> ptr \<Rightarrow> bolt_peer option" where
  "peer_at h p =
     (case blocks h p of
        Some (CPeer c) \<Rightarrow>
          Some \<lparr>bp_peer_code = string_at h (c_peer_code c), bp_device_name = string_at h (c_device_name c),
                bp_device_type = string_at h (c_device_type c), bp_wt_url = string_at h (c_wt_url c),
                bp_wt_cert_hash = string_at h (c_wt_cert_hash c)\<rparr>
      | _ \<Rightarrow> None)"

section \<open>Ownership\<close>

text \<open>
  What an allocation of strings at pointers \<open>ps\<close> guarantees: the pointers that are not null are
  new and different, they hold the strings, and nothing else has changed.
\<close>

definition allocated :: "heap \<Rightarrow> string option list \<Rightarrow> ptr list \<Rightarrow> heap \<Rightarrow> bool" where
  "allocated h ss ps h' \<longleftrightarrow>
     heap_ok h' \<and> next_ptr h \<le> next_ptr h' \<and> distinct (filter (\<lambda>p. p \<noteq> 0) ps) \<and>
     (\<forall>p\<in>set ps. p \<noteq> 0 \<longrightarrow> next_ptr h \<le> p \<and> p < next_ptr h' \<and> (\<exists>s. blocks h' p = Some (CStr s))) \<and>
     list_all2 (\<lambda>s p. string_at h' p = s) ss ps \<and>
     (\<forall>q. q \<notin> set ps - {0} \<longrightarrow> blocks h' q = blocks h q)"

lemma allocated_Nil: "heap_ok h \<Longrightarrow> allocated h [] [] h"
  by (simp add: allocated_def)

lemma string_at_null: "heap_ok h \<Longrightarrow> string_at h 0 = None"
  by (simp add: string_at_def heap_ok_def)

lemma string_at_cong: "blocks h' p = blocks h p \<Longrightarrow> string_at h' p = string_at h p"
  by (simp add: string_at_def)

lemma allocated_snoc:
  assumes "allocated h ss ps h1" "string_into_raw s h1 = (p, h2)"
  shows "allocated h (ss @ [s]) (ps @ [p]) h2"
proof (cases s)
  case None
  with assms(2) have "p = 0" "h2 = h1" by (auto simp: string_into_raw_def)
  with assms(1) None string_at_null [of h1] show ?thesis
    unfolding allocated_def by (auto intro: list_all2_appendI)
next
  case (Some t)
  then have p: "p = next_ptr h1" and h2: "blocks h2 = (blocks h1)(p \<mapsto> CStr t)" "next_ptr h2 = Suc (next_ptr h1)"
    using assms(2) by (auto simp: string_into_raw_def into_raw_def)
  have ok: "heap_ok h1" and fresh: "p \<notin> set ps - {0}" and "p \<noteq> 0"
    using assms(1) unfolding p allocated_def heap_ok_def by auto
  then have new: "p \<notin> set ps" by simp
  have "string_at h2 q = string_at h1 q" if "q \<in> set ps" for q
    using that new by (intro string_at_cong) (auto simp: h2)
  then have "list_all2 (\<lambda>s p. string_at h2 p = s) ss ps"
    using assms(1) unfolding allocated_def
    by (auto elim!: list_all2_mono [rotated] simp: list_all2_conv_all_nth)
  moreover have "string_at h2 p = s" by (simp add: string_at_def h2 Some)
  moreover have "heap_ok h2" using ok by (simp add: heap_ok_def h2 p)
  ultimately show ?thesis
    using assms(1) new \<open>p \<noteq> 0\<close> p h2 unfolding allocated_def
    by (auto intro!: list_all2_appendI simp: less_Suc_eq)
qed

lemma free_fields_release:
  assumes "\<forall>p\<in>set ps. p \<noteq> 0 \<longrightarrow> (\<exists>s. blocks g p = Some (CStr s))" "distinct (filter (\<lambda>p. p \<noteq> 0) ps)"
  shows "\<exists>g'. free_fields ps g = Some g' \<and> blocks g' = blocks g |` (- (set ps - {0}))"
  using assms
proof (induction ps arbitrary: g)
  case Nil
  then show ?case by (simp add: free_fields_def)
next
  case (Cons p ps)
  let ?g = "if p = 0 then g else release p g"
  have "bolt_free_string p g = Some ?g"
    using Cons.prems(1) by (auto simp: bolt_free_string_def)
  then have "free_fields (p # ps) g = free_fields ps ?g" by (simp add: free_fields_def)
  moreover have "\<exists>g'. free_fields ps ?g = Some g' \<and> blocks g' = blocks ?g |` (- (set ps - {0}))"
    using Cons.prems by (intro Cons.IH) (auto simp: release_def split: if_splits)
  moreover have "blocks ?g |` (- (set ps - {0})) = blocks g |` (- (set (p # ps) - {0}))"
    by (auto simp: release_def restrict_map_def fun_eq_iff)
  ultimately show ?case by auto
qed

text \<open>The fields of a peer in the order in which they are allocated.\<close>

abbreviation field_ptrs :: "c_peer \<Rightarrow> ptr list" where
  "field_ptrs c \<equiv> [c_wt_url c, c_wt_cert_hash c, c_peer_code c, c_device_name c, c_device_type c]"

lemma alloc_peer_allocated:
  assumes "heap_ok h" "alloc_peer b h = (p, h')"
  obtains c g where
    "allocated h [bp_wt_url b, bp_wt_cert_hash b, bp_peer_code b, bp_device_name b, bp_device_type b] (field_ptrs c) g"
    "into_raw (CPeer c) g = (p, h')"
proof -
  obtain url h1 where 1: "string_into_raw (bp_wt_url b) h = (url, h1)" by fastforce
  obtain hash h2 where 2: "string_into_raw (bp_wt_cert_hash b) h1 = (hash, h2)" by fastforce
  obtain code h3 where 3: "string_into_raw (bp_peer_code b) h2 = (code, h3)" by fastforce
  obtain name h4 where 4: "string_into_raw (bp_device_name b) h3 = (name, h4)" by fastforce
  obtain kind h5 where 5: "string_into_raw (bp_device_type b) h4 = (kind, h5)" by fastforce
  let ?c = "\<lparr>c_peer_code = code, c_device_name = name, c_device_type = kind, c_wt_url = url, c_wt_cert_hash = hash\<rparr>"
  note a1 = allocated_snoc [OF allocated_Nil [OF assms(1)] 1, simplified]
  note a2 = allocated_snoc [OF a1 2, simplified]
  note a3 = allocated_snoc [OF a2 3, simplified]
  note a4 = allocated_snoc [OF a3 4, simplified]
  note a5 = allocated_snoc [OF a4 5, simplified]
  have "into_raw (CPeer ?c) h5 = (p, h')"
    using assms(2) by (simp add: alloc_peer_def 1 2 3 4 5)
  with a5 show thesis by (intro that [of ?c h5]) simp_all
qed

lemma alloc_peer_effect:
  assumes "heap_ok h" "alloc_peer b h = (p, h')"
  obtains c where
    "p \<noteq> 0" "blocks h p = None" "blocks h' p = Some (CPeer c)" "peer_at h' p = Some b" "heap_ok h'"
    "\<forall>q\<in>set (field_ptrs c) - {0}. blocks h q = None \<and> (\<exists>s. blocks h' q = Some (CStr s))"
    "distinct (filter (\<lambda>q. q \<noteq> 0) (field_ptrs c))"
    "\<forall>q. q \<notin> insert p (set (field_ptrs c) - {0}) \<longrightarrow> blocks h' q = blocks h q"
proof -
  obtain c g where
    al: "allocated h [bp_wt_url b, bp_wt_cert_hash b, bp_peer_code b, bp_device_name b, bp_device_type b] (field_ptrs c) g"
    and ir: "into_raw (CPeer c) g = (p, h')"
    using alloc_peer_allocated [OF assms] .
  have p: "p = next_ptr g" and h': "blocks h' = (blocks g)(p \<mapsto> CPeer c)" "next_ptr h' = Suc p"
    using ir by (auto simp: into_raw_def)
  have ok: "heap_ok g" and later: "next_ptr h \<le> p"
    and ptrs: "\<forall>q\<in>set (field_ptrs c) - {0}. next_ptr h \<le> q \<and> q < p \<and> (\<exists>s. blocks g q = Some (CStr s))"
    and same: "\<forall>q. q \<notin> set (field_ptrs c) - {0} \<longrightarrow> blocks g q = blocks h q"
    and read: "list_all2 (\<lambda>s q. string_at g q = s)
       [bp_wt_url b, bp_wt_cert_hash b, bp_peer_code b, bp_device_name b, bp_device_type b] (field_ptrs c)"
    and dist: "distinct (filter (\<lambda>q. q \<noteq> 0) (field_ptrs c))"
    using al unfolding allocated_def p by blast+
  have "p \<noteq> 0" using ok by (simp add: p heap_ok_def)
  have at: "string_at h' q = string_at g q" if "q \<in> set (field_ptrs c)" for q
  proof (cases "q = 0")
    case True
    with \<open>p \<noteq> 0\<close> show ?thesis by (intro string_at_cong) (simp add: h')
  next
    case False
    with ptrs that have "q \<noteq> p" by blast
    then show ?thesis by (intro string_at_cong) (simp add: h')
  qed
  have "peer_at h' p = Some b"
    using read at by (simp add: peer_at_def h')
  moreover have "heap_ok h'"
    using ok \<open>p \<noteq> 0\<close> unfolding heap_ok_def h' p [symmetric] by auto
  moreover have none: "blocks h q = None" if "next_ptr h \<le> q" for q
    using assms(1) that by (simp add: heap_ok_def)
  moreover have "\<forall>q\<in>set (field_ptrs c) - {0}. blocks h q = None \<and> (\<exists>s. blocks h' q = Some (CStr s))"
  proof
    fix q assume "q \<in> set (field_ptrs c) - {0}"
    with ptrs have "next_ptr h \<le> q" "q < p" "\<exists>s. blocks g q = Some (CStr s)" by blast+
    then show "blocks h q = None \<and> (\<exists>s. blocks h' q = Some (CStr s))" by (simp add: none h')
  qed
  moreover have "\<forall>q. q \<notin> insert p (set (field_ptrs c) - {0}) \<longrightarrow> blocks h' q = blocks h q"
    using same by (metis fun_upd_other h'(1) insertI1 insertI2)
  ultimately show thesis
    using \<open>p \<noteq> 0\<close> none [OF later] dist by (intro that [of c]) (simp_all only: h' fun_upd_same not_False_eq_True)
qed

lemma bolt_peer_free_release:
  assumes "p \<noteq> 0" "blocks g p = Some (CPeer c)"
    "\<forall>q\<in>set (field_ptrs c) - {0}. \<exists>s. blocks g q = Some (CStr s)"
    "distinct (filter (\<lambda>q. q \<noteq> 0) (field_ptrs c))"
  shows "\<exists>g'. bolt_peer_free p g = Some g' \<and> blocks g' = blocks g |` (- insert p (set (field_ptrs c) - {0}))"
proof -
  let ?ps = "[c_peer_code c, c_device_name c, c_device_type c, c_wt_url c, c_wt_cert_hash c]"
  have set: "set ?ps = set (field_ptrs c)" by auto
  have "mset (filter (\<lambda>q. q \<noteq> 0) ?ps) = mset (filter (\<lambda>q. q \<noteq> 0) (field_ptrs c))" by simp
  then have "distinct (filter (\<lambda>q. q \<noteq> 0) ?ps)" using assms(4) mset_eq_imp_distinct_iff by blast
  with assms(3) have "\<exists>g'. free_fields ?ps g = Some g' \<and> blocks g' = blocks g |` (- (set ?ps - {0}))"
    unfolding set [symmetric] by (intro free_fields_release) blast+
  then obtain g1 where g1: "free_fields ?ps g = Some g1" "blocks g1 = blocks g |` (- (set (field_ptrs c) - {0}))"
    unfolding set by blast
  have "blocks (release p g1) = blocks g |` (- insert p (set (field_ptrs c) - {0}))"
    by (auto simp: release_def g1(2) restrict_map_def fun_eq_iff)
  with assms(1,2) g1(1) show ?thesis by (simp add: bolt_peer_free_def)
qed

lemma bolt_peer_free_twice: "p \<noteq> 0 \<Longrightarrow> blocks g p = None \<Longrightarrow> bolt_peer_free p g = None"
  by (simp add: bolt_peer_free_def)

section \<open>Properties\<close>

text \<open>
  C26: the memory of a peer is handed over whole and given back whole. The pointer returned for an
  index reads as exactly the peer at that index, and is null exactly when there is none; no block
  the shell already held is touched. Freeing that pointer at any later time, whatever has happened
  to the rest of the heap, succeeds and frees exactly the blocks that the call allocated, so
  nothing leaks and nothing else is lost; freeing it again is undefined behaviour.
\<close>

theorem peer_memory:
  assumes "heap_ok h" "get_peer_ptr handle i h = (p, h')"
    and "owned = dom (blocks h') - dom (blocks h)" "\<forall>q\<in>owned. blocks g q = blocks h' q"
  shows "peer_at h' p = bolt_signaling_get_peer handle i \<and>
    (p = 0 \<longleftrightarrow> bolt_signaling_get_peer handle i = None) \<and>
    heap_ok h' \<and> blocks h \<subseteq>\<^sub>m blocks h' \<and>
    (\<exists>g'. bolt_peer_free p g = Some g' \<and> blocks g' = blocks g |` (- owned) \<and>
          (p = 0 \<or> bolt_peer_free p g' = None))"
proof (cases "bolt_signaling_get_peer handle i")
  case None
  with assms show ?thesis
    by (simp add: get_peer_ptr_def bolt_peer_free_def peer_at_def heap_ok_def restrict_map_def)
next
  case (Some b)
  then have "alloc_peer b h = (p, h')" using assms(2) by (simp add: get_peer_ptr_def)
  from alloc_peer_effect [OF assms(1) this] obtain c where
    p: "p \<noteq> 0" "blocks h p = None" "blocks h' p = Some (CPeer c)" "peer_at h' p = Some b" "heap_ok h'"
    and f: "\<forall>q\<in>set (field_ptrs c) - {0}. blocks h q = None \<and> (\<exists>s. blocks h' q = Some (CStr s))"
    and dist: "distinct (filter (\<lambda>q. q \<noteq> 0) (field_ptrs c))"
    and same: "\<forall>q. q \<notin> insert p (set (field_ptrs c) - {0}) \<longrightarrow> blocks h' q = blocks h q" .
  have owned: "owned = insert p (set (field_ptrs c) - {0})"
  proof (intro equalityI subsetI)
    fix q assume "q \<in> owned"
    then have "blocks h' q \<noteq> blocks h q" unfolding assms(3) by (auto simp: domIff)
    then show "q \<in> insert p (set (field_ptrs c) - {0})" using same by blast
  next
    fix q assume "q \<in> insert p (set (field_ptrs c) - {0})"
    then have "blocks h q = None \<and> blocks h' q \<noteq> None" using p(2,3) f by (elim insertE) fastforce+
    then show "q \<in> owned" unfolding assms(3) by (simp add: domIff)
  qed
  have "blocks h \<subseteq>\<^sub>m blocks h'"
    unfolding map_le_def dom_def using p(2) f same by (metis (mono_tags, lifting) insertE mem_Collect_eq)
  moreover have "\<exists>g'. bolt_peer_free p g = Some g' \<and> blocks g' = blocks g |` (- owned)"
    unfolding owned using p f dist assms(4) [unfolded owned]
    by (intro bolt_peer_free_release) auto
  ultimately show ?thesis
    using p Some owned by (auto intro!: bolt_peer_free_twice)
qed

text \<open>A peer with a name that cannot be a C string, read and freed on the empty heap.\<close>

definition example_handle :: "bolt_signaling option" where
  "example_handle = Some (on_events (\<lambda>_ _ _. None)
     [DPeerJoined \<lparr>cp_peer_code = ''BBB'', cp_device_name = ''B'', cp_device_type = ''phone'',
        cp_wt_url = None, cp_wt_cert_hash = None\<rparr> Local :: nat discovery_event] (signaling_new ''AAA''))"

theorem peer_memory_witness:
  "let (p, h') = get_peer_ptr example_handle 0 heap_new
   in p \<noteq> 0 \<and> map_option bp_peer_code (peer_at h' p) = Some (Some ''BBB'') \<and>
      (\<exists>g'. bolt_peer_free p h' = Some g' \<and> blocks g' = Map.empty)"
proof -
  obtain p h' where ph: "get_peer_ptr example_handle 0 heap_new = (p, h')" by fastforce
  have got: "map_option bp_peer_code (bolt_signaling_get_peer example_handle 0) = Some (Some ''BBB'')"
    by code_simp
  have "heap_ok heap_new" by (simp add: heap_ok_def heap_new_def)
  from peer_memory [OF this ph refl, of h'] got show ?thesis
    unfolding ph by (auto simp: heap_new_def restrict_map_def dom_def fun_eq_iff)
qed

end
