(* ===== verification/Ipc.thy ===== *)
theory Ipc
  imports Ffi
begin

text \<open>
  The event bridge to the daemon, \<open>native/shared/src/ipc.rs\<close>. \<open>IpcBridgeCore\<close> and the
  message types are \<open>bolt_app_core\<close>'s and \<open>serde_json\<close> is third-party: connecting, the
  connection's state, the acceptance of a decision and the texts of JSON values are
  parameters.
\<close>

section \<open>State and operations\<close>

record bolt_ipc =
  bridge_connected :: bool
  ipc_events :: "string list"

text \<open>The callback's queue: new events are refused once 1000 are waiting.\<close>

definition push_event :: "string \<Rightarrow> string list \<Rightarrow> string list" where
  "push_event json q = (if length q < 1000 then q @ [json] else q)"

text \<open>
  One event from the daemon, as its name and payload; \<open>event_json\<close> gives the text of the
  object with both, or fails.
\<close>

definition ipc_event ::
    "(string \<Rightarrow> 'j \<Rightarrow> string option) \<Rightarrow> string \<times> 'j \<Rightarrow> bolt_ipc \<Rightarrow> bolt_ipc" where
  "ipc_event event_json ev h =
     (case event_json (fst ev) (snd ev) of
        None \<Rightarrow> h
      | Some json \<Rightarrow> h\<lparr>ipc_events := push_event json (ipc_events h)\<rparr>)"

definition bolt_ipc_start ::
    "(string \<Rightarrow> string \<Rightarrow> bool) \<Rightarrow> string option \<Rightarrow> string option \<Rightarrow> bolt_ipc option" where
  "bolt_ipc_start bridge_start socket_path app_version =
     (case validate_cstr socket_path of
        None \<Rightarrow> None
      | Some path \<Rightarrow>
          (case validate_cstr app_version of
             None \<Rightarrow> None
           | Some version \<Rightarrow>
               if bridge_start path version then Some \<lparr>bridge_connected = True, ipc_events = []\<rparr>
               else None))"

definition bolt_ipc_is_connected :: "bolt_ipc option \<Rightarrow> int" where
  "bolt_ipc_is_connected handle =
     (case handle of None \<Rightarrow> 0 | Some h \<Rightarrow> if bridge_connected h then 1 else 0)"

definition bolt_ipc_drain_events :: "bolt_ipc option \<Rightarrow> string option \<times> bolt_ipc option" where
  "bolt_ipc_drain_events handle =
     (case handle of
        None \<Rightarrow> (None, None)
      | Some h \<Rightarrow>
          if ipc_events h = [] then (None, Some h)
          else (cstring_new (join_lines (ipc_events h)), Some (h\<lparr>ipc_events := []\<rparr>)))"

text \<open>Stopping frees the handle; the result says whether a bridge was shut down.\<close>

definition bolt_ipc_stop :: "bolt_ipc option \<Rightarrow> bool" where
  "bolt_ipc_stop handle = (case handle of None \<Rightarrow> False | Some _ \<Rightarrow> True)"

text \<open>
  A decision: its type and its payload, which has to be JSON; \<open>bridge_send\<close> says whether the
  bridge takes the message. The result and the message handed over.
\<close>

definition bolt_ipc_send_decision ::
    "(string \<Rightarrow> 'j option) \<Rightarrow> (string \<Rightarrow> 'j \<Rightarrow> bool) \<Rightarrow> bolt_ipc option \<Rightarrow>
     string option \<Rightarrow> string option \<Rightarrow> int \<times> (string \<times> 'j) option" where
  "bolt_ipc_send_decision from_str bridge_send handle msg_type payload_json =
     (case handle of
        None \<Rightarrow> (0, None)
      | Some _ \<Rightarrow>
          (case validate_cstr msg_type of
             None \<Rightarrow> (0, None)
           | Some ty \<Rightarrow>
               (case validate_cstr payload_json of
                  None \<Rightarrow> (0, None)
                | Some json \<Rightarrow>
                    (case from_str json of
                       None \<Rightarrow> (0, None)
                     | Some payload \<Rightarrow>
                         if bridge_send ty payload then (1, Some (ty, payload)) else (0, None)))))"

section \<open>Lemmas\<close>

interpretation ipcq: bounded_buffer push_event 1000
  by unfold_locales (auto simp: push_event_def)

lemma fold_push_event: "length q \<le> 1000 \<Longrightarrow> fold push_event xs q = take 1000 (q @ xs)"
proof (induction xs arbitrary: q)
  case Nil
  then show ?case by simp
next
  case (Cons x xs)
  show ?case
  proof (cases "length q < 1000")
    case True
    with Cons show ?thesis by (simp add: push_event_def take_Cons')
  next
    case False
    with Cons show ?thesis by (simp add: push_event_def)
  qed
qed

definition event_texts :: "(string \<Rightarrow> 'j \<Rightarrow> string option) \<Rightarrow> (string \<times> 'j) list \<Rightarrow> string list" where
  "event_texts event_json evs = List.map_filter (\<lambda>ev. event_json (fst ev) (snd ev)) evs"

lemma fold_ipc_event:
  "ipc_events (fold (ipc_event f) evs h) = fold push_event (event_texts f evs) (ipc_events h)"
proof (induction evs arbitrary: h)
  case Nil
  then show ?case by (simp add: event_texts_def map_filter_simps)
next
  case (Cons ev evs)
  then show ?case
    by (auto simp: ipc_event_def event_texts_def map_filter_simps split: option.splits)
qed

section \<open>Properties\<close>

text \<open>
  C28: daemon events reach the shell in order, up to 1000 at a time. If the texts of events
  contain neither newlines nor NUL bytes, a drain gives exactly the first 1000 events received
  since the previous drain as the lines of one string, null if there were none, and leaves the
  queue empty.
\<close>

theorem ipc_events_drained:
  assumes "ipc_events h0 = []" "\<And>name payload json. event_json name payload = Some json \<Longrightarrow> plain_line json"
  shows "case bolt_ipc_drain_events (Some (fold (ipc_event event_json) evs h0)) of
      (r, h) \<Rightarrow>
        map_option ipc_events h = Some [] \<and>
        (case r of
           None \<Rightarrow> event_texts event_json evs = []
         | Some line \<Rightarrow> split_on newline line = take 1000 (event_texts event_json evs))"
proof -
  let ?q = "take 1000 (event_texts event_json evs)"
  have q: "ipc_events (fold (ipc_event event_json) evs h0) = ?q"
    using assms(1) by (simp add: fold_ipc_event fold_push_event)
  have "list_all plain_line (event_texts event_json evs)"
    using assms(2) by (induction evs) (auto simp: event_texts_def map_filter_simps split: option.splits)
  then have "list_all plain_line ?q" by (auto simp: list_all_iff dest: in_set_takeD)
  with join_lines_plain [of ?q] q show ?thesis
    by (simp add: bolt_ipc_drain_events_def)
qed

theorem ipc_events_drained_witness:
  "case bolt_ipc_drain_events (Some (fold (ipc_event (\<lambda>name _. if plain_line name then Some name else None))
       [(''pairing.request'', 1 :: nat), (''session.connected'', 2)] \<lparr>bridge_connected = True, ipc_events = []\<rparr>)) of
     (r, h) \<Rightarrow> map_option (split_on newline) r = Some [''pairing.request'', ''session.connected'']"
proof -
  let ?f = "\<lambda>name _. if plain_line name then Some name else None"
  let ?evs = "[(''pairing.request'', 1 :: nat), (''session.connected'', 2)]"
  let ?h = "\<lparr>bridge_connected = True, ipc_events = []\<rparr>"
  let ?d = "bolt_ipc_drain_events (Some (fold (ipc_event ?f) ?evs ?h))"
  have q: "event_texts ?f ?evs = [''pairing.request'', ''session.connected'']"
    by (simp add: event_texts_def map_filter_simps plain_line_def newline_def)
  have start: "ipc_events ?h = []" by simp
  have plain: "plain_line json" if "?f name payload = Some json" for name json and payload :: nat
    using that by (simp split: if_splits)
  obtain r h where d: "?d = (r, h)" by fastforce
  note drained = ipc_events_drained [of ?h ?f ?evs, OF start plain]
  show ?thesis
  proof (cases r)
    case None
    with drained d q show ?thesis by (simp only: prod.case option.case) simp
  next
    case (Some line)
    with drained d q show ?thesis by (simp only: prod.case option.case) simp
  qed
qed

end
