(* ===== verification/Cli_Commands.thy ===== *)
theory Cli_Commands
  imports Cli_Events
begin

text \<open>
  The commands of the command line shell, \<open>native/linux/cli/src/main.rs\<close>, as the sequences of
  actions they perform. What the system answers comes in as parameters: the results of
  probing the daemon's socket, of spawning, of reading files, the time the scheduler adds to
  each pause. Texts are what is printed; a command that ends the process ends with \<open>Exit\<close>.
\<close>

section \<open>Actions\<close>

datatype action =
    Say string
  | Complain string
  | Sleep nat
  | Spawn string "string list"
  | Terminate u32
  | ForceKill u32
  | Reap u32
  | RemoveFile string
  | WriteFile string string
  | SendHandshake
  | SendFile string
  | Watch
  | Exit nat

definition em_dash :: string where
  "em_dash = [CHR 0xE2, CHR 0x80, CHR 0x94]"

section \<open>Paths\<close>

record cli =
  socket_path_arg :: "string option"
  data_dir_arg :: "string option"
  daemon_path_arg :: "string option"

definition resolve_socket_path :: "string \<Rightarrow> cli \<Rightarrow> string" where
  "resolve_socket_path default_ipc_path cli = unwrap_or (socket_path_arg cli) default_ipc_path"

definition resolve_data_dir :: "string \<Rightarrow> cli \<Rightarrow> string" where
  "resolve_data_dir default_data_dir cli = unwrap_or (data_dir_arg cli) default_data_dir"

text \<open>\<open>PathBuf::join\<close> of a relative path to a path given as text.\<close>

definition join_text :: "string \<Rightarrow> string \<Rightarrow> string" where
  "join_text base rel =
     (if base = [] \<or> last base = CHR ''/'' then base @ rel else base @ ''/'' @ rel)"

definition exe_sibling :: "path option \<Rightarrow> string" where
  "exe_sibling current_exe =
     (case Option.bind current_exe parent of
        None \<Rightarrow> []
      | Some dir \<Rightarrow> path_text (join dir [''bolt-daemon'']))"

definition cli_candidates :: "path option \<Rightarrow> string option \<Rightarrow> string list" where
  "cli_candidates current_exe home =
     [exe_sibling current_exe, ''/usr/local/bin/bolt-daemon'', ''/usr/bin/bolt-daemon'',
      unwrap_or (map_option (\<lambda>h. join_text h ''.local/bin/bolt-daemon'') home) []]"

definition resolve_daemon_path ::
    "(string \<Rightarrow> bool) \<Rightarrow> path option \<Rightarrow> string option \<Rightarrow> cli \<Rightarrow> string" where
  "resolve_daemon_path exists_file current_exe home cli =
     (case daemon_path_arg cli of
        Some p \<Rightarrow> p
      | None \<Rightarrow>
          (case List.find (\<lambda>c. c \<noteq> [] \<and> exists_file c) (cli_candidates current_exe home) of
             Some c \<Rightarrow> c
           | None \<Rightarrow> ''bolt-daemon''))"

section \<open>Stopping a child\<close>

text \<open>\<open>exited i\<close> is whether the \<open>i\<close>th \<open>try_wait\<close> finds the child gone.\<close>

fun await_exit :: "u32 \<Rightarrow> (nat \<Rightarrow> bool) \<Rightarrow> nat \<Rightarrow> nat \<Rightarrow> action list" where
  "await_exit pid exited i 0 = [ForceKill pid, Reap pid]"
| "await_exit pid exited i (Suc n) =
     Sleep 250 # (if exited i then [] else await_exit pid exited (Suc i) n)"

definition terminate_child :: "u32 \<Rightarrow> (nat \<Rightarrow> bool) \<Rightarrow> action list" where
  "terminate_child pid exited = Terminate pid # await_exit pid exited 0 12"

section \<open>Stop\<close>

text \<open>\<open>probe i\<close> is whether the \<open>i\<close>th probe of the socket succeeds.\<close>

fun await_socket_gone :: "u32 \<Rightarrow> string \<Rightarrow> (nat \<Rightarrow> bool) \<Rightarrow> nat \<Rightarrow> nat \<Rightarrow> action list" where
  "await_socket_gone pid pid_path probe i 0 =
     [Complain ''[localbolt-cli] daemon did not stop gracefully, sending SIGKILL'',
      ForceKill pid, RemoveFile pid_path, Say ''[localbolt-cli] daemon killed'']"
| "await_socket_gone pid pid_path probe i (Suc n) =
     Sleep 250 #
     (if \<not> probe i then [Say ''[localbolt-cli] daemon stopped'', RemoveFile pid_path]
      else await_socket_gone pid pid_path probe (Suc i) n)"

definition cmd_stop ::
    "string \<Rightarrow> (nat \<Rightarrow> bool) \<Rightarrow> string \<Rightarrow> string option \<Rightarrow> (u32 \<Rightarrow> bool) \<Rightarrow> action list" where
  "cmd_stop socket probe pid_path pid_file process_alive =
     (if \<not> probe 0 then [Say ''[localbolt-cli] daemon not running'']
      else
        (let pid = Option.bind pid_file (\<lambda>pid_str. map_option of_nat (parse_unsigned u32_max (trim pid_str)));
             no_pid = [Complain ''[localbolt-cli] daemon socket exists but no PID file found'',
                       Complain (''[localbolt-cli] remove stale socket manually: '' @ socket), Exit 1]
         in case pid of
              None \<Rightarrow> no_pid
            | Some pid \<Rightarrow>
                if process_alive pid then
                  Say (''[localbolt-cli] sending SIGTERM to daemon (PID '' @ show_nat (unat pid) @ '')...'') #
                  Terminate pid # await_socket_gone pid pid_path probe 1 20
                else no_pid))"

section \<open>Start\<close>

datatype readiness =
    ReadyNow string string
  | Incompatible string
  | ProbeFailed string

datatype wait_result = Available | Interrupted | NotReady

text \<open>
  The loop that waits for the daemon's socket, in nanoseconds since its start. A pause takes
  250 ms and whatever the \<open>i\<close>th round of the loop takes longer. The result comes with the
  number of probes made.
\<close>

definition start_timeout :: nat where "start_timeout = 10000000000"
definition start_pause :: nat where "start_pause = 250000000"

function await_ready ::
    "(nat \<Rightarrow> bool) \<Rightarrow> (nat \<Rightarrow> bool) \<Rightarrow> (nat \<Rightarrow> nat) \<Rightarrow> nat \<Rightarrow> nat \<Rightarrow> wait_result \<times> nat" where
  "await_ready shutdown probe delay i elapsed =
     (if shutdown i then (Interrupted, i)
      else if elapsed > start_timeout then (NotReady, i)
      else if probe i then (Available, Suc i)
      else await_ready shutdown probe delay (Suc i) (elapsed + start_pause + delay i))"
  by pat_completeness auto
termination
  by (relation "measure (\<lambda>(shutdown, probe, delay, i, elapsed). Suc start_timeout - elapsed)")
    (auto simp: start_timeout_def start_pause_def)

declare await_ready.simps [simp del]

definition report_readiness :: "string \<Rightarrow> readiness \<Rightarrow> action list" where
  "report_readiness version r =
     (case r of
        ReadyNow daemon_version connected_peers \<Rightarrow>
          [Say (''[localbolt-cli] daemon ready (version '' @ daemon_version @ '', peers: '' @ connected_peers @ '')'')]
      | Incompatible daemon_version \<Rightarrow>
          [Complain (''[localbolt-cli] WARNING: daemon version '' @ daemon_version @
             '' may be incompatible with CLI '' @ version)]
      | ProbeFailed reason \<Rightarrow>
          [Complain (''[localbolt-cli] readiness probe failed: '' @ reason),
           Complain (''[localbolt-cli] daemon may still be starting '' @ em_dash @
             '' try `localbolt-cli status`'')])"

definition cli_spawn_args :: "string \<Rightarrow> string \<Rightarrow> string \<Rightarrow> string \<Rightarrow> string list" where
  "cli_spawn_args ws_listen socket dir pairing_policy =
     [''--mode'', ''ws-endpoint'', ''--ws-listen'', ws_listen, ''--socket-path'', socket,
      ''--data-dir'', dir, ''--pairing-policy'', pairing_policy]"

text \<open>
  The environment of \<open>cmd_start\<close>: whether a daemon answers already, the error of creating the
  data directory, the result of spawning (an error text and whether the binary was not found,
  or the process id), the oracles of the waiting loop and of \<open>terminate_child\<close>, and the result
  of the readiness probe.
\<close>

record start_env =
  running :: bool
  create_dir_error :: "string option"
  spawned :: "(string \<times> bool, u32) result"
  shutdown_seen :: "nat \<Rightarrow> bool"
  probe_ok :: "nat \<Rightarrow> bool"
  round_delay :: "nat \<Rightarrow> nat"
  child_exited :: "nat \<Rightarrow> bool"
  readiness_result :: readiness

definition after_spawn ::
    "start_env \<Rightarrow> string \<Rightarrow> bool \<Rightarrow> u32 \<Rightarrow> action list" where
  "after_spawn env version watch pid =
     (let stop = terminate_child pid (child_exited env);
          p = show_nat (unat pid);
          shutting_down = Say ([newline] @ ''[localbolt-cli] shutting down daemon (PID '' @ p @ '')...'')
      in case fst (await_ready (shutdown_seen env) (probe_ok env) (round_delay env) 0 0) of
           Interrupted \<Rightarrow> shutting_down # stop
         | NotReady \<Rightarrow>
             Complain ''[localbolt-cli] daemon did not become ready within 10s'' # stop @ [Exit 1]
         | Available \<Rightarrow>
             report_readiness version (readiness_result env) @
             (if watch then
                [Say ''[localbolt-cli] watching events (Ctrl+C to stop)...'', Say ''---'', Watch,
                 shutting_down] @ stop
              else
                [Say (''[localbolt-cli] daemon running in background (PID '' @ p @ '')''),
                 Say ''[localbolt-cli] use `localbolt-cli watch` to stream events'',
                 Say ''[localbolt-cli] use `localbolt-cli stop` to shut down'']))"

definition do_watch :: "action list" where
  "do_watch = [Say ''[localbolt-cli] watching events (Ctrl+C to stop)...'', Say ''---'', Watch]"

definition cmd_start ::
    "start_env \<Rightarrow> string \<Rightarrow> string \<Rightarrow> string \<Rightarrow> string \<Rightarrow> string \<Rightarrow> string \<Rightarrow> bool \<Rightarrow> action list" where
  "cmd_start env version socket dir daemon_bin ws_listen pairing_policy watch =
     (if running env then
        Complain (''[localbolt-cli] daemon already running at '' @ socket) #
        (if watch then do_watch else [])
      else
        case create_dir_error env of
          Some e \<Rightarrow>
            [Complain (''[localbolt-cli] failed to create data dir '' @ dir @ '': '' @ e), Exit 1]
        | None \<Rightarrow>
            [Say ''[localbolt-cli] starting bolt-daemon...'', Say (''  binary:    '' @ daemon_bin),
             Say (''  ws-listen: '' @ ws_listen), Say (''  socket:    '' @ socket),
             Say (''  data-dir:  '' @ dir), Say (''  policy:    '' @ pairing_policy),
             Spawn daemon_bin (cli_spawn_args ws_listen socket dir pairing_policy)] @
            (case spawned env of
               Inl (e, not_found) \<Rightarrow>
                 [Complain (''[localbolt-cli] failed to start daemon: '' @ e)] @
                 (if not_found then
                    [Complain (''[localbolt-cli] bolt-daemon not found at: '' @ daemon_bin),
                     Complain ''[localbolt-cli] install bolt-daemon or use --daemon-path''] else []) @
                 [Exit 1]
             | Inr pid \<Rightarrow>
                 Say (''[localbolt-cli] daemon started (PID '' @ show_nat (unat pid) @ '')'') #
                 after_spawn env version watch pid))"

section \<open>Status, watch and send\<close>

definition cmd_status :: "bool \<Rightarrow> readiness \<Rightarrow> string \<Rightarrow> action list" where
  "cmd_status probe r socket =
     (if \<not> probe then
        [Say (''[localbolt-cli] daemon not running (no socket at '' @ socket @ '')''), Exit 1]
      else case r of
          ReadyNow daemon_version connected_peers \<Rightarrow>
            [Say ''[localbolt-cli] daemon ready'', Say (''  version: '' @ daemon_version),
             Say (''  peers:   '' @ connected_peers), Say (''  socket:  '' @ socket)]
        | Incompatible daemon_version \<Rightarrow>
            [Say (''[localbolt-cli] daemon running but incompatible (version '' @ daemon_version @ '')''),
             Exit 1]
        | ProbeFailed reason \<Rightarrow> [Say (''[localbolt-cli] daemon probe failed: '' @ reason), Exit 1])"

definition cmd_watch :: "bool \<Rightarrow> string \<Rightarrow> action list" where
  "cmd_watch probe socket =
     (if \<not> probe then
        [Complain (''[localbolt-cli] daemon not running (no socket at '' @ socket @ '')''), Exit 1]
      else
        [Say ''[localbolt-cli] connecting to daemon IPC...'', Watch,
         Say ([newline] @ ''[localbolt-cli] disconnected'')])"

text \<open>
  Sending a file: the connection to the daemon, the clone of the stream, the handshake and the
  command may each fail; the last failure falls back to the signal file.
\<close>

definition send_by_signal_file :: "(string \<Rightarrow> string option) \<Rightarrow> string \<Rightarrow> string \<Rightarrow> action list" where
  "send_by_signal_file write_error dir abs_path =
     (let signal_path = join_text dir ''send_file.signal''
      in [Say (''[localbolt-cli] writing signal file: '' @ signal_path), WriteFile signal_path abs_path] @
         (case write_error signal_path of
            None \<Rightarrow>
              [Say (''[localbolt-cli] send_file.signal written '' @ em_dash @
                 '' daemon will pick up within 250ms'')]
          | Some e \<Rightarrow> [Complain (''[localbolt-cli] failed to write signal file: '' @ e), Exit 1]))"

record send_env =
  canonical :: "(string, string) result"
  is_file :: bool
  socket_up :: bool
  connect_error :: "string option"
  clone_error :: "string option"
  handshake_error :: "string option"
  command_error :: "string option"
  write_error :: "string \<Rightarrow> string option"

definition send_by_ipc :: "send_env \<Rightarrow> string \<Rightarrow> string \<Rightarrow> action list" where
  "send_by_ipc env dir abs_path =
     Say (''[localbolt-cli] sending via IPC: '' @ abs_path) #
     (case connect_error env of
        Some e \<Rightarrow> [Complain (''[localbolt-cli] IPC connect failed: '' @ e), Exit 1]
      | None \<Rightarrow>
          (case clone_error env of
             Some e \<Rightarrow> [Complain (''[localbolt-cli] clone stream: '' @ e), Exit 1]
           | None \<Rightarrow>
               SendHandshake #
               (case handshake_error env of
                  Some e \<Rightarrow> [Complain (''[localbolt-cli] handshake failed: '' @ e), Exit 1]
                | None \<Rightarrow>
                    SendFile abs_path #
                    (case command_error env of
                       Some e \<Rightarrow>
                         [Complain (''[localbolt-cli] IPC file.send failed: '' @ e),
                          Complain ''[localbolt-cli] falling back to signal file method''] @
                         send_by_signal_file (write_error env) dir abs_path
                     | None \<Rightarrow> [Say ''[localbolt-cli] file.send command sent'']))))"

definition cmd_send :: "send_env \<Rightarrow> string \<Rightarrow> string \<Rightarrow> action list" where
  "cmd_send env dir file_path =
     (case canonical env of
        Inl e \<Rightarrow>
          [Complain (''[localbolt-cli] cannot resolve path '' @ file_path @ '': '' @ e), Exit 1]
      | Inr abs_path \<Rightarrow>
          if \<not> is_file env then [Complain (''[localbolt-cli] not a file: '' @ abs_path), Exit 1]
          else if socket_up env then send_by_ipc env dir abs_path
          else send_by_signal_file (write_error env) dir abs_path)"

section \<open>The commands together\<close>

datatype command =
    Start string string bool
  | Status
  | WatchEvents
  | Send string
  | Stop

record cli_env =
  start_side :: start_env
  send_side :: send_env
  socket_probe :: "nat \<Rightarrow> bool"
  probed_readiness :: readiness
  default_ipc_path :: string
  default_data_dir :: string
  pid_file_path :: string
  pid_file_text :: "string option"
  pid_alive :: "u32 \<Rightarrow> bool"
  file_exists :: "string \<Rightarrow> bool"
  exe_path :: "path option"
  home_dir :: "string option"

definition cli_main :: "cli_env \<Rightarrow> string \<Rightarrow> cli \<Rightarrow> command \<Rightarrow> action list" where
  "cli_main env version cli cmd =
     (let socket = resolve_socket_path (default_ipc_path env) cli;
          dir = resolve_data_dir (default_data_dir env) cli
      in case cmd of
           Start ws_listen pairing_policy watch \<Rightarrow>
             cmd_start (start_side env) version socket dir
               (resolve_daemon_path (file_exists env) (exe_path env) (home_dir env) cli)
               ws_listen pairing_policy watch
         | Status \<Rightarrow> cmd_status (socket_probe env 0) (probed_readiness env) socket
         | WatchEvents \<Rightarrow> cmd_watch (socket_probe env 0) socket
         | Send path \<Rightarrow> cmd_send (send_side env) dir path
         | Stop \<Rightarrow>
             cmd_stop socket (socket_probe env) (pid_file_path env) (pid_file_text env) (pid_alive env))"

section \<open>Stopping, step by step\<close>

fun slept :: "action list \<Rightarrow> nat" where
  "slept [] = 0"
| "slept (Sleep ms # acts) = ms + slept acts"
| "slept (_ # acts) = slept acts"

definition stop_pid :: "string option \<Rightarrow> (u32 \<Rightarrow> bool) \<Rightarrow> u32 option" where
  "stop_pid pid_file process_alive =
     (case pid_file of
        None \<Rightarrow> None
      | Some pid_str \<Rightarrow>
          (case parse_unsigned u32_max (trim pid_str) of
             None \<Rightarrow> None
           | Some n \<Rightarrow> if process_alive (of_nat n) then Some (of_nat n) else None))"

lemma await_socket_gone_actions [simp]:
  "ForceKill q \<in> set (await_socket_gone pid path probe i n) \<longleftrightarrow> q = pid \<and> (\<forall>j<n. probe (i + j))"
  "Terminate q \<notin> set (await_socket_gone pid path probe i n)"
  "Exit c \<notin> set (await_socket_gone pid path probe i n)"
  "RemoveFile path \<in> set (await_socket_gone pid path probe i n)"
  "slept (await_socket_gone pid path probe i n) \<le> 250 * n"
  by (induction n arbitrary: i) (auto simp: less_Suc_eq_0_disj)

lemma cmd_stop_cases:
  "cmd_stop socket probe path pid_file alive =
     (if \<not> probe 0 then [Say ''[localbolt-cli] daemon not running'']
      else case stop_pid pid_file alive of
             None \<Rightarrow>
               [Complain ''[localbolt-cli] daemon socket exists but no PID file found'',
                Complain (''[localbolt-cli] remove stale socket manually: '' @ socket), Exit 1]
           | Some pid \<Rightarrow>
               Say (''[localbolt-cli] sending SIGTERM to daemon (PID '' @ show_nat (unat pid) @ '')...'') #
               Terminate pid # await_socket_gone pid path probe 1 20)"
  by (simp add: cmd_stop_def stop_pid_def Let_def split: option.split)

text \<open>
  C33: stopping escalates. The stop command asks exactly the process of a readable process-id
  file that is alive to terminate, and only if the socket answers; it kills that process only
  after asking it, and exactly when the socket still answers at all of the next twenty looks;
  it waits at most five seconds; and it fails exactly when the socket answers but no live
  process is known.
\<close>

theorem stop_escalates:
  "(let acts = cmd_stop socket probe path pid_file alive in
     (\<forall>q. Terminate q \<in> set acts \<longleftrightarrow> probe 0 \<and> stop_pid pid_file alive = Some q) \<and>
     (\<forall>q. ForceKill q \<in> set acts \<longleftrightarrow>
        Terminate q \<in> set acts \<and> list_all probe [1..<21]) \<and>
     (\<forall>q. ForceKill q \<notin> set (takeWhile (\<lambda>a. a \<noteq> Terminate q) acts)) \<and>
     slept acts \<le> 5000 \<and>
     (Exit 1 \<in> set acts \<longleftrightarrow> probe 0 \<and> stop_pid pid_file alive = None))"
proof -
  have twenty: "(\<forall>j<20. probe (Suc j)) \<longleftrightarrow> list_all probe [1..<21]"
  proof
    assume all: "\<forall>j<20. probe (Suc j)"
    have "probe i" if "1 \<le> i" "i < 21" for i using all that by (cases i) auto
    then show "list_all probe [1..<21]" by (simp add: list_all_iff)
  qed (auto simp: list_all_iff)
  show ?thesis
    using await_socket_gone_actions(5) [of _ path probe 1 20]
    by (auto simp: cmd_stop_cases Let_def twenty dest: set_takeWhileD split: option.split)
qed

section \<open>Starting, step by step\<close>

lemma await_ready_trace:
  assumes "elapsed = i * start_pause + (\<Sum>j<i. delay j)" "\<forall>j<i. \<not> probe j \<and> \<not> shutdown j" "i \<le> 41"
    and "await_ready shutdown probe delay i elapsed = (r, n)"
  shows "n \<le> 41 \<and>
    (case r of
       Available \<Rightarrow> n > 0 \<and> probe (n - 1) \<and> (\<forall>j<n - 1. \<not> probe j) \<and> (\<forall>j<n. \<not> shutdown j)
     | Interrupted \<Rightarrow> shutdown n \<and> (\<forall>j<n. \<not> probe j)
     | NotReady \<Rightarrow> (\<forall>j<n. \<not> probe j) \<and> start_timeout < n * start_pause + (\<Sum>j<n. delay j))"
  using assms
proof (induction shutdown probe delay i elapsed rule: await_ready.induct)
  case (1 shutdown probe delay i elapsed)
  have last: "elapsed > start_timeout" if "i = 41"
    using 1(2) that by (simp add: start_timeout_def start_pause_def)
  note result = 1(5) [unfolded await_ready.simps [of shutdown probe delay i elapsed]]
  consider "shutdown i" | "\<not> shutdown i" "elapsed > start_timeout"
    | "\<not> shutdown i" "\<not> elapsed > start_timeout" "probe i"
    | "\<not> shutdown i" "\<not> elapsed > start_timeout" "\<not> probe i" by blast
  then show ?case
  proof cases
    case 3
    then have "i \<noteq> 41" using last by blast
    with 3 result 1(3,4) show ?thesis by (auto simp: less_Suc_eq)
  next
    case 4
    then have "i \<noteq> 41" using last by blast
    with 4 result 1(2-4) show ?thesis
      by (intro 1(1)) (auto simp: less_Suc_eq)
  qed (use result 1(2-4) in auto)
qed

text \<open>
  Starting does not wait for ever. The loop that waits for a started daemon looks at the
  socket at most 41 times, however long each round takes. It succeeds at the first look that
  finds the socket, unless the user interrupts it before, and gives up only when more than ten
  seconds have passed.
\<close>

lemma start_wait_bounded:
  assumes "await_ready shutdown probe delay 0 0 = (r, n)"
  shows "n \<le> 41 \<and>
    (case r of
       Available \<Rightarrow> n > 0 \<and> probe (n - 1) \<and> (\<forall>j<n - 1. \<not> probe j) \<and> (\<forall>j<n. \<not> shutdown j)
     | Interrupted \<Rightarrow> shutdown n \<and> (\<forall>j<n. \<not> probe j)
     | NotReady \<Rightarrow> (\<forall>j<n. \<not> probe j) \<and> 10000000000 < n * 250000000 + (\<Sum>j<n. delay j))"
  using await_ready_trace [of 0 0 delay probe shutdown r n] assms
  by (cases r) (simp_all add: start_timeout_def start_pause_def)

lemma start_wait_bounded_witness:
  "await_ready (\<lambda>_. False) (\<lambda>i. i = 3) (\<lambda>_. 0) 0 0 = (Available, 4) \<and> (4 :: nat) \<le> 41"
proof -
  have h: "await_ready (\<lambda>_. False) (\<lambda>i. i = 3) (\<lambda>_. 0) 0 0 = (Available, 4)"
    by (simp add: await_ready.simps start_timeout_def start_pause_def)
  with start_wait_bounded [OF h] show ?thesis by simp
qed

lemma terminate_child_actions [simp]:
  "Terminate q \<in> set (terminate_child pid exited) \<longleftrightarrow> q = pid"
  "Exit c \<notin> set (terminate_child pid exited)"
  "Watch \<notin> set (terminate_child pid exited)"
  "Spawn b args \<notin> set (terminate_child pid exited)"
proof -
  have "Terminate q \<notin> set (await_exit pid exited i n)" "Exit c \<notin> set (await_exit pid exited i n)"
    "Watch \<notin> set (await_exit pid exited i n)" "Spawn b args \<notin> set (await_exit pid exited i n)" for i n
    by (induction n arbitrary: i) auto
  then show "Terminate q \<in> set (terminate_child pid exited) \<longleftrightarrow> q = pid"
    "Exit c \<notin> set (terminate_child pid exited)" "Watch \<notin> set (terminate_child pid exited)"
    "Spawn b args \<notin> set (terminate_child pid exited)"
    by (simp_all add: terminate_child_def)
qed



section \<open>Sending\<close>

text \<open>
  Sending a file. The send command succeeds exactly when the path names a file and either
  the daemon took the command over its socket or, if there is no socket or writing the command
  failed, the signal file could be written; the path written or sent is the canonical one, and
  a failing connection or handshake is not made up for by the signal file.
\<close>

lemma send_outcome:
  "(let acts = cmd_send env dir path in
     (Exit 1 \<notin> set acts \<longleftrightarrow>
        (\<exists>p. canonical env = Inr p \<and> is_file env \<and>
           (if socket_up env
            then connect_error env = None \<and> clone_error env = None \<and> handshake_error env = None \<and>
              (command_error env = None \<or> write_error env (join_text dir ''send_file.signal'') = None)
            else write_error env (join_text dir ''send_file.signal'') = None))) \<and>
     (\<forall>f p. WriteFile f p \<in> set acts \<longrightarrow>
        f = join_text dir ''send_file.signal'' \<and> canonical env = Inr p \<and>
        (socket_up env \<longrightarrow> command_error env \<noteq> None \<and> handshake_error env = None)) \<and>
     (\<forall>p. SendFile p \<in> set acts \<longrightarrow> canonical env = Inr p \<and> socket_up env))"
  by (auto simp: cmd_send_def send_by_ipc_def send_by_signal_file_def Let_def
      split: sum.split option.split)

end
