(* ===== verification/Native_Tests.thy ===== *)
theory Native_Tests
  imports C_Memory Ipc Cli_Commands Gtk_Shell Test_Kit
begin

text \<open>
  The unit tests of the desktop side: \<open>native/shared/src\<close> (\<open>daemon.rs\<close>, \<open>signaling.rs\<close>,
  \<open>ipc.rs\<close>, \<open>lib.rs\<close>), \<open>native/linux/cli/src/main.rs\<close> and \<open>native/linux/gtk/src/main.rs\<close>,
  run on the model. Tests that only exercise external crates (the texts of decisions and of
  peers, command line parsing) are left out.
\<close>

section \<open>Finding the daemon\<close>

text \<open>
  The file system of a test is the list of the files it has touched; a path exists when it is
  one of them or a directory above one. \<open>lookup_tmp\<close> is a directory of the test's own.
\<close>

definition lookup_tmp :: "string \<Rightarrow> nat \<Rightarrow> nat \<Rightarrow> path" where
  "lookup_tmp tag pid n =
     Path True [''tmp'', ''bolt-lookup-'' @ tag @ ''-'' @ show_nat pid @ ''-'' @ show_nat n]"

definition touched :: "path list \<Rightarrow> path \<Rightarrow> bool" where
  "touched files p = list_ex (\<lambda>f. list_ex (\<lambda>a. path_text a = path_text p) (ancestors f)) files"

definition app_exe :: path where
  "app_exe = Path True [''Applications'', ''LocalBolt.app'', ''Contents'', ''MacOS'', ''LocalBolt'']"

definition lookup_has_no_stale_desktop_fallback :: "unit option" where
  "lookup_has_no_stale_desktop_fallback =
     assert_that (list_all (\<lambda>c. \<not> contains ''Desktop/the9ines.com'' (path_text c))
       (daemon_candidate_paths (Some app_exe) None))"

definition lookup_hardcodes_no_absolute_home :: "unit option" where
  "lookup_hardcodes_no_absolute_home =
     assert_that (list_all (\<lambda>c. \<not> contains ''/Users/oberfelder'' (path_text c))
       (daemon_candidate_paths (Some app_exe) None))"

definition lookup_finds_bundled_sidecar :: "unit option" where
  "lookup_finds_bundled_sidecar =
     do { let root = lookup_tmp ''bundle'' 1 0;
          let macos_dir = join root [''LocalBolt.app'', ''Contents'', ''MacOS''];
          let exe = join macos_dir [''LocalBolt''];
          let sidecar = join macos_dir [''bolt-daemon''];
          let found = resolve_daemon_binary (touched [exe, sidecar]) (Some exe) None;
          assert_that (found = Some sidecar) }"

definition lookup_finds_dev_repo_relative_daemon :: "unit option" where
  "lookup_finds_dev_repo_relative_daemon =
     do { let root = lookup_tmp ''dev'' 1 0;
          let exe = join root [''bolt-ecosystem'', ''localbolt-app'', ''native'', ''macos'', ''.build'', ''release'', ''LocalBolt''];
          let daemon = join root [''bolt-ecosystem'', ''bolt-daemon'', ''target'', ''release'', ''bolt-daemon''];
          let found = resolve_daemon_binary (touched [exe, daemon]) (Some exe) None;
          assert_that (found = Some daemon) }"

definition lookup_explicit_override_wins :: "unit option" where
  "lookup_explicit_override_wins =
     do { let root = lookup_tmp ''override'' 1 0;
          let macos_dir = join root [''LocalBolt.app'', ''Contents'', ''MacOS''];
          let exe = join macos_dir [''LocalBolt''];
          let sidecar = join macos_dir [''bolt-daemon''];
          let chosen = join root [''custom'', ''bolt-daemon''];
          let found = resolve_daemon_binary (touched [exe, sidecar, chosen]) (Some exe) (Some (path_text chosen));
          assert_that (map_option path_text found = Some (path_text chosen)) }"

definition lookup_returns_none_when_absent :: "unit option" where
  "lookup_returns_none_when_absent =
     do { let root = lookup_tmp ''absent'' 1 0;
          let exe = join root [''LocalBolt.app'', ''Contents'', ''MacOS'', ''LocalBolt''];
          assert_that (resolve_daemon_binary (touched [exe]) (Some exe) None = None) }"

definition spawn_args_use_ask_not_allow :: "unit option" where
  "spawn_args_use_ask_not_allow =
     do { let args = daemon_spawn_args ''0.0.0.0:9100'' ''/tmp/x.sock'' ''/tmp/data'';
          pos \<leftarrow> position (\<lambda>a. a = ''--pairing-policy'') args;
          assert_that (pos + 1 < length args \<and> args ! (pos + 1) = ''ask'');
          assert_that (''allow'' \<notin> set args) }"

section \<open>Peers across the C interface\<close>

text \<open>\<open>make_bolt_peer\<close> mirrors the allocations of \<open>bolt_signaling_get_peer\<close>.\<close>

definition make_bolt_peer :: "client_peer \<Rightarrow> heap \<Rightarrow> ptr \<times> heap" where
  "make_bolt_peer p h = alloc_peer (to_bolt_peer p) h"

definition deref :: "heap \<Rightarrow> ptr \<Rightarrow> c_peer option" where
  "deref h p = (case blocks h p of Some (CPeer c) \<Rightarrow> Some c | _ \<Rightarrow> None)"

definition browser_peer :: "string \<Rightarrow> string \<Rightarrow> string \<Rightarrow> client_peer" where
  "browser_peer code name kind =
     \<lparr>cp_peer_code = code, cp_device_name = name, cp_device_type = kind, cp_wt_url = None, cp_wt_cert_hash = None\<rparr>"

definition bolt_peer_without_wt_has_null_pointers :: "unit option" where
  "bolt_peer_without_wt_has_null_pointers =
     do { let (ptr, h) = make_bolt_peer (browser_peer ''BROWSER1'' ''Chrome'' ''browser'') heap_new;
          p \<leftarrow> deref h ptr;
          assert_that (c_peer_code p \<noteq> 0);
          assert_that (c_device_name p \<noteq> 0);
          assert_that (c_wt_url p = 0);
          assert_that (c_wt_cert_hash p = 0);
          _ \<leftarrow> bolt_peer_free ptr h;
          Some () }"

definition bolt_peer_with_wt_has_valid_pointers :: "unit option" where
  "bolt_peer_with_wt_has_valid_pointers =
     do { let (ptr, h) = make_bolt_peer
            \<lparr>cp_peer_code = ''NATIVE1'', cp_device_name = ''Mac Studio'', cp_device_type = ''desktop'',
             cp_wt_url = Some ''https://192.168.1.10:9871'', cp_wt_cert_hash = Some ''abcdef1234567890''\<rparr> heap_new;
          p \<leftarrow> deref h ptr;
          assert_that (c_wt_url p \<noteq> 0);
          assert_that (c_wt_cert_hash p \<noteq> 0);
          url \<leftarrow> string_at h (c_wt_url p);
          hash \<leftarrow> string_at h (c_wt_cert_hash p);
          assert_that (url = ''https://192.168.1.10:9871'');
          assert_that (hash = ''abcdef1234567890'');
          _ \<leftarrow> bolt_peer_free ptr h;
          Some () }"

fun poll_cycles :: "nat \<Rightarrow> client_peer \<Rightarrow> heap \<Rightarrow> heap option" where
  "poll_cycles 0 peer h = Some h"
| "poll_cycles (Suc n) peer h =
     (case make_bolt_peer peer h of
        (ptr, h) \<Rightarrow>
          do { p \<leftarrow> deref h ptr;
               assert_that (c_wt_url p = 0);
               assert_that (c_wt_cert_hash p = 0);
               h \<leftarrow> bolt_peer_free ptr h;
               poll_cycles n peer h })"

definition bolt_peer_repeated_construction_is_stable :: "unit option" where
  "bolt_peer_repeated_construction_is_stable =
     do { _ \<leftarrow> poll_cycles 50 (browser_peer ''REPEAT1'' ''Test'' ''browser'') heap_new; Some () }"

definition bolt_peer_with_nul_in_device_name_yields_null_ptr_no_abort :: "unit option" where
  "bolt_peer_with_nul_in_device_name_yields_null_ptr_no_abort =
     do { let (ptr, h) = make_bolt_peer (browser_peer ''GOODCODE'' (''Evil'' @ [CHR 0x00] @ ''Name'') ''browser'') heap_new;
          p \<leftarrow> deref h ptr;
          assert_that (c_device_name p = 0);
          assert_that (c_peer_code p \<noteq> 0);
          assert_that (c_device_type p \<noteq> 0);
          _ \<leftarrow> bolt_peer_free ptr h;
          Some () }"

definition bolt_peer_with_nul_in_peer_code_yields_null_ptr :: "unit option" where
  "bolt_peer_with_nul_in_peer_code_yields_null_ptr =
     do { let (ptr, h) = make_bolt_peer (browser_peer (''BAD'' @ [CHR 0x00] @ ''CODE'') ''Phone'' ''phone'') heap_new;
          p \<leftarrow> deref h ptr;
          assert_that (c_peer_code p = 0);
          assert_that (c_device_name p \<noteq> 0);
          _ \<leftarrow> bolt_peer_free ptr h;
          Some () }"

section \<open>Null handles\<close>

text \<open>The bridge of the first test cannot connect to the path it is given.\<close>

definition start_with_bad_path_returns_null :: "unit option" where
  "start_with_bad_path_returns_null =
     assert_that (bolt_ipc_start (\<lambda>path version. path \<noteq> ''/nonexistent/socket'')
       (Some ''/nonexistent/socket'') (Some ''0.1.0'') = None)"

definition stop_null_is_safe :: "unit option" where
  "stop_null_is_safe = assert_that (\<not> bolt_ipc_stop None)"

definition is_connected_null_returns_zero :: "unit option" where
  "is_connected_null_returns_zero = assert_that (bolt_ipc_is_connected None = 0)"

definition drain_events_null_returns_null :: "unit option" where
  "drain_events_null_returns_null = assert_that (fst (bolt_ipc_drain_events None) = None)"

definition free_null_is_safe :: "unit option" where
  "free_null_is_safe = do { _ \<leftarrow> bolt_free_string 0 heap_new; Some () }"

section \<open>Shells\<close>

definition pairing_choice_allow_once :: "unit option" where
  "pairing_choice_allow_once =
     do { assert_that (parse_pairing_choice (''y'' @ [CHR 0x0A]) = AllowOnce);
          assert_that (parse_pairing_choice ''Y'' = AllowOnce);
          assert_that (parse_pairing_choice ''yes'' = AllowOnce) }"

definition pairing_choice_allow_always_is_available :: "unit option" where
  "pairing_choice_allow_always_is_available =
     do { assert_that (parse_pairing_choice (''a'' @ [CHR 0x0A]) = AllowAlways);
          assert_that (parse_pairing_choice ''A'' = AllowAlways);
          assert_that (parse_pairing_choice ''always'' = AllowAlways) }"

definition pairing_choice_deny_always_is_available :: "unit option" where
  "pairing_choice_deny_always_is_available =
     do { assert_that (parse_pairing_choice (''d'' @ [CHR 0x0A]) = DenyAlways);
          assert_that (parse_pairing_choice ''never'' = DenyAlways) }"

definition pairing_choice_unknown_input_denies_once :: "unit option" where
  "pairing_choice_unknown_input_denies_once =
     assert_that (list_all (\<lambda>input. parse_pairing_choice input = DenyOnce)
       [[], [CHR 0x0A], ''n'', ''no'', ''maybe'', ''yolo'', ''   ''])"

definition cli_with :: "string option \<Rightarrow> string option \<Rightarrow> cli" where
  "cli_with socket dir = \<lparr>socket_path_arg = socket, data_dir_arg = dir, daemon_path_arg = None\<rparr>"

text \<open>The command line of the next two tests, as clap parses it; the default is the platform's.\<close>

definition resolve_socket_path_override :: "string \<Rightarrow> unit option" where
  "resolve_socket_path_override default_path =
     assert_that (resolve_socket_path default_path (cli_with (Some ''/tmp/custom.sock'') None) = ''/tmp/custom.sock'')"

definition resolve_data_dir_override :: "string \<Rightarrow> unit option" where
  "resolve_data_dir_override default_dir =
     assert_that (resolve_data_dir default_dir (cli_with None (Some ''/tmp/custom-data'')) = ''/tmp/custom-data'')"

definition format_bytes_units :: "unit option" where
  "format_bytes_units =
     do { assert_that (format_bytes 0 = ''0 B'');
          assert_that (format_bytes 512 = ''512 B'');
          assert_that (format_bytes 1024 = ''1.0 KB'');
          assert_that (format_bytes 1048576 = ''1.0 MB'');
          assert_that (format_bytes 1073741824 = ''1.0 GB'') }"

definition response_allow_once :: "unit option" where
  "response_allow_once = assert_that (pairing_decision_for_response ''accept'' = AllowOnce)"

definition response_allow_always_is_available :: "unit option" where
  "response_allow_always_is_available =
     assert_that (pairing_decision_for_response ''accept_always'' = AllowAlways)"

definition response_deny_always_is_available :: "unit option" where
  "response_deny_always_is_available =
     assert_that (pairing_decision_for_response ''decline_always'' = DenyAlways)"

definition response_decline_denies_once :: "unit option" where
  "response_decline_denies_once = assert_that (pairing_decision_for_response ''decline'' = DenyOnce)"

definition unknown_or_dismissed_response_denies_once :: "unit option" where
  "unknown_or_dismissed_response_denies_once =
     assert_that (list_all (\<lambda>response. pairing_decision_for_response response = DenyOnce)
       [[], ''close'', ''whatever'', ''ACCEPT''])"

section \<open>They pass\<close>

lemma lookup_stale: "passes lookup_has_no_stale_desktop_fallback" "passes lookup_hardcodes_no_absolute_home"
  by code_simp+

lemma lookup_bundle: "passes lookup_finds_bundled_sidecar"
  by code_simp+

lemma lookup_dev: "passes lookup_finds_dev_repo_relative_daemon"
  by code_simp+

lemma lookup_override: "passes lookup_explicit_override_wins"
  by code_simp+

lemma lookup_absent: "passes lookup_returns_none_when_absent" "passes spawn_args_use_ask_not_allow"
  by code_simp+

text \<open>Any number of cycles leaves the heap as it was, with nothing leaked.\<close>

lemma bolt_peer_free_next: "bolt_peer_free p h = Some h' \<Longrightarrow> next_ptr h' = next_ptr h"
proof -
  have free1: "bolt_free_string q g = Some g' \<Longrightarrow> next_ptr g' = next_ptr g" for q g g'
    by (auto simp: bolt_free_string_def release_def split: if_splits option.splits block.splits)
  have fails: "fold (\<lambda>p r. Option.bind r (bolt_free_string p)) ps None = None" for ps
    by (induction ps) auto
  have fields: "free_fields ps g = Some g' \<Longrightarrow> next_ptr g' = next_ptr g" for ps g g'
  proof (induction ps arbitrary: g)
    case (Cons q ps)
    then obtain g1 where "bolt_free_string q g = Some g1" "free_fields ps g1 = Some g'"
      by (cases "bolt_free_string q g") (auto simp: free_fields_def fails)
    with Cons.IH free1 show ?case by metis
  qed (simp add: free_fields_def)
  assume "bolt_peer_free p h = Some h'"
  then show ?thesis
    by (auto simp: bolt_peer_free_def release_def dest: fields split: if_splits option.splits block.splits)
qed

lemma poll_cycle:
  assumes "heap_ok h" "cp_wt_url peer = None" "cp_wt_cert_hash peer = None"
  shows "\<exists>h'. poll_cycles (Suc n) peer h = poll_cycles n peer h' \<and> heap_ok h' \<and> blocks h' = blocks h"
proof -
  obtain p h1 where al: "alloc_peer (to_bolt_peer peer) h = (p, h1)" by fastforce
  from alloc_peer_effect [OF assms(1) al] obtain c where
    p: "p \<noteq> 0" "blocks h p = None" "blocks h1 p = Some (CPeer c)" "peer_at h1 p = Some (to_bolt_peer peer)"
      "heap_ok h1"
    and f: "\<forall>q\<in>set (field_ptrs c) - {0}. blocks h q = None \<and> (\<exists>s. blocks h1 q = Some (CStr s))"
    and dist: "distinct (filter (\<lambda>q. q \<noteq> 0) (field_ptrs c))"
    and same: "\<forall>q. q \<notin> insert p (set (field_ptrs c) - {0}) \<longrightarrow> blocks h1 q = blocks h q" .
  have "string_at h1 (c_wt_url c) = None" "string_at h1 (c_wt_cert_hash c) = None"
    using p(3,4) assms(2,3) by (auto simp: peer_at_def to_bolt_peer_def)
  moreover have "q = 0" if "q \<in> set (field_ptrs c)" "string_at h1 q = None" for q
  proof (rule ccontr)
    assume "q \<noteq> 0"
    with that(1) f obtain t where "blocks h1 q = Some (CStr t)" by blast
    with that(2) show False by (simp add: string_at_def)
  qed
  ultimately have null: "c_wt_url c = 0" "c_wt_cert_hash c = 0" by simp_all
  obtain h2 where h2: "bolt_peer_free p h1 = Some h2"
    "blocks h2 = blocks h1 |` (- insert p (set (field_ptrs c) - {0}))"
    using bolt_peer_free_release [OF p(1,3) _ dist] f by blast
  have restored: "blocks h2 = blocks h"
    using h2(2) same p(2) f by (auto simp: restrict_map_def fun_eq_iff)
  moreover have "heap_ok h2"
    using p(5) bolt_peer_free_next [OF h2(1)] h2(2) unfolding heap_ok_def by (auto simp: restrict_map_def)
  moreover have "poll_cycles (Suc n) peer h = poll_cycles n peer h2"
    by (simp add: make_bolt_peer_def al deref_def p(3) null h2(1) test_simps)
  ultimately show ?thesis by blast
qed

lemma poll_cycles_stable:
  assumes "heap_ok h" "cp_wt_url peer = None" "cp_wt_cert_hash peer = None"
  shows "\<exists>h'. poll_cycles n peer h = Some h' \<and> blocks h' = blocks h"
  using assms
proof (induction n arbitrary: h)
  case (Suc n)
  from poll_cycle [OF Suc.prems, of n] obtain h1 where
    "poll_cycles (Suc n) peer h = poll_cycles n peer h1" "heap_ok h1" "blocks h1 = blocks h" by blast
  with Suc.IH [OF _ Suc.prems(2,3)] show ?case by metis
qed simp

lemma cycles_test: "passes bolt_peer_repeated_construction_is_stable"
proof -
  have "heap_ok heap_new" by (simp add: heap_ok_def heap_new_def)
  then obtain h where "poll_cycles 50 (browser_peer ''REPEAT1'' ''Test'' ''browser'') heap_new = Some h"
    using poll_cycles_stable [of heap_new "browser_peer ''REPEAT1'' ''Test'' ''browser''" 50]
    by (auto simp: browser_peer_def)
  then show ?thesis by (simp add: bolt_peer_repeated_construction_is_stable_def test_simps)
qed

lemma peer_tests:
  "passes bolt_peer_without_wt_has_null_pointers" "passes bolt_peer_with_wt_has_valid_pointers"
  "passes bolt_peer_with_nul_in_device_name_yields_null_ptr_no_abort"
  "passes bolt_peer_with_nul_in_peer_code_yields_null_ptr"
  by code_simp+

lemma null_tests:
  "passes start_with_bad_path_returns_null" "passes stop_null_is_safe" "passes is_connected_null_returns_zero"
  "passes drain_events_null_returns_null" "passes free_null_is_safe"
  by code_simp+

lemma choice_texts:
  "to_ascii_lowercase [] = []" "to_ascii_lowercase ''Y'' = ''y''" "to_ascii_lowercase ''A'' = ''a''"
  "to_ascii_lowercase ''y'' = ''y''" "to_ascii_lowercase ''a'' = ''a''" "to_ascii_lowercase ''d'' = ''d''"
  "to_ascii_lowercase ''yes'' = ''yes''" "to_ascii_lowercase ''always'' = ''always''"
  "to_ascii_lowercase ''never'' = ''never''" "to_ascii_lowercase ''n'' = ''n''"
  "to_ascii_lowercase ''no'' = ''no''" "to_ascii_lowercase ''maybe'' = ''maybe''"
  "to_ascii_lowercase ''yolo'' = ''yolo''"
  by code_simp+

lemma choice_tests:
  "passes pairing_choice_allow_once" "passes pairing_choice_allow_always_is_available"
  "passes pairing_choice_deny_always_is_available" "passes pairing_choice_unknown_input_denies_once"
  unfolding pairing_choice_allow_once_def pairing_choice_allow_always_is_available_def
    pairing_choice_deny_always_is_available_def pairing_choice_unknown_input_denies_once_def
  by (simp_all add: parse_pairing_choice_def trim_visible trim_line [of "[_]", simplified] trim_blank
      choice_texts test_simps)

lemma size_texts:
  "show_nat 0 = ''0''" "show_nat (Suc 0) = ''1''" "show_nat 512 = ''512''"
  by code_simp+

lemma size_test: "passes format_bytes_units"
  by (simp add: format_bytes_units_def format_bytes_def f64_small GB_def MB_def KB_def show_tenths_def
      round_half_even_def size_texts test_simps)

lemma override_tests: "passes (resolve_socket_path_override d)" "passes (resolve_data_dir_override d)"
  by (simp_all add: resolve_socket_path_override_def resolve_data_dir_override_def resolve_socket_path_def
      resolve_data_dir_def cli_with_def unwrap_or_def test_simps)

lemma response_tests:
  "passes response_allow_once" "passes response_allow_always_is_available"
  "passes response_deny_always_is_available" "passes response_decline_denies_once"
  "passes unknown_or_dismissed_response_denies_once"
  by code_simp+

text \<open>The tests of this file, and that they all pass.\<close>

definition native_tests :: "string \<Rightarrow> unit option list" where
  "native_tests platform =
    [lookup_has_no_stale_desktop_fallback, lookup_hardcodes_no_absolute_home, lookup_finds_bundled_sidecar,
      lookup_finds_dev_repo_relative_daemon, lookup_explicit_override_wins, lookup_returns_none_when_absent,
      spawn_args_use_ask_not_allow, bolt_peer_without_wt_has_null_pointers,
      bolt_peer_with_wt_has_valid_pointers, bolt_peer_repeated_construction_is_stable,
      bolt_peer_with_nul_in_device_name_yields_null_ptr_no_abort,
      bolt_peer_with_nul_in_peer_code_yields_null_ptr, start_with_bad_path_returns_null, stop_null_is_safe,
      is_connected_null_returns_zero, drain_events_null_returns_null, free_null_is_safe,
      pairing_choice_allow_once, pairing_choice_allow_always_is_available,
      pairing_choice_deny_always_is_available, pairing_choice_unknown_input_denies_once, resolve_socket_path_override platform,
      resolve_data_dir_override platform, format_bytes_units,
      response_allow_once, response_allow_always_is_available, response_deny_always_is_available,
      response_decline_denies_once, unknown_or_dismissed_response_denies_once]"

lemma native_tests_pass: "list_all passes (native_tests platform)"
  unfolding native_tests_def
  by (simp add: lookup_stale lookup_bundle lookup_dev lookup_override lookup_absent peer_tests cycles_test
      null_tests choice_tests override_tests size_test response_tests)

end
