(* ===== verification/Mac_Session.thy ===== *)
theory Mac_Session
  imports Ipc Shells
begin

text \<open>
  The session manager of the macOS application, \<open>IpcManager\<close> and \<open>PinStore\<close> of
  \<open>native/macos/Sources/LocalBolt/BoltBridge.swift\<close>: the phases of a session and of a transfer,
  what the events of the daemon do to them, how far a peer is trusted and when files may be
  sent. It reads the daemon's events through the C interface of \<open>Ipc\<close>. Foundation's JSON
  reader is a parameter: the event in a line, and the fields of its payload by the Swift type they are
  cast to. \<open>None\<close> as the result of an operation is a Swift run-time trap.
\<close>

section \<open>State\<close>

datatype trust_state = Unverified string | Verified | Legacy | Mismatch string string

record peer_session =
  ses_peer_code :: string
  ses_device_name :: string
  ses_device_type :: string
  trust :: trust_state
  identity_key :: "string option"

record pairing_prompt =
  pp_request_id :: string
  pp_device_name :: string
  pp_device_type :: string
  pp_sas :: string

record discovered_peer =
  dp_peer_code :: string
  dp_device_name :: string
  dp_device_type :: string

datatype session_phase =
  SessionIdle | Requesting | IncomingRequest | Connecting | Connected | Disconnected string

datatype 'f transfer_phase =
    TransferIdle
  | Sending string string 'f
  | Receiving string string 'f
  | Complete string "string option"
  | Failed string string

text \<open>
  \<open>PinStore.pins\<close>: the device name by identity key, in the dictionary's iteration order. The
  field \<open>verified\<close>, which nothing reads, and the date are only in its file. \<open>generation\<close> is a 64-bit counter
  that traps on overflow, after more resets than can happen; it is a number here.
\<close>

type_synonym pins = "(string \<times> string option) list"

record 'f ipc_manager =
  is_connected :: bool
  pending_request :: "pairing_prompt option"
  session_phase :: session_phase
  connected_peer :: "peer_session option"
  connected_peer_count :: u32
  transfer :: "'f transfer_phase"
  transfer_size :: u64
  transfer_paused :: bool
  generation :: nat
  pending_accept :: "peer_session option"
  pending_initiator :: "discovered_peer option"
  pin_store :: "pins option"
  ipc_handle :: "bolt_ipc option"

definition manager_new :: "pins option \<Rightarrow> bolt_ipc option \<Rightarrow> 'f ipc_manager" where
  "manager_new pins h =
     \<lparr>is_connected = (h \<noteq> None), pending_request = None, session_phase = SessionIdle, connected_peer = None,
      connected_peer_count = 0, transfer = TransferIdle, transfer_size = 0, transfer_paused = False,
      generation = 0, pending_accept = None, pending_initiator = None, pin_store = pins, ipc_handle = h\<rparr>"

definition can_start_fresh :: "session_phase \<Rightarrow> bool" where
  "can_start_fresh p = (case p of SessionIdle \<Rightarrow> True | Disconnected _ \<Rightarrow> True | _ \<Rightarrow> False)"

definition is_active :: "'f transfer_phase \<Rightarrow> bool" where
  "is_active t = (case t of Sending _ _ _ \<Rightarrow> True | Receiving _ _ _ \<Rightarrow> True | _ \<Rightarrow> False)"

definition is_transfer_allowed :: "session_phase \<Rightarrow> trust_state \<Rightarrow> bool" where
  "is_transfer_allowed p t =
     (if p \<noteq> Connected then False
      else case t of Verified \<Rightarrow> True | Legacy \<Rightarrow> True | Unverified _ \<Rightarrow> False | Mismatch _ _ \<Rightarrow> False)"

section \<open>Phases\<close>

definition reset_session :: "'f ipc_manager \<Rightarrow> 'f ipc_manager" where
  "reset_session m =
     m\<lparr>generation := generation m + 1, session_phase := SessionIdle, connected_peer := None,
       connected_peer_count := 0, transfer := TransferIdle, transfer_size := 0, transfer_paused := False,
       pending_request := None, pending_accept := None, pending_initiator := None\<rparr>"

definition disconnect_session :: "string \<Rightarrow> 'f ipc_manager \<Rightarrow> 'f ipc_manager" where
  "disconnect_session reason m =
     m\<lparr>session_phase := Disconnected reason, connected_peer := None,
       connected_peer_count := 0, transfer := TransferIdle, transfer_size := 0, transfer_paused := False,
       pending_request := None, pending_accept := None, pending_initiator := None\<rparr>"

definition dismiss_disconnect :: "'f ipc_manager \<Rightarrow> 'f ipc_manager" where
  "dismiss_disconnect m = (case session_phase m of Disconnected _ \<Rightarrow> reset_session m | _ \<Rightarrow> m)"

definition begin_request :: "discovered_peer \<Rightarrow> 'f ipc_manager \<Rightarrow> bool \<times> 'f ipc_manager" where
  "begin_request peer m =
     (let m = dismiss_disconnect m
      in if session_phase m \<noteq> SessionIdle then (False, m)
         else (True, m\<lparr>session_phase := Requesting, pending_initiator := Some peer\<rparr>))"

definition receive_request :: "'f ipc_manager \<Rightarrow> bool \<times> 'f ipc_manager" where
  "receive_request m =
     (let m = dismiss_disconnect m
      in if session_phase m \<noteq> SessionIdle then (False, m)
         else (True, m\<lparr>session_phase := IncomingRequest\<rparr>))"

definition begin_connecting :: "'f ipc_manager \<Rightarrow> bool \<times> 'f ipc_manager" where
  "begin_connecting m =
     (if session_phase m = Requesting \<or> session_phase m = IncomingRequest
      then (True, m\<lparr>session_phase := Connecting\<rparr>) else (False, m))"

definition mark_connected :: "'f ipc_manager \<Rightarrow> bool \<times> 'f ipc_manager" where
  "mark_connected m =
     (if session_phase m \<noteq> Connecting then (False, m) else (True, m\<lparr>session_phase := Connected\<rparr>))"

definition clear_transfer :: "'f ipc_manager \<Rightarrow> 'f ipc_manager" where
  "clear_transfer m = m\<lparr>transfer := TransferIdle, transfer_size := 0, transfer_paused := False\<rparr>"

text \<open>
  One attempt to reach the daemon, with what \<open>bolt_ipc_start\<close> gives: the state and the number of the
  attempt to make half a second later.
\<close>

definition start_attempt :: "nat \<Rightarrow> bolt_ipc option \<Rightarrow> 'f ipc_manager \<Rightarrow> nat option \<times> 'f ipc_manager" where
  "start_attempt n result m =
     (case result of
        Some h \<Rightarrow> (None, m\<lparr>ipc_handle := Some h, is_connected := True\<rparr>)
      | None \<Rightarrow> if n < 5 then (Some (n + 1), m) else (None, m\<lparr>is_connected := False\<rparr>))"

text \<open>\<open>start\<close> reads the pins of the data directory once and does nothing with a handle at hand.\<close>

definition start_ipc ::
    "pins option \<Rightarrow> bolt_ipc option \<Rightarrow> 'f ipc_manager \<Rightarrow> nat option \<times> 'f ipc_manager" where
  "start_ipc stored result m =
     (let m = (if pin_store m = None then m\<lparr>pin_store := stored\<rparr> else m)
      in if ipc_handle m \<noteq> None then (None, m) else start_attempt 1 result m)"

definition stop_ipc :: "'f ipc_manager \<Rightarrow> 'f ipc_manager" where
  "stop_ipc m = reset_session (m\<lparr>ipc_handle := None, is_connected := False\<rparr>)"

section \<open>Trust\<close>

definition set_trust :: "trust_state \<Rightarrow> 'f ipc_manager \<Rightarrow> 'f ipc_manager" where
  "set_trust t m = m\<lparr>connected_peer := map_option (\<lambda>p. p\<lparr>trust := t\<rparr>) (connected_peer m)\<rparr>"

definition set_identity :: "string \<Rightarrow> 'f ipc_manager \<Rightarrow> 'f ipc_manager" where
  "set_identity key m = m\<lparr>connected_peer := map_option (\<lambda>p. p\<lparr>identity_key := Some key\<rparr>) (connected_peer m)\<rparr>"

definition mark_verified :: "'f ipc_manager \<Rightarrow> 'f ipc_manager" where
  "mark_verified m = set_trust Verified m"

text \<open>Identity keys are base64, so that their first twelve characters are bytes.\<close>

definition check_mismatch :: "string \<Rightarrow> string \<Rightarrow> pins \<Rightarrow> string option" where
  "check_mismatch key name pins =
     (case List.find (\<lambda>(k, n). n = Some name \<and> k \<noteq> key) pins of
        None \<Rightarrow> None
      | Some (k, _) \<Rightarrow> Some (take 12 k @ ''...''))"

definition pin :: "string \<Rightarrow> string option \<Rightarrow> pins \<Rightarrow> pins" where
  "pin key name pins = (if map_of pins key \<noteq> None then pins else pins @ [(key, name)])"

text \<open>
  The file of the pins. Of the date only the form matters: \<open>save\<close> writes dates as ISO 8601 text, and
  \<open>load\<close>, whose decoder has no date strategy set, takes numbers only; a file with one entry it cannot
  decode gives no pins. Whether anything trusts a stored \<open>verified\<close> flag is \<open>is_verified\<close>.
\<close>

datatype date_form = DateText | DateNumber

type_synonym pin_file = "(string \<times> bool \<times> date_form \<times> string option) list"

definition save_pins :: "pins \<Rightarrow> pin_file" where
  "save_pins ps = List.map (\<lambda>(k, n). (k, False, DateText, n)) ps"

definition load_pins :: "pin_file option \<Rightarrow> pins" where
  "load_pins file =
     (case file of
        None \<Rightarrow> []
      | Some es \<Rightarrow>
          if list_all (\<lambda>(_, _, date, _). date = DateNumber) es then List.map (\<lambda>(k, _, _, n). (k, n)) es else [])"

definition is_verified :: "string \<Rightarrow> pins \<Rightarrow> bool" where
  "is_verified key pins = False"

definition pin_mark_verified :: "string \<Rightarrow> string option \<Rightarrow> pins \<Rightarrow> pins" where
  "pin_mark_verified key name pins = pins"

section \<open>Decisions\<close>

definition wire_value :: "decision \<Rightarrow> string" where
  "wire_value d =
     (case d of AllowOnce \<Rightarrow> ''allow_once'' | AllowAlways \<Rightarrow> ''allow_always''
      | DenyOnce \<Rightarrow> ''deny_once'' | DenyAlways \<Rightarrow> ''deny_always'')"

definition is_allow :: "decision \<Rightarrow> bool" where
  "is_allow d = (case d of AllowOnce \<Rightarrow> True | AllowAlways \<Rightarrow> True | DenyOnce \<Rightarrow> False | DenyAlways \<Rightarrow> False)"

text \<open>The payload is the text with both strings in place; a C string ends at the first NUL.\<close>

definition in_quotes :: "string \<Rightarrow> string" where
  "in_quotes s = [CHR 0x22] @ s @ [CHR 0x22]"

definition decision_payload :: "string \<Rightarrow> decision \<Rightarrow> string" where
  "decision_payload request_id d =
     ''{'' @ in_quotes ''request_id'' @ '':'' @ in_quotes request_id @ '','' @
     in_quotes ''decision'' @ '':'' @ in_quotes (wire_value d) @ ''}''"

definition with_c_string :: "string \<Rightarrow> string" where
  "with_c_string s = takeWhile (\<lambda>c. c \<noteq> CHR 0x00) s"

definition send_pairing_decision ::
    "(string \<Rightarrow> 'j option) \<Rightarrow> (string \<Rightarrow> 'j \<Rightarrow> bool) \<Rightarrow> string \<Rightarrow> decision \<Rightarrow> 'f ipc_manager \<Rightarrow>
     (string \<times> 'j) option \<times> 'f ipc_manager" where
  "send_pairing_decision from_str bridge_send request_id d m =
     (case ipc_handle m of
        None \<Rightarrow> (None, m)
      | Some h \<Rightarrow>
          (let sent = snd (bolt_ipc_send_decision from_str bridge_send (Some h) (Some ''pairing.decision'')
                 (Some (with_c_string (decision_payload request_id d))));
               m1 = (case (is_allow d, pending_request m) of
                  (True, Some req) \<Rightarrow>
                    m\<lparr>pending_accept := Some
                      \<lparr>ses_peer_code = pp_request_id req, ses_device_name = pp_device_name req,
                       ses_device_type = pp_device_type req,
                       trust = (if pp_sas req = [] then Legacy else Unverified (pp_sas req)),
                       identity_key = None\<rparr>\<rparr>
                | _ \<Rightarrow> m)
           in (sent, m1\<lparr>pending_request := None\<rparr>)))"


section \<open>Events of the daemon\<close>

text \<open>
  \<open>payload[k] as? String\<close>, \<open>as? Int\<close>, \<open>(as? NSNumber)?.uint64Value\<close> and \<open>.floatValue\<close>; the type of floats
  is a parameter with its zero.
\<close>

record ('j, 'f) payload_view =
  str_at :: "'j \<Rightarrow> string \<Rightarrow> string option"
  int_at :: "'j \<Rightarrow> string \<Rightarrow> int option"
  u64_at :: "'j \<Rightarrow> string \<Rightarrow> u64 option"
  float_at :: "'j \<Rightarrow> string \<Rightarrow> 'f option"
  zero_float :: 'f

definition on_pairing_request :: "('j, 'f) payload_view \<Rightarrow> 'j \<Rightarrow> 'f ipc_manager \<Rightarrow> 'f ipc_manager" where
  "on_pairing_request view p m =
     m\<lparr>pending_request := Some
       \<lparr>pp_request_id = unwrap_or (str_at view p ''request_id'') [],
        pp_device_name = unwrap_or (str_at view p ''remote_device_name'') ''Unknown Device'',
        pp_device_type = unwrap_or (str_at view p ''remote_device_type'') ''desktop'',
        pp_sas = unwrap_or (str_at view p ''sas'') []\<rparr>\<rparr>"

text \<open>\<open>UInt32(n)\<close> traps when \<open>n\<close> is out of range.\<close>

definition on_status_update ::
    "('j, 'f) payload_view \<Rightarrow> 'j \<Rightarrow> 'f ipc_manager \<Rightarrow> 'f ipc_manager option" where
  "on_status_update view p m =
     (let n = unwrap_or (int_at view p ''connected_peers'') 0
      in if n < 0 \<or> n \<ge> 2 ^ 32 then None
         else let m = m\<lparr>connected_peer_count := of_int n\<rparr>
              in Some (if connected_peer_count m = 0 \<and> session_phase m = Connected
                       then disconnect_session ''peer disconnected'' m else m))"

text \<open>The peer of a session that has just been confirmed, by who started it.\<close>

definition resolve_peer :: "string option \<Rightarrow> 'f ipc_manager \<Rightarrow> 'f ipc_manager" where
  "resolve_peer remote m =
     (case pending_accept m of
        Some pending \<Rightarrow>
          m\<lparr>connected_peer := Some (pending\<lparr>identity_key := remote\<rparr>), pending_accept := None\<rparr>
      | None \<Rightarrow>
          (case pending_initiator m of
             Some target \<Rightarrow>
               m\<lparr>connected_peer := Some
                 \<lparr>ses_peer_code = unwrap_or remote (dp_peer_code target), ses_device_name = dp_device_name target,
                  ses_device_type = dp_device_type target, trust = Legacy, identity_key = remote\<rparr>,
                 pending_initiator := None\<rparr>
           | None \<Rightarrow>
               (case remote of
                  Some code \<Rightarrow>
                    m\<lparr>connected_peer := Some
                      \<lparr>ses_peer_code = code, ses_device_name = ''Peer'', ses_device_type = ''desktop'',
                       trust = Legacy, identity_key = remote\<rparr>\<rparr>
                | None \<Rightarrow> m)))"

definition on_session_connected :: "('j, 'f) payload_view \<Rightarrow> 'j \<Rightarrow> 'f ipc_manager \<Rightarrow> 'f ipc_manager" where
  "on_session_connected view p m =
     (case mark_connected (snd (begin_connecting m)) of
        (True, m) \<Rightarrow> resolve_peer (str_at view p ''remote_peer_id'') m
      | (False, m) \<Rightarrow> m)"

definition on_session_sas :: "('j, 'f) payload_view \<Rightarrow> 'j \<Rightarrow> 'f ipc_manager \<Rightarrow> 'f ipc_manager" where
  "on_session_sas view p m =
     (case str_at view p ''sas'' of
        None \<Rightarrow> m
      | Some sas \<Rightarrow>
          (let key = (case str_at view p ''remote_identity_pk_b64'' of
                 Some k \<Rightarrow> Some k | None \<Rightarrow> Option.bind (connected_peer m) identity_key);
               name = map_option ses_device_name (connected_peer m);
               old = Option.bind key (\<lambda>k. Option.bind name (\<lambda>n. Option.bind (pin_store m) (check_mismatch k n)))
           in case (old, key, name) of
                (Some shown, Some k, Some n) \<Rightarrow> set_identity k (set_trust (Mismatch n shown) m)
              | _ \<Rightarrow>
                  (let m = set_trust (Unverified sas) m
                   in case key of
                        None \<Rightarrow> m
                      | Some k \<Rightarrow> (set_identity k m)\<lparr>pin_store := map_option (pin k name) (pin_store m)\<rparr>)))"

definition on_transfer_started :: "('j, 'f) payload_view \<Rightarrow> 'j \<Rightarrow> 'f ipc_manager \<Rightarrow> 'f ipc_manager" where
  "on_transfer_started view p m =
     (let name = unwrap_or (str_at view p ''file_name'') ''file'';
          ident = unwrap_or (str_at view p ''transfer_id'') [];
          direction = unwrap_or (str_at view p ''direction'') ''send''
      in m\<lparr>transfer_size := unwrap_or (u64_at view p ''file_size_bytes'') 0,
           transfer := (if direction = ''receive'' then Receiving name ident (zero_float view)
                        else Sending name ident (zero_float view))\<rparr>)"

definition on_transfer_progress :: "('j, 'f) payload_view \<Rightarrow> 'j \<Rightarrow> 'f ipc_manager \<Rightarrow> 'f ipc_manager" where
  "on_transfer_progress view p m =
     (let progress = unwrap_or (float_at view p ''progress'') (zero_float view);
          ident = unwrap_or (str_at view p ''transfer_id'') []
      in case transfer m of
           Sending name _ _ \<Rightarrow> m\<lparr>transfer := Sending name ident progress\<rparr>
         | Receiving name _ _ \<Rightarrow> m\<lparr>transfer := Receiving name ident progress\<rparr>
         | _ \<Rightarrow> m)"

definition reason_of :: "('j, 'f) payload_view \<Rightarrow> 'j \<Rightarrow> string" where
  "reason_of view p = unwrap_or (str_at view p ''reason'') ''unknown''"

definition daemon_event ::
    "('j, 'f) payload_view \<Rightarrow> string \<Rightarrow> 'j \<Rightarrow> 'f ipc_manager \<Rightarrow> 'f ipc_manager option" where
  "daemon_event view event p m =
     (if event = ''daemon://pairing-request'' then Some (on_pairing_request view p m)
      else if event = ''daemon://status-update'' then on_status_update view p m
      else if event = ''daemon://session-connected'' then Some (on_session_connected view p m)
      else if event = ''daemon://session-sas'' then Some (on_session_sas view p m)
      else if event = ''daemon://session-ended'' \<or> event = ''daemon://session-error''
        then Some (disconnect_session (reason_of view p) m)
      else if event = ''daemon://transfer-started'' then Some (on_transfer_started view p m)
      else if event = ''daemon://transfer-progress'' then Some (on_transfer_progress view p m)
      else if event = ''daemon://transfer-complete'' then
        Some (m\<lparr>transfer := Complete (unwrap_or (str_at view p ''file_name'') ''file'') (str_at view p ''save_path'')\<rparr>)
      else if event = ''daemon://transfer-error'' then
        Some (m\<lparr>transfer := Failed (unwrap_or (str_at view p ''file_name'') ''file'') (reason_of view p)\<rparr>)
      else if event = ''daemon://transfer-paused'' then Some (m\<lparr>transfer_paused := True\<rparr>)
      else if event = ''daemon://transfer-resumed'' then Some (m\<lparr>transfer_paused := False\<rparr>)
      else if event = ''daemon://bridge-disconnected'' then
        Some (stop_ipc (disconnect_session ''bridge lost'' (m\<lparr>is_connected := False\<rparr>)))
      else Some m)"

text \<open>
  One poll: what has been drained is split at line breaks without empty pieces, lines that are
  no event are skipped, and the rest of the batch is dropped once the session has been reset.
\<close>

fun daemon_lines ::
    "('j, 'f) payload_view \<Rightarrow> (string \<Rightarrow> (string \<times> 'j) option) \<Rightarrow> nat \<Rightarrow> string list \<Rightarrow>
     'f ipc_manager \<Rightarrow> 'f ipc_manager option" where
  "daemon_lines view parse gen [] m = Some m"
| "daemon_lines view parse gen (l # ls) m =
     (if generation m \<noteq> gen then Some m
      else case parse l of
             None \<Rightarrow> daemon_lines view parse gen ls m
           | Some (event, p) \<Rightarrow>
               (case daemon_event view event p m of
                  None \<Rightarrow> None
                | Some m' \<Rightarrow> daemon_lines view parse gen ls m'))"

definition poll_session ::
    "('j, 'f) payload_view \<Rightarrow> (string \<Rightarrow> (string \<times> 'j) option) \<Rightarrow> 'f ipc_manager \<Rightarrow> 'f ipc_manager option" where
  "poll_session view parse m =
     (case ipc_handle m of
        None \<Rightarrow> Some m
      | Some h \<Rightarrow>
          (let m = m\<lparr>is_connected := (bolt_ipc_is_connected (Some h) = 1)\<rparr>
           in case bolt_ipc_drain_events (Some h) of
                (None, h') \<Rightarrow> Some (m\<lparr>ipc_handle := h'\<rparr>)
              | (Some raw, h') \<Rightarrow>
                  daemon_lines view parse (generation m) (filter (\<lambda>l. l \<noteq> []) (split_on newline raw))
                    (m\<lparr>ipc_handle := h'\<rparr>)))"

end
