(* ===== verification/Mac_App.thy ===== *)
theory Mac_App
  imports Mac_Session
begin

text \<open>
  The macOS application around its session manager,
  \<open>native/macos/Sources/LocalBolt/LocalBoltApp.swift\<close>: the signals of remote peers, the sessions
  that are seen in the daemon's output only, and the buttons, each where its view offers it.
  Everything runs on the main thread, so that a run is a list of actions; views react to a change
  before the next action. What the views look like and their animations are left out.
\<close>

section \<open>State and actions\<close>

datatype daemon_call =
    ConnectRemote string "string option" "string option"
  | AllowQuic "string option"
  | RequestDisconnect
  | SendFile string
  | PauseTransfer
  | ResumeTransfer

record 'f mac_app =
  ipc :: "'f ipc_manager"
  incoming :: "(string \<times> string \<times> string \<times> string option) option"
  daemon_calls :: "daemon_call list"
  signals_sent :: "(string \<times> string) list"
  file_queue :: "string list"

definition mac_new :: "'f ipc_manager \<Rightarrow> 'f mac_app" where
  "mac_new m = \<lparr>ipc = m, incoming = None, daemon_calls = [], signals_sent = [], file_queue = []\<rparr>"

text \<open>\<open>signal.data[k] as? String\<close> is a map.\<close>

datatype 'j mac_action =
    IpcStart "pin_file option option" "bolt_ipc option"
  | IpcRetry nat "bolt_ipc option"
  | DaemonEvent string 'j
  | Poll
  | RemoteSignal string string "string \<rightharpoonup> string"
  | WtSession bool "string option"
  | WtSas "string option"
  | UserConnect discovered_peer
  | UserCancel
  | UserDecline
  | UserAccept
  | UserDecide decision
  | UserApprove
  | UserDisconnect string
  | UserDismiss
  | UserQueue string
  | UserUnqueue nat
  | UserClearQueue
  | UserTransfer
  | UserPause

record ('j, 'f) mac_env =
  env_view :: "('j, 'f) payload_view"
  event_text :: "string \<Rightarrow> 'j \<Rightarrow> string option"
  event_of :: "string \<Rightarrow> (string \<times> 'j) option"
  decision_of :: "string \<Rightarrow> 'j option"
  bridge_takes :: "string \<Rightarrow> 'j \<Rightarrow> bool"

abbreviation set_ipc :: "'f ipc_manager \<Rightarrow> 'f mac_app \<Rightarrow> 'f mac_app" where
  "set_ipc m a \<equiv> a\<lparr>ipc := m\<rparr>"

section \<open>Signals of remote peers\<close>

definition on_signal :: "string \<Rightarrow> string \<Rightarrow> (string \<rightharpoonup> string) \<Rightarrow> 'f mac_app \<Rightarrow> 'f mac_app" where
  "on_signal from kind data a =
     (if kind = ''connection_request'' then
        (case receive_request (ipc a) of
           (False, m) \<Rightarrow> set_ipc m a
         | (True, m) \<Rightarrow>
             a\<lparr>ipc := m,
               incoming := Some (from, unwrap_or (data ''deviceName'') ''Unknown Device'',
                                 unwrap_or (data ''deviceType'') ''desktop'', data ''quicCertHash'')\<rparr>)
      else if kind = ''connection_accepted'' then
        (case begin_connecting (ipc a) of
           (False, m) \<Rightarrow> set_ipc m a
         | (True, m) \<Rightarrow>
             a\<lparr>ipc := m,
               daemon_calls := daemon_calls a @
                 (case data ''wsUrl'' of
                    None \<Rightarrow> []
                  | Some url \<Rightarrow> if url = [] then []
                      else [ConnectRemote url (data ''quicAddr'') (data ''quicCertHash'')])\<rparr>)
      else if kind = ''connection_declined'' then set_ipc (reset_session (ipc a)) a
      else a)"

section \<open>Sessions seen in the daemon's output\<close>

definition apply_wt_code :: "string option \<Rightarrow> 'f ipc_manager \<Rightarrow> 'f ipc_manager" where
  "apply_wt_code sas m =
     (case sas of None \<Rightarrow> m
      | Some s \<Rightarrow> if session_phase m \<noteq> Connected then m else set_trust (Unverified s) m)"

definition wt_connected :: "string option \<Rightarrow> 'f ipc_manager \<Rightarrow> 'f ipc_manager" where
  "wt_connected sas m =
     (let m = snd (mark_connected m);
          m = (case pending_accept m of
             Some pending \<Rightarrow> m\<lparr>connected_peer := Some pending, pending_accept := None\<rparr>
           | None \<Rightarrow>
               (case pending_initiator m of
                  Some target \<Rightarrow>
                    m\<lparr>connected_peer := Some
                      \<lparr>ses_peer_code = dp_peer_code target, ses_device_name = dp_device_name target,
                       ses_device_type = dp_device_type target, trust = Legacy, identity_key = None\<rparr>,
                      pending_initiator := None\<rparr>
                | None \<Rightarrow> m))
      in apply_wt_code sas m)"

definition on_wt_session :: "bool \<Rightarrow> string option \<Rightarrow> 'f ipc_manager \<Rightarrow> 'f ipc_manager" where
  "on_wt_session up sas m =
     (let m = (if up \<and> session_phase m = Connecting then wt_connected sas m else m)
      in if \<not> up \<and> session_phase m = Connected then disconnect_session ''WT session ended'' m else m)"

section \<open>Buttons\<close>

definition user_connect :: "discovered_peer \<Rightarrow> 'f mac_app \<Rightarrow> 'f mac_app" where
  "user_connect peer a =
     (case begin_request peer (ipc a) of
        (False, m) \<Rightarrow> set_ipc m a
      | (True, m) \<Rightarrow> a\<lparr>ipc := m, signals_sent := signals_sent a @ [(dp_peer_code peer, ''connection_request'')]\<rparr>)"

definition user_cancel :: "'f mac_app \<Rightarrow> 'f mac_app" where
  "user_cancel a =
     (if session_phase (ipc a) \<noteq> Requesting \<and> session_phase (ipc a) \<noteq> Connecting then a
      else case pending_initiator (ipc a) of
             Some target \<Rightarrow>
               a\<lparr>ipc := reset_session (ipc a),
                 signals_sent := signals_sent a @ [(dp_peer_code target, ''connection_declined'')]\<rparr>
           | None \<Rightarrow> if pending_accept (ipc a) = None then a else set_ipc (reset_session (ipc a)) a)"

definition user_decline :: "'f mac_app \<Rightarrow> 'f mac_app" where
  "user_decline a =
     (case (session_phase (ipc a), incoming a) of
        (IncomingRequest, Some (from, _)) \<Rightarrow>
          a\<lparr>ipc := reset_session (ipc a), incoming := None,
            signals_sent := signals_sent a @ [(from, ''connection_declined'')]\<rparr>
      | _ \<Rightarrow> a)"

definition user_accept :: "'f mac_app \<Rightarrow> 'f mac_app" where
  "user_accept a =
     (case (session_phase (ipc a), incoming a) of
        (IncomingRequest, Some (from, name, kind, quic_hash)) \<Rightarrow>
          (let stashed = (ipc a)\<lparr>pending_accept := Some
                 \<lparr>ses_peer_code = from, ses_device_name = name, ses_device_type = kind, trust = Legacy,
                  identity_key = None\<rparr>\<rparr>
           in case begin_connecting stashed of
                (False, m) \<Rightarrow> a\<lparr>ipc := m\<lparr>pending_accept := None\<rparr>, incoming := None\<rparr>
              | (True, m) \<Rightarrow>
                  a\<lparr>ipc := m, incoming := None, daemon_calls := daemon_calls a @ [AllowQuic quic_hash],
                    signals_sent := signals_sent a @ [(from, ''connection_accepted'')]\<rparr>)
      | _ \<Rightarrow> a)"

text \<open>Approving is offered for an unverified peer of a connected session.\<close>

definition user_approve :: "'f mac_app \<Rightarrow> 'f mac_app" where
  "user_approve a =
     (case (session_phase (ipc a), map_option trust (connected_peer (ipc a))) of
        (Connected, Some (Unverified _)) \<Rightarrow> set_ipc (mark_verified (ipc a)) a
      | _ \<Rightarrow> a)"

definition user_disconnect :: "string \<Rightarrow> 'f mac_app \<Rightarrow> 'f mac_app" where
  "user_disconnect reason a =
     (if session_phase (ipc a) \<noteq> Connected \<or> connected_peer (ipc a) = None then a
      else a\<lparr>ipc := disconnect_session reason (ipc a), daemon_calls := daemon_calls a @ [RequestDisconnect]\<rparr>)"

text \<open>
  The transfer area is shown where transfers are allowed. In it the user sends the first file of the
  queue, goes on after a file, clears a failure or cancels.
\<close>

definition transfer_area :: "'f mac_app \<Rightarrow> bool" where
  "transfer_area a \<longleftrightarrow>
     (case connected_peer (ipc a) of
        None \<Rightarrow> False | Some p \<Rightarrow> is_transfer_allowed (session_phase (ipc a)) (trust p))"

text \<open>The name of a chosen file, which is no directory: what follows the last slash.\<close>

definition last_path_component :: "string \<Rightarrow> string" where
  "last_path_component path = rev (takeWhile (\<lambda>c. c \<noteq> CHR 0x2F) (rev path))"

definition send_first_file :: "'f \<Rightarrow> 'f mac_app \<Rightarrow> 'f mac_app" where
  "send_first_file zero a =
     (case file_queue a of
        [] \<Rightarrow> a
      | file # rest \<Rightarrow>
          a\<lparr>ipc := (ipc a)\<lparr>transfer := Sending (last_path_component file) ''pending'' zero\<rparr>, file_queue := rest,
            daemon_calls := daemon_calls a @ [SendFile file]\<rparr>)"

definition send_next_or_clear :: "'f \<Rightarrow> 'f mac_app \<Rightarrow> 'f mac_app" where
  "send_next_or_clear zero a =
     (if file_queue a \<noteq> [] then send_first_file zero a else set_ipc (clear_transfer (ipc a)) a)"

definition user_transfer :: "'f \<Rightarrow> 'f mac_app \<Rightarrow> 'f mac_app" where
  "user_transfer zero a =
     (if \<not> transfer_area a then a
      else case transfer (ipc a) of
             TransferIdle \<Rightarrow> send_first_file zero a
           | Complete _ _ \<Rightarrow> send_next_or_clear zero a
           | Failed _ _ \<Rightarrow> a\<lparr>ipc := clear_transfer (ipc a), file_queue := []\<rparr>
           | _ \<Rightarrow> a\<lparr>ipc := disconnect_session ''transfer cancelled'' (ipc a), file_queue := [],
                     daemon_calls := daemon_calls a @ [RequestDisconnect]\<rparr>)"

definition user_pause :: "'f mac_app \<Rightarrow> 'f mac_app" where
  "user_pause a =
     (case (transfer_area a, transfer (ipc a)) of
        (True, Sending _ _ _) \<Rightarrow>
          a\<lparr>daemon_calls := daemon_calls a @ [if transfer_paused (ipc a) then ResumeTransfer else PauseTransfer]\<rparr>
      | _ \<Rightarrow> a)"

definition daemon_arrives :: "('j, 'f) mac_env \<Rightarrow> string \<Rightarrow> 'j \<Rightarrow> 'f ipc_manager \<Rightarrow> 'f ipc_manager" where
  "daemon_arrives env event p m =
     m\<lparr>ipc_handle := map_option (ipc_event (event_text env) (event, p)) (ipc_handle m)\<rparr>"

fun mac_do :: "('j, 'f) mac_env \<Rightarrow> 'j mac_action \<Rightarrow> 'f mac_app \<Rightarrow> 'f mac_app option" where
  "mac_do env (IpcStart stored result) a = Some (set_ipc (snd (start_ipc (map_option load_pins stored) result (ipc a))) a)"
| "mac_do env (IpcRetry n result) a = Some (set_ipc (snd (start_attempt n result (ipc a))) a)"
| "mac_do env (DaemonEvent event p) a = Some (set_ipc (daemon_arrives env event p (ipc a)) a)"
| "mac_do env Poll a = map_option (\<lambda>m. set_ipc m a) (poll_session (env_view env) (event_of env) (ipc a))"
| "mac_do env (RemoteSignal from kind data) a = Some (on_signal from kind data a)"
| "mac_do env (WtSession up sas) a = Some (set_ipc (on_wt_session up sas (ipc a)) a)"
| "mac_do env (WtSas sas) a = Some (set_ipc (apply_wt_code sas (ipc a)) a)"
| "mac_do env (UserConnect peer) a =
     Some (if is_connected (ipc a) \<and> can_start_fresh (session_phase (ipc a)) then user_connect peer a else a)"
| "mac_do env UserCancel a = Some (user_cancel a)"
| "mac_do env UserDecline a = Some (user_decline a)"
| "mac_do env UserAccept a = Some (user_accept a)"
| "mac_do env (UserDecide d) a =
     Some (case pending_request (ipc a) of
             None \<Rightarrow> a
           | Some req \<Rightarrow>
               set_ipc (snd (send_pairing_decision (decision_of env) (bridge_takes env) (pp_request_id req) d (ipc a))) a)"
| "mac_do env UserApprove a = Some (user_approve a)"
| "mac_do env (UserDisconnect reason) a = Some (user_disconnect reason a)"
| "mac_do env UserDismiss a = Some (set_ipc (dismiss_disconnect (ipc a)) a)"
| "mac_do env (UserQueue file) a = Some (if file \<in> set (file_queue a) then a else a\<lparr>file_queue := file_queue a @ [file]\<rparr>)"
| "mac_do env (UserUnqueue i) a =
     Some (if transfer_area a \<and> transfer (ipc a) = TransferIdle then a\<lparr>file_queue := remove_at i (file_queue a)\<rparr> else a)"
| "mac_do env UserClearQueue a =
     Some (if transfer_area a \<and> transfer (ipc a) = TransferIdle then a\<lparr>file_queue := []\<rparr> else a)"
| "mac_do env UserTransfer a = Some (user_transfer (zero_float (env_view env)) a)"
| "mac_do env UserPause a = Some (user_pause a)"

fun mac_run :: "('j, 'f) mac_env \<Rightarrow> 'j mac_action list \<Rightarrow> 'f mac_app \<Rightarrow> 'f mac_app option" where
  "mac_run env [] a = Some a"
| "mac_run env (act # acts) a = Option.bind (mac_do env act a) (mac_run env acts)"

end
