(* ===== verification/Mac_Trust.thy ===== *)
theory Mac_Trust
  imports Mac_App
begin

text \<open>
  Sessions and trust in the macOS application: trust comes from the user or not at all, and a
  session whose code has not been approved stays closed for files, in every run of the application.
\<close>

section \<open>Sessions and trust\<close>

definition session_ok :: "'f ipc_manager \<Rightarrow> bool" where
  "session_ok m \<longleftrightarrow>
     (connected_peer m \<noteq> None \<longrightarrow> session_phase m = Connected) \<and>
     (\<forall>p. pending_accept m = Some p \<longrightarrow> trust p = Legacy \<or> (\<exists>sas. trust p = Unverified sas))"

text \<open>
  What an operation may do to the trust in the peer of a session: nothing makes it verified, and
  only the beginning of a session makes it legacy.
\<close>

definition trust_from :: "'f ipc_manager \<Rightarrow> 'f ipc_manager \<Rightarrow> bool" where
  "trust_from m m' \<longleftrightarrow>
     (\<forall>p'. connected_peer m' = Some p' \<longrightarrow>
        (trust p' = Verified \<longrightarrow> (\<exists>p. connected_peer m = Some p \<and> trust p = Verified)) \<and>
        (trust p' = Legacy \<longrightarrow> connected_peer m = None \<or> (\<exists>p. connected_peer m = Some p \<and> trust p = Legacy)))"

text \<open>What the daemon may do to a session: it cannot begin one at rest or exchange its peer.\<close>

definition daemon_rel :: "'f ipc_manager \<Rightarrow> 'f ipc_manager \<Rightarrow> bool" where
  "daemon_rel m m' \<longleftrightarrow>
     session_ok m' \<and> trust_from m m' \<and>
     (can_start_fresh (session_phase m) \<longrightarrow> can_start_fresh (session_phase m')) \<and>
     (session_phase m = Connected \<longrightarrow>
        can_start_fresh (session_phase m') \<or>
        session_phase m' = Connected \<and> (connected_peer m' = None \<longleftrightarrow> connected_peer m = None))"

lemmas session_defs =
  session_ok_def trust_from_def daemon_rel_def can_start_fresh_def

lemma daemon_rel_refl: "session_ok m \<Longrightarrow> daemon_rel m m"
  by (auto simp: session_defs)

lemma daemon_rel_trans:
  assumes "session_ok a" "daemon_rel a b" "daemon_rel b c"
  shows "daemon_rel a c"
proof -
  have rest: "connected_peer m = None" if "session_ok m" "can_start_fresh (session_phase m)" for m :: "'a ipc_manager"
    using that by (auto simp: session_defs)
  have "trust_from a c"
    unfolding trust_from_def
  proof (intro allI impI conjI)
    fix p assume p: "connected_peer c = Some p" "trust p = Verified"
    then obtain q where "connected_peer b = Some q" "trust q = Verified"
      using assms(3) by (auto simp: daemon_rel_def trust_from_def)
    then show "\<exists>p. connected_peer a = Some p \<and> trust p = Verified"
      using assms(2) by (auto simp: daemon_rel_def trust_from_def)
  next
    fix p assume p: "connected_peer c = Some p" "trust p = Legacy"
    then have c: "session_phase c = Connected" using assms(3) by (simp add: daemon_rel_def session_ok_def)
    show "connected_peer a = None \<or> (\<exists>p. connected_peer a = Some p \<and> trust p = Legacy)"
    proof (cases "connected_peer b")
      case None
      have "\<not> can_start_fresh (session_phase b)"
        using assms(3) c by (auto simp: daemon_rel_def can_start_fresh_def)
      then have "session_phase a = Connected \<longrightarrow> connected_peer a = None"
        using assms(2) None by (auto simp: daemon_rel_def)
      then show ?thesis using assms(1) by (auto simp: session_ok_def)
    next
      case (Some q)
      then have "trust q = Legacy" using assms(3) p by (auto simp: daemon_rel_def trust_from_def)
      then show ?thesis using assms(2) Some by (auto simp: daemon_rel_def trust_from_def)
    qed
  qed
  then show ?thesis using assms unfolding daemon_rel_def by auto
qed

section \<open>Operations\<close>

lemmas operation_defs =
  reset_session_def disconnect_session_def dismiss_disconnect_def begin_request_def receive_request_def
  begin_connecting_def mark_connected_def clear_transfer_def stop_ipc_def set_trust_def set_identity_def

lemma daemon_rel_reset: "session_ok m \<Longrightarrow> daemon_rel m (reset_session m)"
  by (auto simp: session_defs reset_session_def)

lemma daemon_rel_disconnect: "session_ok m \<Longrightarrow> daemon_rel m (disconnect_session reason m)"
  by (auto simp: session_defs disconnect_session_def)

lemma daemon_rel_connected:
  "session_ok m \<Longrightarrow> daemon_rel m (on_session_connected view p m)"
  by (auto simp: session_defs on_session_connected_def begin_connecting_def mark_connected_def resolve_peer_def
      split: option.splits session_phase.splits)

lemma daemon_rel_sas: "session_ok m \<Longrightarrow> daemon_rel m (on_session_sas view p m)"
  by (auto simp: session_defs on_session_sas_def set_trust_def set_identity_def Let_def split: option.splits)

lemma daemon_rel_status: "session_ok m \<Longrightarrow> on_status_update view p m = Some m' \<Longrightarrow> daemon_rel m m'"
  by (auto simp: session_defs on_status_update_def disconnect_session_def Let_def split: if_splits)

lemma daemon_rel_frame:
  assumes "session_ok m" "connected_peer m' = connected_peer m" "session_phase m' = session_phase m"
    "pending_accept m' = pending_accept m"
  shows "daemon_rel m m'"
  using assms by (auto simp: session_defs)

lemma daemon_rel_stop:
  assumes "session_ok m"
  shows "daemon_rel m (stop_ipc m)"
  using assms by (auto simp: session_defs stop_ipc_def reset_session_def)


text \<open>The events by what they can change.\<close>

lemma daemon_event_effect:
  assumes "daemon_event view event p m = Some m'"
  shows "on_status_update view p m = Some m' \<or> m' = on_pairing_request view p m \<or>
    m' = on_session_connected view p m \<or> m' = on_session_sas view p m \<or>
    m' = disconnect_session (reason_of view p) m \<or> m' = on_transfer_started view p m \<or>
    m' = on_transfer_progress view p m \<or>
    m' = stop_ipc (disconnect_session ''bridge lost'' (m\<lparr>is_connected := False\<rparr>)) \<or>
    connected_peer m' = connected_peer m \<and> session_phase m' = session_phase m \<and>
    pending_accept m' = pending_accept m \<and> pin_store m' = pin_store m"
  using assms by (simp add: daemon_event_def split: if_split_asm) auto

lemma daemon_rel_event:
  assumes "session_ok m" "daemon_event view event p m = Some m'"
  shows "daemon_rel m m'"
proof -
  have lost: "daemon_rel m (stop_ipc (disconnect_session ''bridge lost'' (m\<lparr>is_connected := False\<rparr>)))"
    using assms(1) by (auto simp: session_defs stop_ipc_def reset_session_def disconnect_session_def)
  have frame: "daemon_rel m m''"
    if "connected_peer m'' = connected_peer m" "session_phase m'' = session_phase m" "pending_accept m'' = pending_accept m"
    for m'' using daemon_rel_frame [OF assms(1) that] .
  have parts: "daemon_rel m (on_pairing_request view p m)" "daemon_rel m (on_transfer_started view p m)"
    "daemon_rel m (on_transfer_progress view p m)"
    by (rule frame; simp add: on_pairing_request_def on_transfer_started_def on_transfer_progress_def Let_def
        split: transfer_phase.split)+
  from daemon_event_effect [OF assms(2)] show ?thesis
    using daemon_rel_connected [OF assms(1)] daemon_rel_sas [OF assms(1)] daemon_rel_disconnect [OF assms(1)]
      daemon_rel_status [OF assms(1)] parts lost frame by metis
qed

lemma daemon_rel_lines:
  assumes "session_ok m" "daemon_lines view parse gen ls m = Some m'"
  shows "daemon_rel m m'"
  using assms
proof (induction ls arbitrary: m)
  case Nil
  then show ?case by (auto intro: daemon_rel_refl)
next
  case (Cons l ls)
  show ?case
  proof (cases "generation m \<noteq> gen \<or> parse l = None")
    case True
    with Cons show ?thesis by (auto intro: daemon_rel_refl split: if_splits)
  next
    case False
    then obtain event p m1 where 1: "daemon_event view event p m = Some m1" "daemon_lines view parse gen ls m1 = Some m'"
      using Cons.prems(2) by (auto split: option.splits)
    note rel = daemon_rel_event [OF Cons.prems(1) 1(1)]
    then have "session_ok m1" by (simp add: daemon_rel_def)
    from daemon_rel_trans [OF Cons.prems(1) rel Cons.IH [OF this 1(2)]] show ?thesis .
  qed
qed

lemma daemon_rel_poll:
  assumes "session_ok m" "poll_session view parse m = Some m'"
  shows "daemon_rel m m'"
proof (cases "ipc_handle m")
  case None
  with assms show ?thesis by (simp add: poll_session_def daemon_rel_refl)
next
  case (Some h)
  let ?m = "\<lambda>h'. m\<lparr>is_connected := (bolt_ipc_is_connected (Some h) = 1), ipc_handle := h'\<rparr>"
  have ok: "session_ok (?m h')" for h' using assms(1) by (simp add: session_ok_def)
  have frame: "daemon_rel m (?m h')" for h' by (rule daemon_rel_frame [OF assms(1)]) simp_all
  obtain raw h' where d: "bolt_ipc_drain_events (Some h) = (raw, h')" by fastforce
  show ?thesis
  proof (cases raw)
    case None
    with assms(2) Some d frame show ?thesis by (auto simp: poll_session_def Let_def)
  next
    case (Some r)
    with assms(2) \<open>ipc_handle m = Some h\<close> d
    have "daemon_lines view parse (generation m) (filter (\<lambda>l. l \<noteq> []) (split_on newline r)) (?m h') = Some m'"
      by (simp add: poll_session_def Let_def)
    from daemon_rel_trans [OF assms(1) frame daemon_rel_lines [OF ok this]] show ?thesis .
  qed
qed

section \<open>Actions\<close>

definition session_step :: "'f ipc_manager \<Rightarrow> 'f ipc_manager \<Rightarrow> bool" where
  "session_step m m' \<longleftrightarrow> session_ok m' \<and> trust_from m m'"

lemma session_step_quiet:
  assumes "session_ok m'" "connected_peer m' = connected_peer m \<or> connected_peer m' = None"
  shows "session_step m m'"
  using assms by (auto simp: session_step_def trust_from_def)

lemma session_step_same:
  assumes "session_ok m" "connected_peer m' = connected_peer m" "session_phase m' = session_phase m"
    "pending_accept m' = pending_accept m"
  shows "session_step m m'"
  using assms by (intro session_step_quiet) (auto simp: session_ok_def)

lemma session_step_daemon: "daemon_rel m m' \<Longrightarrow> session_step m m'"
  by (simp add: daemon_rel_def session_step_def)

text \<open>Where no peer is connected the phase may change freely.\<close>

lemma session_ok_phase:
  assumes "session_ok m" "session_phase m \<noteq> Connected" "connected_peer m' = connected_peer m"
    "pending_accept m' = pending_accept m"
  shows "session_ok m'"
  using assms by (auto simp: session_ok_def)

lemma reset_quiet [simp]: "connected_peer (reset_session m) = None" "pending_accept (reset_session m) = None"
  by (simp_all add: reset_session_def)

lemma session_ok_reset: "session_ok (reset_session m)"
  by (simp add: session_ok_def)

lemma session_step_reset: "session_step m (reset_session m)"
  by (rule session_step_quiet) (simp_all add: session_ok_reset)

lemma session_step_disconnect: "session_step m (disconnect_session reason m)"
  by (rule session_step_quiet) (simp_all add: session_ok_def disconnect_session_def)

lemma session_step_dismiss: "session_ok m \<Longrightarrow> session_step m (dismiss_disconnect m)"
  by (cases "session_phase m") (simp_all add: dismiss_disconnect_def session_step_reset session_step_same)

lemma dismiss_idle_peer:
  assumes "session_ok m" "session_phase (dismiss_disconnect m) = SessionIdle"
  shows "connected_peer (dismiss_disconnect m) = None"
  using session_step_dismiss [OF assms(1)] assms(2) by (auto simp: session_step_def session_ok_def)

lemma session_step_begin:
  assumes "session_ok m"
  shows "session_step m (snd (begin_request peer m))" "session_step m (snd (receive_request m))"
proof -
  let ?d = "dismiss_disconnect m"
  have d: "session_step m ?d" by (rule session_step_dismiss [OF assms])
  have idle: "session_step m m'"
    if "session_phase ?d = SessionIdle" "connected_peer m' = connected_peer ?d" "pending_accept m' = pending_accept ?d" for m'
    using that d dismiss_idle_peer [OF assms that(1)]
    by (intro session_step_quiet) (auto simp: session_step_def session_ok_def)
  show "session_step m (snd (begin_request peer m))" "session_step m (snd (receive_request m))"
    using d idle by (simp_all add: begin_request_def receive_request_def Let_def)
qed

lemma session_step_connecting:
  assumes "session_ok m"
  shows "session_step m (snd (begin_connecting m))"
proof (cases "session_phase m = Requesting \<or> session_phase m = IncomingRequest")
  case True
  with assms show ?thesis
    by (intro session_step_quiet) (auto simp: begin_connecting_def session_ok_def)
next
  case False
  with assms show ?thesis by (simp add: begin_connecting_def session_step_same)
qed

text \<open>A signal only moves the phase.\<close>

lemma ipc_signal:
  "ipc (on_signal who kind data a) = snd (receive_request (ipc a)) \<or>
   ipc (on_signal who kind data a) = snd (begin_connecting (ipc a)) \<or>
   ipc (on_signal who kind data a) = reset_session (ipc a) \<or> ipc (on_signal who kind data a) = ipc a"
proof -
  obtain r m where r: "receive_request (ipc a) = (r, m)" by fastforce
  obtain c m' where c: "begin_connecting (ipc a) = (c, m')" by fastforce
  show ?thesis by (cases r; cases c) (simp_all add: on_signal_def r c)
qed

lemma session_step_signal:
  assumes "session_ok (ipc a)"
  shows "session_step (ipc a) (ipc (on_signal who kind data a))"
  using ipc_signal [of who kind data a] session_step_begin(2) [OF assms] session_step_connecting [OF assms]
    session_step_reset [of "ipc a"] session_step_same [OF assms, of "ipc a"] by metis

lemma session_step_code: "session_ok m \<Longrightarrow> session_step m (apply_wt_code sas m)"
  by (auto simp: session_step_def apply_wt_code_def set_trust_def session_ok_def trust_from_def split: option.split)

lemma session_step_up:
  assumes "session_ok m" "session_phase m = Connecting"
  shows "session_step m (wt_connected sas m)"
proof -
  have none: "connected_peer m = None" using assms by (auto simp: session_ok_def)
  show ?thesis
    using assms none
    by (cases "pending_accept m"; cases "pending_initiator m"; cases sas)
      (auto simp: session_step_def wt_connected_def mark_connected_def apply_wt_code_def set_trust_def
        session_ok_def trust_from_def)
qed

lemma wt_up_phase: "session_phase m = Connecting \<Longrightarrow> session_phase (wt_connected sas m) = Connected"
  by (simp add: wt_connected_def mark_connected_def apply_wt_code_def set_trust_def Let_def split: option.split)

lemma session_step_wt: "session_ok m \<Longrightarrow> session_step m (on_wt_session up sas m)"
  using session_step_up [of m sas] session_step_disconnect [of m] session_step_same [of m m]
  by (cases up) (simp_all add: on_wt_session_def Let_def)

lemma session_step_decision:
  assumes "session_ok m"
  shows "session_step m (snd (send_pairing_decision fs bs r d m))"
proof (rule session_step_quiet)
  show "session_ok (snd (send_pairing_decision fs bs r d m))"
    using assms by (auto simp: send_pairing_decision_def session_ok_def Let_def split: option.split bool.split)
qed (auto simp: send_pairing_decision_def Let_def split: option.split bool.split)

lemma session_step_connect:
  "session_ok (ipc a) \<Longrightarrow> session_step (ipc a) (ipc (user_connect peer a))"
  using session_step_begin(1) [of "ipc a" peer] by (auto simp: user_connect_def split: prod.splits bool.splits)

lemma session_step_accept:
  assumes "session_ok (ipc a)"
  shows "session_step (ipc a) (ipc (user_accept a))"
proof (cases "session_phase (ipc a) = IncomingRequest")
  case True
  then have "connected_peer (ipc a) = None" using assms by (auto simp: session_ok_def)
  with True assms show ?thesis
    by (intro session_step_quiet)
      (auto simp: user_accept_def begin_connecting_def session_ok_def Let_def split: option.split)
next
  case False
  then have "user_accept a = a" by (cases "session_phase (ipc a)") (auto simp: user_accept_def)
  with assms show ?thesis by (simp add: session_step_same)
qed

lemma session_step_leave:
  assumes "session_ok (ipc a)"
  shows "session_step (ipc a) (ipc (user_cancel a))" "session_step (ipc a) (ipc (user_decline a))"
    "session_step (ipc a) (ipc (user_disconnect r a))"
  using session_step_reset [of "ipc a"] session_step_disconnect [of "ipc a"] session_step_same [OF assms, of "ipc a"]
  by (auto simp: user_cancel_def user_decline_def user_disconnect_def split: session_phase.split option.split)

lemma session_step_transfer:
  assumes "session_ok (ipc a)"
  shows "session_step (ipc a) (ipc (user_transfer z a))" "session_step (ipc a) (ipc (user_pause a))"
proof -
  have same: "session_step (ipc a) m"
    if "connected_peer m = connected_peer (ipc a)" "session_phase m = session_phase (ipc a)"
      "pending_accept m = pending_accept (ipc a)" for m
    using session_step_same [OF assms that] .
  show "session_step (ipc a) (ipc (user_transfer z a))"
    using same session_step_disconnect [of "ipc a"]
    by (simp add: user_transfer_def send_first_file_def send_next_or_clear_def clear_transfer_def
        split: transfer_phase.split list.split)
  show "session_step (ipc a) (ipc (user_pause a))"
    using same by (simp add: user_pause_def split: transfer_phase.split bool.split)
qed

lemma session_step_start:
  assumes "session_ok m"
  shows "session_step m (snd (start_attempt n result m))" "session_step m (snd (start_ipc stored result m))"
  by (rule session_step_same [OF assms]; simp add: start_ipc_def start_attempt_def Let_def split: option.split)+

lemma mac_do_step:
  assumes "session_ok (ipc a)" "mac_do env act a = Some b" "act \<noteq> UserApprove"
  shows "session_step (ipc a) (ipc b)"
proof (cases act)
  case Poll
  then obtain m where "poll_session (env_view env) (event_of env) (ipc a) = Some m" "b = set_ipc m a"
    using assms(2) by auto
  with daemon_rel_poll [OF assms(1) this(1)] show ?thesis by (simp add: session_step_daemon)
next
  case (DaemonEvent event p)
  with assms show ?thesis by (auto simp: daemon_arrives_def intro!: session_step_same)
next
  case (UserConnect peer)
  with assms session_step_connect [OF assms(1), of peer] session_step_same [OF assms(1), of "ipc a"]
  show ?thesis by (auto split: if_splits)
next
  case (UserDecide d)
  with assms session_step_decision [OF assms(1)] session_step_same [OF assms(1), of "ipc a"]
  show ?thesis by (auto split: option.splits)
next
  case (UserQueue f)
  with assms session_step_same [OF assms(1)] show ?thesis by (auto split: if_splits)
next
  case (UserUnqueue i)
  with assms session_step_same [OF assms(1)] show ?thesis by (auto split: if_splits)
next
  case UserClearQueue
  with assms session_step_same [OF assms(1)] show ?thesis by (auto split: if_splits)
next
  case (IpcStart stored result)
  with assms session_step_start(2) [OF assms(1)] show ?thesis by auto
next
  case (IpcRetry n result)
  with assms session_step_start(1) [OF assms(1)] show ?thesis by auto
next
  case UserDismiss
  with assms session_step_dismiss [OF assms(1)] show ?thesis by auto
next
  case (WtSession up sas)
  with assms session_step_wt [OF assms(1), of up sas] show ?thesis by auto
next
  case (WtSas sas)
  with assms session_step_code [OF assms(1), of sas] show ?thesis by auto
next
  case (RemoteSignal sender kind data)
  with assms session_step_signal [OF assms(1), of sender kind data] show ?thesis by auto
qed (use assms session_step_accept [OF assms(1)] session_step_leave [OF assms(1)] session_step_transfer [OF assms(1)]
      in auto)


section \<open>Runs\<close>

definition peer_trust :: "'f mac_app \<Rightarrow> trust_state option" where
  "peer_trust a = map_option trust (connected_peer (ipc a))"

text \<open>All along a run the same trust.\<close>

fun trusted_throughout :: "('j, 'f) mac_env \<Rightarrow> trust_state \<Rightarrow> 'j mac_action list \<Rightarrow> 'f mac_app \<Rightarrow> bool" where
  "trusted_throughout env t [] a = (peer_trust a = Some t)"
| "trusted_throughout env t (act # acts) a =
     (peer_trust a = Some t \<and>
      (case mac_do env act a of None \<Rightarrow> False | Some b \<Rightarrow> trusted_throughout env t acts b))"

lemma mac_run_append: "mac_run env (xs @ ys) a = Option.bind (mac_run env xs a) (mac_run env ys)"
  by (induction xs arbitrary: a) (auto split: bind_splits)

lemma trusted_throughout_snoc:
  "trusted_throughout env t (acts @ [act]) a \<longleftrightarrow>
     trusted_throughout env t acts a \<and>
     (\<exists>b c. mac_run env acts a = Some b \<and> mac_do env act b = Some c \<and> peer_trust c = Some t)"
  by (induction acts arbitrary: a) (auto split: option.splits)

lemma user_approve_ok: "session_ok (ipc a) \<Longrightarrow> session_ok (ipc (user_approve a))"
  by (auto simp: user_approve_def mark_verified_def set_trust_def session_ok_def
      split: session_phase.split option.split trust_state.split)

lemma mac_do_ok:
  assumes "session_ok (ipc a)" "mac_do env act a = Some b"
  shows "session_ok (ipc b)"
  using mac_do_step [OF assms] user_approve_ok [OF assms(1)] assms(2)
  by (cases "act = UserApprove") (auto simp: session_step_def)

lemma session_ok_new: "session_ok (ipc (mac_new (manager_new stored h)))"
  by (simp add: mac_new_def manager_new_def session_ok_def)

lemma mac_run_ok:
  assumes "session_ok (ipc a)" "mac_run env acts a = Some b"
  shows "session_ok (ipc b)"
  using assms
  by (induction acts arbitrary: a) (auto split: bind_splits dest: mac_do_ok)

text \<open>One action back: where trust that opens the transfer area came from.\<close>

lemma trust_before:
  assumes "session_ok (ipc a)" "mac_do env act a = Some b" "peer_trust b = Some t" "t = Verified \<or> t = Legacy"
  shows "peer_trust a = Some t \<or> t = Legacy \<and> peer_trust a = None \<or>
    t = Verified \<and> act = UserApprove \<and> (\<exists>sas. peer_trust a = Some (Unverified sas))"
proof (cases "act = UserApprove")
  case True
  with assms(2,3) show ?thesis
    by (auto simp: user_approve_def mark_verified_def set_trust_def peer_trust_def
        split: session_phase.splits option.splits trust_state.splits)
next
  case False
  from mac_do_step [OF assms(1,2) False] assms(3,4) show ?thesis
    by (auto simp: session_step_def trust_from_def peer_trust_def)
qed

lemma trust_origin:
  assumes "session_ok (ipc a)" "peer_trust a = None" "mac_run env acts a = Some b"
    "peer_trust b = Some t" "t = Verified \<or> t = Legacy"
  shows "\<exists>pre act post s c. acts = pre @ act # post \<and> mac_run env pre a = Some s \<and> mac_do env act s = Some c \<and>
    trusted_throughout env t post c \<and>
    (t = Legacy \<and> peer_trust s = None \<or>
     t = Verified \<and> act = UserApprove \<and> (\<exists>sas. peer_trust s = Some (Unverified sas)))"
  using assms
proof (induction acts arbitrary: b rule: rev_induct)
  case Nil
  then show ?case by simp
next
  case (snoc act acts)
  then obtain s where s: "mac_run env acts a = Some s" "mac_do env act s = Some b"
    by (auto simp: mac_run_append split: bind_splits)
  note ok = mac_run_ok [OF snoc.prems(1) s(1)]
  show ?case
  proof (cases "peer_trust s = Some t")
    case True
    from snoc.IH [OF snoc.prems(1,2) s(1) True snoc.prems(5)] obtain pre act' post s' c where
      o: "acts = pre @ act' # post" "mac_run env pre a = Some s'" "mac_do env act' s' = Some c"
        "trusted_throughout env t post c"
        "t = Legacy \<and> peer_trust s' = None \<or>
         t = Verified \<and> act' = UserApprove \<and> (\<exists>sas. peer_trust s' = Some (Unverified sas))" by blast
    have "mac_run env post c = Some s" using s(1) o(1-3) by (simp add: mac_run_append)
    then have "trusted_throughout env t (post @ [act]) c"
      using o(4) s(2) snoc.prems(4) by (simp add: trusted_throughout_snoc)
    with o show ?thesis by fastforce
  next
    case False
    with trust_before [OF ok s(2) snoc.prems(4,5)]
    have "t = Legacy \<and> peer_trust s = None \<or>
      t = Verified \<and> act = UserApprove \<and> (\<exists>sas. peer_trust s = Some (Unverified sas))" by blast
    moreover have "trusted_throughout env t [] b" using snoc.prems(4) by simp
    ultimately show ?thesis using s by blast
  qed
qed

section \<open>Samples\<close>

text \<open>Events without contents, whose fields are their names.\<close>

definition sample_view :: "(unit, nat) payload_view" where
  "sample_view = \<lparr>str_at = \<lambda>_ k. Some k, int_at = \<lambda>_ _. None, u64_at = \<lambda>_ _. None, float_at = \<lambda>_ _. None, zero_float = 0\<rparr>"

definition sample_env :: "(unit, nat) mac_env" where
  "sample_env = \<lparr>env_view = sample_view, event_text = \<lambda>event _. Some event, event_of = \<lambda>line. Some (line, ()),
     decision_of = \<lambda>_. None, bridge_takes = \<lambda>_ _. False\<rparr>"

definition sample_acts :: "unit mac_action list" where
  "sample_acts =
     [UserConnect \<lparr>dp_peer_code = ''ABC234'', dp_device_name = ''phone'', dp_device_type = ''phone''\<rparr>,
      DaemonEvent ''daemon://session-connected'' (), Poll]"

definition sample_app :: "pins option \<Rightarrow> nat mac_app" where
  "sample_app stored = mac_new (manager_new stored (Some \<lparr>bridge_connected = True, ipc_events = []\<rparr>))"

lemma sample_run:
  "case mac_run sample_env (sample_acts @ [DaemonEvent ''daemon://session-sas'' (), Poll, UserApprove]) (sample_app None) of
     None \<Rightarrow> False | Some b \<Rightarrow> transfer_area b"
  by code_simp

lemma sample_run_pinned:
  "case mac_run sample_env sample_acts (sample_app (Some [(''k0'', Some ''phone'')])) of
     None \<Rightarrow> False | Some b \<Rightarrow> map_option ses_device_name (connected_peer (ipc b)) = Some ''phone''"
  by code_simp

section \<open>The gate\<close>

text \<open>
  C11: the gate of the transfers. From the start of the application, through any actions of users, peers
  and the daemon, if files can be sent then either the user has approved the verification code of this
  very session, or the peer came without one: since the approval, or since the session began, the peer has
  stayed connected with the same trust. A session that has once shown a code or a changed identity key never opens the
  transfer area by itself.
\<close>

theorem transfers_gated:
  assumes "mac_run env acts (mac_new (manager_new stored h)) = Some b" "transfer_area b"
  shows "\<exists>pre act post s c t. acts = pre @ act # post \<and>
    mac_run env pre (mac_new (manager_new stored h)) = Some s \<and> mac_do env act s = Some c \<and>
    trusted_throughout env t post c \<and>
    (t = Legacy \<and> peer_trust s = None \<or>
     t = Verified \<and> act = UserApprove \<and> (\<exists>sas. peer_trust s = Some (Unverified sas)))"
proof -
  obtain p where p: "connected_peer (ipc b) = Some p" "trust p = Verified \<or> trust p = Legacy"
    using assms(2) by (auto simp: transfer_area_def is_transfer_allowed_def split: option.splits if_splits trust_state.splits)
  have "peer_trust (mac_new (manager_new stored h)) = None" "peer_trust b = Some (trust p)"
    using p by (simp_all add: peer_trust_def mac_new_def manager_new_def)
  from trust_origin [OF session_ok_new this(1) assms(1) this(2) p(2)] show ?thesis by blast
qed


theorem transfers_gated_witness:
  "\<exists>pre act post s c t. sample_acts @ [DaemonEvent ''daemon://session-sas'' (), Poll, UserApprove] = pre @ act # post \<and>
    mac_run sample_env pre (sample_app None) = Some s \<and> mac_do sample_env act s = Some c \<and>
    trusted_throughout sample_env t post c \<and>
    (t = Legacy \<and> peer_trust s = None \<or>
     t = Verified \<and> act = UserApprove \<and> (\<exists>sas. peer_trust s = Some (Unverified sas)))"
  using sample_run transfers_gated [of sample_env
      "sample_acts @ [DaemonEvent ''daemon://session-sas'' (), Poll, UserApprove]" None "Some \<lparr>bridge_connected = True, ipc_events = []\<rparr>"]
  by (auto simp: sample_app_def split: option.splits)

end
