(* ===== verification/Mac_Properties.thy ===== *)
theory Mac_Properties
  imports Mac_Trust
begin

text \<open>
  More about runs of the macOS application: identity keys once pinned stay pinned and guard their
  device name; and what the phases do not protect, a session that needs nobody's consent.
\<close>

section \<open>Pinned keys\<close>

text \<open>A device name has one key.\<close>

definition one_key :: "pins \<Rightarrow> bool" where
  "one_key ps \<longleftrightarrow> (\<forall>n k k'. (k, Some n) \<in> set ps \<and> (k', Some n) \<in> set ps \<longrightarrow> k = k')"

definition pins_grow :: "'f ipc_manager \<Rightarrow> 'f ipc_manager \<Rightarrow> bool" where
  "pins_grow m m' \<longleftrightarrow>
     (\<forall>ps. pin_store m = Some ps \<longrightarrow>
        (\<exists>new. pin_store m' = Some (ps @ new) \<and> (one_key ps \<longrightarrow> one_key (ps @ new))))"

lemma pins_grow_same: "pin_store m' = pin_store m \<Longrightarrow> pins_grow m m'"
  by (auto simp: pins_grow_def intro: exI [where x = "[]"])

lemma pins_grow_trans:
  assumes "pins_grow a b" "pins_grow b c"
  shows "pins_grow a c"
  unfolding pins_grow_def
proof (intro allI impI)
  fix ps assume "pin_store a = Some ps"
  with assms(1) obtain n where b: "pin_store b = Some (ps @ n)" "one_key ps \<longrightarrow> one_key (ps @ n)"
    by (auto simp: pins_grow_def)
  with assms(2) obtain n' where "pin_store c = Some (ps @ n @ n')" "one_key (ps @ n) \<longrightarrow> one_key (ps @ n @ n')"
    by (fastforce simp: pins_grow_def)
  with b show "\<exists>new. pin_store c = Some (ps @ new) \<and> (one_key ps \<longrightarrow> one_key (ps @ new))" by blast
qed

lemma check_mismatch_None:
  "check_mismatch k n ps = None \<longleftrightarrow> (\<forall>k'. (k', Some n) \<in> set ps \<longrightarrow> k' = k)"
proof -
  have "check_mismatch k n ps = None \<longleftrightarrow> List.find (\<lambda>(k', n'). n' = Some n \<and> k' \<noteq> k) ps = None"
    by (auto simp: check_mismatch_def split: option.split)
  then show ?thesis by (auto simp: find_None_iff)
qed

lemma pin_grows:
  "\<exists>new. pin k name ps = ps @ new \<and>
     (one_key ps \<and> (\<forall>n. name = Some n \<longrightarrow> check_mismatch k n ps = None) \<longrightarrow> one_key (ps @ new))"
proof (cases "map_of ps k")
  case None
  then have "pin k name ps = ps @ [(k, name)]" by (simp add: pin_def)
  moreover have "one_key (ps @ [(k, name)])"
    if "one_key ps" "\<forall>n. name = Some n \<longrightarrow> check_mismatch k n ps = None"
    using that by (auto simp: one_key_def check_mismatch_None)
  ultimately show ?thesis by blast
next
  case (Some old)
  then have "pin k name ps = ps @ []" by (simp add: pin_def)
  then show ?thesis by auto
qed

lemma pin_store_set [simp]:
  "pin_store (set_trust t m) = pin_store m" "pin_store (set_identity k m) = pin_store m"
  by (simp_all add: set_trust_def set_identity_def)

lemma pin_store_operations [simp]:
  "pin_store (reset_session m) = pin_store m" "pin_store (disconnect_session r m) = pin_store m"
  "pin_store (dismiss_disconnect m) = pin_store m" "pin_store (stop_ipc m) = pin_store m"
  "pin_store (clear_transfer m) = pin_store m" "pin_store (snd (begin_connecting m)) = pin_store m"
  "pin_store (snd (mark_connected m)) = pin_store m" "pin_store (resolve_peer remote m) = pin_store m"
  "pin_store (apply_wt_code sas m) = pin_store m" "pin_store (mark_verified m) = pin_store m"
  by (simp_all add: reset_session_def disconnect_session_def dismiss_disconnect_def stop_ipc_def clear_transfer_def
      begin_connecting_def mark_connected_def resolve_peer_def apply_wt_code_def mark_verified_def
      split: session_phase.split option.split)

lemma pin_store_begin [simp]:
  "pin_store (snd (begin_request peer m)) = pin_store m" "pin_store (snd (receive_request m)) = pin_store m"
  by (simp_all add: begin_request_def receive_request_def Let_def)

lemma pins_grow_sas: "pins_grow m (on_session_sas view p m)"
proof (cases "pin_store m")
  case None
  then show ?thesis by (simp add: pins_grow_def)
next
  case (Some ps)
  show ?thesis
  proof (cases "pin_store (on_session_sas view p m) = pin_store m")
    case True
    then show ?thesis by (rule pins_grow_same)
  next
    case False
    then obtain k where k: "pin_store (on_session_sas view p m) = Some (pin k (map_option ses_device_name (connected_peer m)) ps)"
      "\<forall>n. map_option ses_device_name (connected_peer m) = Some n \<longrightarrow> check_mismatch k n ps = None"
      using Some by (cases "connected_peer m") (auto simp: on_session_sas_def Let_def split: option.splits bind_splits)
    obtain new where "pin k (map_option ses_device_name (connected_peer m)) ps = ps @ new"
      "one_key ps \<longrightarrow> one_key (ps @ new)" using pin_grows k(2) by metis
    with k(1) Some show ?thesis by (auto simp: pins_grow_def)
  qed
qed

lemma pins_grow_event:
  assumes "daemon_event view event p m = Some m'"
  shows "pins_grow m m'"
proof -
  have "pin_store (on_pairing_request view p m) = pin_store m" "pin_store (on_transfer_started view p m) = pin_store m"
    "pin_store (on_transfer_progress view p m) = pin_store m"
    by (simp_all add: on_pairing_request_def on_transfer_started_def on_transfer_progress_def Let_def split: transfer_phase.split)
  moreover have "pin_store (on_session_connected view p m) = pin_store m"
  proof -
    obtain ok m2 where c: "mark_connected (snd (begin_connecting m)) = (ok, m2)" by fastforce
    then have "pin_store m2 = pin_store m"
      using pin_store_operations(7) [of "snd (begin_connecting m)"] by simp
    with c show ?thesis by (simp add: on_session_connected_def split: bool.split)
  qed
  moreover have "pin_store m'' = pin_store m" if "on_status_update view p m = Some m''" for m''
    using that by (auto simp: on_status_update_def Let_def split: if_splits)
  moreover have "pin_store (stop_ipc (disconnect_session ''bridge lost'' (m\<lparr>is_connected := False\<rparr>))) = pin_store m"
    "pin_store (disconnect_session (reason_of view p) m) = pin_store m" by simp_all
  ultimately have "pin_store m' = pin_store m \<or> m' = on_session_sas view p m"
    using daemon_event_effect [OF assms] by metis
  with pins_grow_same [of m' m] pins_grow_sas [of m view p] show ?thesis by auto
qed

lemma pins_grow_lines: "daemon_lines view parse gen ls m = Some m' \<Longrightarrow> pins_grow m m'"
proof (induction ls arbitrary: m)
  case Nil
  then show ?case by (simp add: pins_grow_same)
next
  case (Cons l ls)
  show ?case
  proof (cases "generation m \<noteq> gen \<or> parse l = None")
    case True
    with Cons show ?thesis by (auto simp: pins_grow_same split: if_splits)
  next
    case False
    then obtain event p m1 where 1: "daemon_event view event p m = Some m1" "daemon_lines view parse gen ls m1 = Some m'"
      using Cons.prems by (auto split: option.splits)
    from pins_grow_trans [OF pins_grow_event [OF 1(1)] Cons.IH [OF 1(2)]] show ?thesis .
  qed
qed

lemma pins_grow_poll: "poll_session view parse m = Some m' \<Longrightarrow> pins_grow m m'"
  by (auto simp: poll_session_def Let_def pins_grow_same pins_grow_def dest!: pins_grow_lines
      split: option.splits prod.splits)

lemma pin_store_signal: "pin_store (ipc (on_signal who kind data a)) = pin_store (ipc a)"
  using ipc_signal [of who kind data a] pin_store_begin(2) [of "ipc a"] pin_store_operations(1,6) [of "ipc a"] by metis

lemma pin_store_wt: "pin_store (on_wt_session up sas m) = pin_store m"
proof -
  have "pin_store (wt_connected sas m) = pin_store m"
    by (simp add: wt_connected_def Let_def split: option.split)
  then show ?thesis by (simp add: on_wt_session_def)
qed

lemma pin_store_decision: "pin_store (snd (send_pairing_decision fs bs r d m)) = pin_store m"
  by (simp add: send_pairing_decision_def Let_def split: option.split bool.split)

lemma pin_store_connect: "pin_store (ipc (user_connect peer a)) = pin_store (ipc a)"
proof -
  have "ipc (user_connect peer a) = snd (begin_request peer (ipc a))"
    by (simp add: user_connect_def split: prod.split bool.split)
  then show ?thesis by simp
qed

lemma pin_store_accept: "pin_store (ipc (user_accept a)) = pin_store (ipc a)"
  by (simp add: user_accept_def begin_connecting_def Let_def split: session_phase.split option.split)

lemma pin_store_buttons:
  "pin_store (ipc (user_cancel a)) = pin_store (ipc a)" "pin_store (ipc (user_decline a)) = pin_store (ipc a)"
  "pin_store (ipc (user_disconnect r a)) = pin_store (ipc a)" "pin_store (ipc (user_approve a)) = pin_store (ipc a)"
  "pin_store (ipc (user_pause a)) = pin_store (ipc a)" "pin_store (ipc (user_transfer z a)) = pin_store (ipc a)"
  by (simp_all add: user_cancel_def user_decline_def user_disconnect_def user_approve_def user_pause_def
      user_transfer_def send_next_or_clear_def send_first_file_def
      split: session_phase.split option.split trust_state.split transfer_phase.split list.split bool.split)

lemma pins_grow_start:
  "pins_grow m (snd (start_ipc stored result m))" "pins_grow m (snd (start_attempt n result m))"
  by (auto simp: start_ipc_def start_attempt_def pins_grow_def Let_def intro: exI [where x = "[]"] split: option.split)

lemma pins_grow_do:
  assumes "mac_do env act a = Some b"
  shows "pins_grow (ipc a) (ipc b)"
proof (cases act)
  case Poll
  with assms pins_grow_poll show ?thesis by fastforce
next
  case (IpcStart stored result)
  with assms pins_grow_start(1) show ?thesis by auto
next
  case (IpcRetry n result)
  with assms pins_grow_start(2) show ?thesis by auto
qed (use assms in \<open>auto intro!: pins_grow_same simp: daemon_arrives_def pin_store_signal pin_store_wt pin_store_decision
      pin_store_connect pin_store_accept pin_store_buttons split: option.splits if_splits\<close>)

lemma pins_grow_run: "mac_run env acts a = Some b \<Longrightarrow> pins_grow (ipc a) (ipc b)"
proof (induction acts arbitrary: a)
  case Nil
  then show ?case by (simp add: pins_grow_same)
next
  case (Cons act acts)
  then obtain c where "mac_do env act a = Some c" "mac_run env acts c = Some b" by (auto split: bind_splits)
  from pins_grow_trans [OF pins_grow_do [OF this(1)] Cons.IH [OF this(2)]] show ?case .
qed



text \<open>One event that arrives and is polled.\<close>

lemma poll_one:
  assumes "ipc_handle m = Some h" "ipc_events h = []" "event_text env event p = Some line"
    "plain_line line" "line \<noteq> []" "event_of env line = Some (event, p)"
  shows "poll_session (env_view env) (event_of env) (daemon_arrives env event p m) =
    daemon_event (env_view env) event p (m\<lparr>is_connected := bridge_connected h\<rparr>)"
proof -
  have line: "join_lines [line] = line" by (simp add: join_lines_def)
  with join_lines_plain [of "[line]"] assms(4) have c: "cstring_new line = Some line" "split_on newline line = [line]"
    by simp_all
  have "daemon_arrives env event p m = m\<lparr>ipc_handle := Some (h\<lparr>ipc_events := [line]\<rparr>)\<rparr>"
    using assms(1-3) by (simp add: daemon_arrives_def ipc_event_def push_event_def)
  moreover have "bolt_ipc_drain_events (Some (h\<lparr>ipc_events := [line]\<rparr>)) = (Some line, Some h)"
    using c line assms(2) by (simp add: bolt_ipc_drain_events_def)
  moreover have "m\<lparr>ipc_handle := Some h\<rparr> = m" using assms(1) by simp
  ultimately show ?thesis
    using c assms(1,5,6) by (cases m) (simp add: poll_session_def bolt_ipc_is_connected_def split: option.split)
qed

section \<open>Sessions without consent\<close>

text \<open>
  C35: what the phases do not protect: a session comes about without the user. From the start of the
  application, if some peer signals a connection request, any peer signals an acceptance with an address, and
  the daemon reports a session, then no button has been pressed and no signal sent, but the daemon has been
  told to connect to that address, and the transfer area is open for a peer that has shown no
  code.
\<close>

theorem connected_without_consent:
  fixes env :: "('j, 'f) mac_env"
  assumes "ipc_events h = []" "data ''wsUrl'' = Some url" "url \<noteq> []"
    "event_text env ''daemon://session-connected'' p = Some line" "plain_line line" "line \<noteq> []"
    "event_of env line = Some (''daemon://session-connected'', p)"
    "str_at (env_view env) p ''remote_peer_id'' = Some key"
  shows "\<exists>b. mac_run env [RemoteSignal x ''connection_request'' request, RemoteSignal y ''connection_accepted'' data,
      DaemonEvent ''daemon://session-connected'' p, Poll] (mac_new (manager_new stored (Some h))) = Some b \<and>
    daemon_calls b = [ConnectRemote url (data ''quicAddr'') (data ''quicCertHash'')] \<and>
    signals_sent b = [] \<and> peer_trust b = Some Legacy \<and> transfer_area b"
proof -
  define m :: "'f ipc_manager" where "m = (manager_new stored (Some h))\<lparr>session_phase := Connecting\<rparr>"
  define calls where "calls = [ConnectRemote url (data ''quicAddr'') (data ''quicCertHash'')]"
  let ?i = "Some (x, unwrap_or (request ''deviceName'') ''Unknown Device'',
    unwrap_or (request ''deviceType'') ''desktop'', request ''quicCertHash'')"
  let ?a = "\<lparr>ipc = m, incoming = ?i, daemon_calls = calls, signals_sent = [], file_queue = []\<rparr>"
  have poll: "poll_session (env_view env) (event_of env) (daemon_arrives env ''daemon://session-connected'' p m) =
    Some (on_session_connected (env_view env) p (m\<lparr>is_connected := bridge_connected h\<rparr>))"
    using poll_one [of m h env "''daemon://session-connected''" p line] assms
    by (simp add: m_def manager_new_def daemon_event_def)
  have "mac_run env [RemoteSignal x ''connection_request'' request, RemoteSignal y ''connection_accepted'' data]
      (mac_new (manager_new stored (Some h))) = Some ?a"
    using assms(2,3)
    by (simp add: mac_new_def manager_new_def on_signal_def receive_request_def begin_connecting_def
        dismiss_disconnect_def m_def calls_def)
  with poll assms(8) show ?thesis
    by (simp add: m_def calls_def manager_new_def on_session_connected_def begin_connecting_def mark_connected_def
        resolve_peer_def peer_trust_def transfer_area_def is_transfer_allowed_def)
qed

theorem connected_without_consent_witness:
  "\<exists>b. mac_run sample_env [RemoteSignal ''x'' ''connection_request'' Map.empty,
      RemoteSignal ''y'' ''connection_accepted'' [''wsUrl'' \<mapsto> ''ws://y''], DaemonEvent ''daemon://session-connected'' (), Poll]
      (mac_new (manager_new None (Some \<lparr>bridge_connected = True, ipc_events = []\<rparr>))) = Some b \<and>
    daemon_calls b = [ConnectRemote ''ws://y'' None None] \<and>
    signals_sent b = [] \<and> peer_trust b = Some Legacy \<and> transfer_area b"
  using connected_without_consent [of "\<lparr>bridge_connected = True, ipc_events = []\<rparr>" "[''wsUrl'' \<mapsto> ''ws://y'']" "''ws://y''"
      sample_env "()" "''daemon://session-connected''" "''remote_peer_id''" "''x''" Map.empty "''y''" None]
  by (simp add: sample_env_def sample_view_def plain_line_def newline_def)

section \<open>Pins across restarts\<close>

lemma load_save_pins: "load_pins (Some (save_pins ps)) = []"
  by (cases ps) (auto simp: load_pins_def save_pins_def)

text \<open>
  C36: the pins do not survive a restart. Whatever pins the application has saved, after it has
  started again with its own file, a connected peer that presents any key with its verification code, also one whose name had
  another key before, is shown as an ordinary peer to review instead of a mismatch, and its key is pinned
  for the name as if it were the first: the file is written with dates as text and read
  by a decoder that takes numbers.
\<close>

theorem pins_lost_on_restart:
  assumes "pin_store m = Some (load_pins (Some (save_pins saved)))" "connected_peer m = Some q"
    "str_at view p ''sas'' = Some sas" "str_at view p ''remote_identity_pk_b64'' = Some k"
  shows "map_option trust (connected_peer (on_session_sas view p m)) = Some (Unverified sas) \<and>
    pin_store (on_session_sas view p m) = Some [(k, Some (ses_device_name q))]"
  using assms
  by (simp add: load_save_pins on_session_sas_def check_mismatch_def pin_def set_trust_def set_identity_def)

theorem pins_lost_on_restart_witness:
  "\<exists>q. let m = (manager_new (Some (load_pins (Some (save_pins [(''k0'', Some ''phone'')])))) None)
        \<lparr>session_phase := Connected, connected_peer := Some q\<rparr>
      in ses_device_name q = ''phone'' \<and>
        map_option trust (connected_peer (on_session_sas sample_view () m)) = Some (Unverified ''sas'') \<and>
        pin_store (on_session_sas sample_view () m) = Some [(''remote_identity_pk_b64'', Some ''phone'')]"
proof -
  let ?q = "\<lparr>ses_peer_code = ''ABC234'', ses_device_name = ''phone'', ses_device_type = ''phone'', trust = Legacy,
    identity_key = None\<rparr>"
  let ?m = "(manager_new (Some (load_pins (Some (save_pins [(''k0'', Some ''phone'')])))) None)
    \<lparr>session_phase := Connected, connected_peer := Some ?q\<rparr>"
  have "pin_store ?m = Some (load_pins (Some (save_pins [(''k0'', Some ''phone'')])))" by (simp add: manager_new_def)
  from pins_lost_on_restart [OF this, of ?q sample_view "()" "''sas''" "''remote_identity_pk_b64''"] show ?thesis
    by (intro exI [of _ ?q]) (simp add: Let_def sample_view_def)
qed

section \<open>Phases\<close>

text \<open>
  The transitions the code names beside its functions, with the notice of a lost session counted as
  idle: \<open>idle\<close> to \<open>requesting\<close> or \<open>incomingRequest\<close>, either to \<open>connecting\<close>, that to
  \<open>connected\<close>, and any phase to \<open>idle\<close>.
\<close>

definition contract_phase :: "session_phase \<Rightarrow> session_phase" where
  "contract_phase p = (case p of Disconnected _ \<Rightarrow> SessionIdle | _ \<Rightarrow> p)"

definition contract_moves :: "(session_phase \<times> session_phase) list" where
  "contract_moves =
     [(SessionIdle, Requesting), (SessionIdle, IncomingRequest), (Requesting, Connecting),
      (IncomingRequest, Connecting), (Connecting, Connected),
      (Requesting, SessionIdle), (IncomingRequest, SessionIdle), (Connecting, SessionIdle), (Connected, SessionIdle)]"

definition contract_step :: "'f ipc_manager \<Rightarrow> 'f ipc_manager \<Rightarrow> bool" where
  "contract_step m m' \<longleftrightarrow>
     contract_phase (session_phase m') = contract_phase (session_phase m) \<or>
     (contract_phase (session_phase m), contract_phase (session_phase m')) \<in> set contract_moves"

lemma contract_idle: "can_start_fresh (session_phase m') \<Longrightarrow> contract_step m m'"
  by (cases "session_phase m"; cases "session_phase m'")
    (simp_all add: contract_step_def contract_moves_def contract_phase_def can_start_fresh_def)

lemma contract_same: "session_phase m' = session_phase m \<Longrightarrow> contract_step m m'"
  by (simp add: contract_step_def)

lemma contract_begin:
  "contract_step m (snd (begin_request peer m))" "contract_step m (snd (receive_request m))"
  "contract_step m (snd (begin_connecting m))" "contract_step m (snd (mark_connected m))"
  by (cases "session_phase m"; simp add: contract_step_def contract_moves_def contract_phase_def begin_request_def
      receive_request_def begin_connecting_def mark_connected_def dismiss_disconnect_def reset_session_def Let_def)+

lemma phase_sas: "session_phase (on_session_sas view p m) = session_phase m"
  by (simp add: on_session_sas_def set_trust_def set_identity_def Let_def split: option.split)

lemma contract_connected:
  "contract_step m (on_session_connected view p m) \<or>
   session_phase m \<in> {Requesting, IncomingRequest} \<and> session_phase (on_session_connected view p m) = Connected"
proof -
  have r: "session_phase (resolve_peer remote m') = session_phase m'" for remote and m' :: "'a ipc_manager"
    by (simp add: resolve_peer_def split: option.split)
  show ?thesis
    by (cases "session_phase m"; simp add: r on_session_connected_def begin_connecting_def mark_connected_def
        contract_step_def contract_moves_def contract_phase_def)
qed

lemma contract_event:
  assumes "daemon_event view event p m = Some m'"
  shows "contract_step m m' \<or>
    session_phase m \<in> {Requesting, IncomingRequest} \<and> session_phase m' = Connected"
proof -
  have idle: "contract_step m (disconnect_session r m)"
    "contract_step m (stop_ipc (disconnect_session r (m\<lparr>is_connected := False\<rparr>)))" for r
    by (simp_all add: contract_idle can_start_fresh_def disconnect_session_def stop_ipc_def reset_session_def)
  have status: "contract_step m m'" if "on_status_update view p m = Some m'"
  proof -
    have "session_phase m' = session_phase m \<or> can_start_fresh (session_phase m')"
      using that by (auto simp: on_status_update_def Let_def can_start_fresh_def disconnect_session_def split: if_splits)
    then show ?thesis using contract_same contract_idle by metis
  qed
  have same: "contract_step m (on_pairing_request view p m)" "contract_step m (on_transfer_started view p m)"
    "contract_step m (on_transfer_progress view p m)" "contract_step m (on_session_sas view p m)"
    by (rule contract_same; simp add: on_pairing_request_def on_transfer_started_def on_transfer_progress_def phase_sas
        Let_def split: transfer_phase.split)+
  show ?thesis
    using daemon_event_effect [OF assms] idle status same contract_connected [of m view p] contract_same [of m' m] by metis
qed

text \<open>
  Every action follows the transitions, and so does every event of the daemon, except that a
  session reported before its acceptance passes \<open>connecting\<close> over.
\<close>

lemma phases_follow_contract:
  assumes "mac_do env act a = Some b" "act \<noteq> Poll"
  shows "contract_step (ipc a) (ipc b)"
proof (cases act)
  case (RemoteSignal who kind data)
  with assms(1) ipc_signal [of who kind data a] contract_begin(2,3) [of "ipc a"] show ?thesis
    by (auto simp: contract_same contract_idle can_start_fresh_def reset_session_def)
next
  case (WtSession up sas)
  show ?thesis
    using assms(1) WtSession
    by (cases "session_phase (ipc a)"; cases up)
      (auto simp: on_wt_session_def wt_up_phase Let_def disconnect_session_def contract_step_def contract_moves_def contract_phase_def)
next
  case (WtSas sas)
  with assms(1) show ?thesis by (auto intro!: contract_same simp: apply_wt_code_def set_trust_def split: option.split)
next
  case (UserConnect peer)
  have "ipc (user_connect peer a) = snd (begin_request peer (ipc a))"
    by (simp add: user_connect_def split: prod.split bool.split)
  with UserConnect assms(1) contract_begin(1) [of "ipc a" peer] show ?thesis
    by (auto simp: contract_same split: if_splits)
next
  case (UserDecide d)
  with assms(1) show ?thesis
    by (auto intro!: contract_same simp: send_pairing_decision_def Let_def split: option.splits bool.splits)
next
  case UserAccept
  with assms(1) show ?thesis
    by (cases "session_phase (ipc a)"; cases "incoming a")
      (auto simp: user_accept_def begin_connecting_def Let_def contract_step_def contract_moves_def contract_phase_def)
next
  case UserTransfer
  with assms(1) show ?thesis
    by (auto simp: user_transfer_def send_next_or_clear_def send_first_file_def clear_transfer_def disconnect_session_def
        contract_same contract_idle can_start_fresh_def split: transfer_phase.split list.split)
next
  case UserApprove
  with assms(1) show ?thesis
    by (auto intro!: contract_same simp: user_approve_def mark_verified_def set_trust_def
        split: session_phase.split option.split trust_state.split)
next
  case UserPause
  with assms(1) show ?thesis
    by (auto intro!: contract_same simp: user_pause_def split: transfer_phase.split bool.split)
next
  case (IpcStart stored result)
  with assms(1) show ?thesis
    by (auto intro!: contract_same simp: start_ipc_def start_attempt_def Let_def split: option.split)
next
  case (IpcRetry n result)
  with assms(1) show ?thesis
    by (auto intro!: contract_same simp: start_attempt_def split: option.split)
qed (use assms in \<open>auto simp: user_cancel_def user_decline_def user_disconnect_def dismiss_disconnect_def daemon_arrives_def
      contract_same contract_idle can_start_fresh_def reset_session_def disconnect_session_def
      split: session_phase.split option.split\<close>)

section \<open>Smaller facts\<close>

text \<open>A decision whose session never came gives its name to the next session.\<close>

lemma stale_decision_names_session:
  assumes "session_phase m = SessionIdle" "pending_accept m = Some stale"
  shows "map_option ses_device_name (connected_peer (on_session_connected view p (snd (begin_request peer m)))) =
    Some (ses_device_name stale)"
  using assms by (simp add: begin_request_def dismiss_disconnect_def on_session_connected_def begin_connecting_def
      mark_connected_def resolve_peer_def)

text \<open>When the bridge is lost the session is reset, and the reason with it.\<close>

lemma bridge_lost_idle:
  "daemon_event view ''daemon://bridge-disconnected'' p m = Some m' \<Longrightarrow> session_phase m' = SessionIdle"
  by (auto simp: daemon_event_def stop_ipc_def reset_session_def)

text \<open>A count of peers that is no 32-bit number stops the application.\<close>

lemma status_traps: "int_at view p ''connected_peers'' = Some n \<Longrightarrow> n < 0 \<Longrightarrow> on_status_update view p m = None"
  by (simp add: on_status_update_def unwrap_or_def)

text \<open>A code from the daemon's output replaces a mismatch.\<close>

lemma code_hides_mismatch:
  assumes "session_phase m = Connected" "connected_peer m = Some q" "trust q = Mismatch n shown"
  shows "map_option trust (connected_peer (apply_wt_code (Some sas) m)) = Some (Unverified sas)"
  using assms by (simp add: apply_wt_code_def set_trust_def)

text \<open>A batch ends with the session: nothing of it reaches the next one.\<close>

lemma stale_lines: "generation m \<noteq> gen \<Longrightarrow> daemon_lines view parse gen ls m = Some m"
  by (cases ls) simp_all

text \<open>
  Where a session is awaited for nobody, which an acceptance that was not asked for can bring about, no
  button leads out: the window has none.
\<close>

lemma connecting_stuck:
  assumes "session_phase (ipc a) = Connecting" "pending_initiator (ipc a) = None" "pending_accept (ipc a) = None"
  shows "user_cancel a = a" "user_decline a = a" "user_accept a = a" "user_disconnect r a = a" "user_approve a = a"
    "dismiss_disconnect (ipc a) = ipc a" "mac_do env (UserConnect peer) a = Some a"
  using assms
  by (simp_all add: user_cancel_def user_decline_def user_accept_def user_disconnect_def user_approve_def
      dismiss_disconnect_def can_start_fresh_def)

end
