(* ===== verification/Contract_Tests.thy ===== *)
theory Contract_Tests
  imports Wire Test_Kit Validation Mac_Properties
begin

text \<open>
  The tests against contracts outside the repository: \<open>native/shared/src/contract_parity.rs\<close>, which
  compares the validators of the application core with a fixture of its transitions,
  \<open>signal/interop-tests/tests/peer_code.rs\<close>, which compares the server's codes with those of
  \<open>bolt-core\<close>, and the tests of the macOS application's pins,
  \<open>native/macos/Tests/LocalBoltTests/PinStoreTests.swift\<close>. The validators, the phases' JSON names and
  the fixture are parameters.
\<close>

section \<open>JSON values in tests\<close>

text \<open>Indexing an object gives \<open>Null\<close> for what is not there.\<close>

definition at_key :: "json \<Rightarrow> string \<Rightarrow> json" where
  "at_key doc k = (case doc of JObject fs \<Rightarrow> (case map_of fs k of Some v \<Rightarrow> v | None \<Rightarrow> JNull) | _ \<Rightarrow> JNull)"

definition as_array :: "json \<Rightarrow> json list option" where
  "as_array v = (case v of JArray vs \<Rightarrow> Some vs | _ \<Rightarrow> None)"

definition as_object :: "json \<Rightarrow> (string \<times> json) list option" where
  "as_object v = (case v of JObject fs \<Rightarrow> Some fs | _ \<Rightarrow> None)"

definition as_str :: "json \<Rightarrow> string option" where
  "as_str v = (case v of JString s \<Rightarrow> Some s | _ \<Rightarrow> None)"

definition as_bool :: "json \<Rightarrow> bool option" where
  "as_bool v = (case v of JBool b \<Rightarrow> Some b | _ \<Rightarrow> None)"

definition at_index :: "'a list \<Rightarrow> nat \<Rightarrow> 'a option" where
  "at_index xs i = (if i < length xs then Some (xs ! i) else None)"

text \<open>Loops that may panic.\<close>

fun for_each :: "('a \<Rightarrow> unit option) \<Rightarrow> 'a list \<Rightarrow> unit option" where
  "for_each f [] = Some ()"
| "for_each f (x # xs) = Option.bind (f x) (\<lambda>_. for_each f xs)"

fun for_count :: "('a \<Rightarrow> nat \<Rightarrow> nat option) \<Rightarrow> 'a list \<Rightarrow> nat \<Rightarrow> nat option" where
  "for_count f [] n = Some n"
| "for_count f (x # xs) n = Option.bind (f x n) (for_count f xs)"

lemma for_each_iff: "for_each f xs = Some () \<longleftrightarrow> (\<forall>x \<in> set xs. f x = Some ())"
  by (induction xs) (auto split: bind_splits)

section \<open>Parity with the session contract\<close>

record ('p, 't, 'v) contract =
  SESSION_PHASES :: "'p list"
  VERIFICATION_STATES :: "'v list"
  phase_value :: "'p \<Rightarrow> json option"
  state_value :: "'v \<Rightarrow> json option"
  phase_from :: "json \<Rightarrow> 'p option"
  transfer_from :: "json \<Rightarrow> 't option"
  state_from :: "json \<Rightarrow> 'v option"
  is_valid_session_transition :: "'p \<Rightarrow> 'p \<Rightarrow> bool"
  is_valid_transfer_transition :: "'t \<Rightarrow> 't \<Rightarrow> bool"
  gate :: "bool \<Rightarrow> 'v \<Rightarrow> bool"

definition names_match :: "('a \<Rightarrow> json option) \<Rightarrow> 'a list \<Rightarrow> json \<Rightarrow> unit option" where
  "names_match to_value items listed =
     do { vs \<leftarrow> as_array listed;
          names \<leftarrow> those (List.map as_str vs);
          assert_that (length names = length items);
          for_each (\<lambda>x. do { v \<leftarrow> to_value x; name \<leftarrow> as_str v; assert_that (name \<in> set names) }) items }"

definition read_pair :: "(json \<Rightarrow> 'a option) \<Rightarrow> json \<Rightarrow> ('a \<times> 'a) option" where
  "read_pair read pair =
     do { arr \<leftarrow> as_array pair;
          v \<leftarrow> at_index arr 0; a \<leftarrow> read v;
          w \<leftarrow> at_index arr 1; b \<leftarrow> read w;
          Some (a, b) }"

definition fixture_session_phases_match_contract ::
    "('p, 't, 'v) contract \<Rightarrow> json option \<Rightarrow> unit option" where
  "fixture_session_phases_match_contract c fixture =
     do { doc \<leftarrow> fixture; names_match (phase_value c) (SESSION_PHASES c) (at_key doc ''session_phases'') }"

definition fixture_session_transitions_all_legal ::
    "('p, 't, 'v) contract \<Rightarrow> json option \<Rightarrow> unit option" where
  "fixture_session_transitions_all_legal c fixture =
     do { doc \<leftarrow> fixture;
          transitions \<leftarrow> as_array (at_key doc ''session_transitions_legal'');
          assert_that (length transitions = 9);
          for_each (\<lambda>pair. do { (a, b) \<leftarrow> read_pair (phase_from c) pair;
                                assert_that (is_valid_session_transition c a b) }) transitions }"

definition fixture_session_transitions_exhaustive_illegal ::
    "('p, 't, 'v) contract \<Rightarrow> json option \<Rightarrow> unit option" where
  "fixture_session_transitions_exhaustive_illegal c fixture =
     do { doc \<leftarrow> fixture;
          transitions \<leftarrow> as_array (at_key doc ''session_transitions_legal'');
          legal \<leftarrow> those (List.map (read_pair (phase_from c)) transitions);
          illegal_count \<leftarrow>
            for_count (\<lambda>a. for_count (\<lambda>b n.
                if (a, b) \<in> set legal then Some n
                else do { assert_that (\<not> is_valid_session_transition c a b); Some (n + 1) }) (SESSION_PHASES c))
              (SESSION_PHASES c) 0;
          assert_that (illegal_count = 16) }"

definition fixture_transfer_transitions_all_legal ::
    "('p, 't, 'v) contract \<Rightarrow> json option \<Rightarrow> unit option" where
  "fixture_transfer_transitions_all_legal c fixture =
     do { doc \<leftarrow> fixture;
          transitions \<leftarrow> as_array (at_key doc ''transfer_transitions_legal'');
          assert_that (length transitions = 10);
          for_each (\<lambda>pair. do { (a, b) \<leftarrow> read_pair (transfer_from c) pair;
                                assert_that (is_valid_transfer_transition c a b) }) transitions }"

definition fixture_transfer_gating_matches_policy ::
    "('p, 't, 'v) contract \<Rightarrow> json option \<Rightarrow> unit option" where
  "fixture_transfer_gating_matches_policy c fixture =
     do { doc \<leftarrow> fixture;
          gating \<leftarrow> as_object (at_key doc ''transfer_gating'');
          for_each (\<lambda>(state_s, allowed_v).
              do { state \<leftarrow> state_from c (JString state_s);
                   allowed \<leftarrow> as_bool allowed_v;
                   assert_that (gate c True state = allowed);
                   assert_that (\<not> gate c False state) }) gating }"

definition fixture_verification_states_match_contract ::
    "('p, 't, 'v) contract \<Rightarrow> json option \<Rightarrow> unit option" where
  "fixture_verification_states_match_contract c fixture =
     do { doc \<leftarrow> fixture; names_match (state_value c) (VERIFICATION_STATES c) (at_key doc ''verification_states'') }"

definition parity_tests :: "('p, 't, 'v) contract \<Rightarrow> json option \<Rightarrow> unit option list" where
  "parity_tests c fixture =
     [fixture_session_phases_match_contract c fixture, fixture_session_transitions_all_legal c fixture,
      fixture_session_transitions_exhaustive_illegal c fixture, fixture_transfer_transitions_all_legal c fixture,
      fixture_transfer_gating_matches_policy c fixture, fixture_verification_states_match_contract c fixture]"

section \<open>What the parity tests establish\<close>

lemma those_map_Some:
  "those (List.map f xs) = Some ys \<longleftrightarrow> length ys = length xs \<and> (\<forall>i < length xs. f (xs ! i) = Some (ys ! i))"
proof (induction xs arbitrary: ys)
  case Nil
  then show ?case by auto
next
  case (Cons x xs)
  show ?case
  proof (cases ys)
    case Nil
    then show ?thesis by (auto split: option.splits)
  next
    case (Cons y zs)
    with Cons.IH [of zs] show ?thesis
      by (auto simp: nth_Cons split: option.splits nat.splits)
  qed
qed

lemma for_count_invariant:
  assumes "for_count f xs n = Some r" "x \<in> set xs"
  shows "\<exists>k k'. f x k = Some k'"
  using assms by (induction xs arbitrary: n) (auto split: bind_splits)

text \<open>
  C38: what the tests of parity with the session contract establish. Let the fixture and the validators
  be any. If all six tests finish, then the fixture lists nine session transitions, and among the
  phases of the contract the validator accepts exactly these: the tests decide it completely. Of the transfer
  transitions they only test that the ten listed ones are accepted, so a validator that accepts all would
  pass as well.
\<close>

theorem parity_tests_decide:
  assumes "list_all passes (parity_tests c fixture)"
  shows "\<exists>doc transitions legal. fixture = Some doc \<and>
    as_array (at_key doc ''session_transitions_legal'') = Some transitions \<and>
    those (List.map (read_pair (phase_from c)) transitions) = Some legal \<and> length legal = 9 \<and>
    (\<forall>a \<in> set (SESSION_PHASES c). \<forall>b \<in> set (SESSION_PHASES c).
       is_valid_session_transition c a b \<longleftrightarrow> (a, b) \<in> set legal) \<and>
    list_all passes (parity_tests (c\<lparr>is_valid_transfer_transition := \<lambda>_ _. True\<rparr>) fixture)"
proof -
  have pass: "fixture_session_transitions_all_legal c fixture = Some ()"
    "fixture_session_transitions_exhaustive_illegal c fixture = Some ()"
    "fixture_transfer_transitions_all_legal c fixture = Some ()"
    using assms by (simp_all add: parity_tests_def passes_def)
  obtain doc where doc: "fixture = Some doc" using pass(1)
    by (cases fixture) (simp_all add: fixture_session_transitions_all_legal_def)
  obtain transitions legal count where t:
    "as_array (at_key doc ''session_transitions_legal'') = Some transitions"
    "those (List.map (read_pair (phase_from c)) transitions) = Some legal"
    "for_count (\<lambda>a. for_count (\<lambda>b n.
                if (a, b) \<in> set legal then Some n
                else do { assert_that (\<not> is_valid_session_transition c a b); Some (n + 1) }) (SESSION_PHASES c))
              (SESSION_PHASES c) 0 = Some count"
    using pass(2) doc by (auto simp: fixture_session_transitions_exhaustive_illegal_def split: bind_splits)
  have len: "length transitions = 9"
    and each: "\<forall>pair \<in> set transitions. do { (a, b) \<leftarrow> read_pair (phase_from c) pair;
                                assert_that (is_valid_session_transition c a b) } = Some ()"
    using pass(1) doc t(1)
    by (auto simp: fixture_session_transitions_all_legal_def bind_assert for_each_iff split: if_splits)
  have valid: "is_valid_session_transition c a b" if "(a, b) \<in> set legal" for a b
  proof -
    from that obtain i where i: "i < length legal" "legal ! i = (a, b)" by (metis in_set_conv_nth)
    with t(2) have "read_pair (phase_from c) (transitions ! i) = Some (a, b)" "i < length transitions"
      by (auto simp: those_map_Some)
    with bspec [OF each nth_mem [OF this(2)]] show ?thesis by (simp add: assert_that_def split: if_splits)
  qed
  have illegal: "\<not> is_valid_session_transition c a b"
    if ab: "a \<in> set (SESSION_PHASES c)" "b \<in> set (SESSION_PHASES c)" "(a, b) \<notin> set legal" for a b
  proof -
    from for_count_invariant [OF t(3) ab(1)] obtain k k' where
      "for_count (\<lambda>b n. if (a, b) \<in> set legal then Some n
                else do { assert_that (\<not> is_valid_session_transition c a b); Some (n + 1) }) (SESSION_PHASES c) k = Some k'"
      by blast
    from for_count_invariant [OF this ab(2)] ab(3) show ?thesis
      by (auto simp: bind_assert split: if_splits)
  qed
  have "fixture_transfer_transitions_all_legal (c\<lparr>is_valid_transfer_transition := \<lambda>_ _. True\<rparr>) fixture = Some ()"
    using pass(3) doc
    by (auto simp: fixture_transfer_transitions_all_legal_def bind_assert for_each_iff assert_simps
        split: bind_splits if_splits)
  then have "list_all passes (parity_tests (c\<lparr>is_valid_transfer_transition := \<lambda>_ _. True\<rparr>) fixture)"
    using assms
    by (simp add: parity_tests_def passes_def fixture_session_phases_match_contract_def
        fixture_session_transitions_all_legal_def fixture_session_transitions_exhaustive_illegal_def
        fixture_transfer_gating_matches_policy_def fixture_verification_states_match_contract_def cong: if_cong)
  moreover have "length legal = 9" using t(2) len by (simp add: those_map_Some)
  ultimately show ?thesis using doc t(1,2) valid illegal by blast
qed

text \<open>A contract with five phases, whose transitions are those of the macOS application.\<close>

definition sample_name :: "session_phase \<Rightarrow> json" where
  "sample_name p = JString
     (case p of Requesting \<Rightarrow> ''requesting'' | IncomingRequest \<Rightarrow> ''incoming_request'' | Connecting \<Rightarrow> ''connecting''
      | Connected \<Rightarrow> ''connected'' | _ \<Rightarrow> ''idle'')"

definition sample_contract :: "(session_phase, string, string) contract" where
  "sample_contract =
     \<lparr>SESSION_PHASES = [SessionIdle, Requesting, IncomingRequest, Connecting, Connected],
      VERIFICATION_STATES = [''verified''], phase_value = (\<lambda>p. Some (sample_name p)),
      state_value = (\<lambda>v. Some (JString v)),
      phase_from = (\<lambda>v. List.find (\<lambda>p. sample_name p = v) [SessionIdle, Requesting, IncomingRequest, Connecting, Connected]),
      transfer_from = as_str, state_from = as_str,
      is_valid_session_transition = (\<lambda>a b. (a, b) \<in> set contract_moves),
      is_valid_transfer_transition = (\<lambda>a b. a \<noteq> b),
      gate = (\<lambda>up v. up)\<rparr>"

definition sample_fixture :: json where
  "sample_fixture =
     JObject [(''session_phases'', JArray (List.map sample_name (SESSION_PHASES sample_contract))),
       (''session_transitions_legal'', JArray (List.map (\<lambda>(a, b). JArray [sample_name a, sample_name b]) contract_moves)),
       (''transfer_transitions_legal'', JArray (replicate 10 (JArray [JString ''idle'', JString ''sending'']))),
       (''transfer_gating'', JObject [(''verified'', JBool True)]),
       (''verification_states'', JArray [JString ''verified''])]"

lemma sample_parity: "list_all passes (parity_tests sample_contract (Some sample_fixture))"
  by code_simp

theorem parity_tests_decide_witness:
  "\<exists>transitions legal.
    as_array (at_key sample_fixture ''session_transitions_legal'') = Some transitions \<and>
    those (List.map (read_pair (phase_from sample_contract)) transitions) = Some legal \<and> length legal = 9 \<and>
    (\<forall>a \<in> set (SESSION_PHASES sample_contract). \<forall>b \<in> set (SESSION_PHASES sample_contract).
       is_valid_session_transition sample_contract a b \<longleftrightarrow> (a, b) \<in> set legal)"
  using parity_tests_decide [OF sample_parity] by auto

section \<open>Codes of the server and of \<open>bolt-core\<close>\<close>

text \<open>\<open>is_valid_peer_code\<close> of \<open>bolt-core\<close> is a parameter.\<close>

definition both_reject_empty :: "(string \<Rightarrow> bool) \<Rightarrow> unit option" where
  "both_reject_empty is_valid_peer_code =
     do { _ \<leftarrow> unwrap_err (validate_peer_code []);
          assert_that (\<not> is_valid_peer_code []) }"

definition canonical_codes_accepted_by_both :: "(string \<Rightarrow> bool) \<Rightarrow> unit option" where
  "canonical_codes_accepted_by_both is_valid_peer_code =
     do { c \<leftarrow> unwrap (validate_peer_code ''ABCDEF''); assert_that (c = ''ABCDEF'');
          assert_that (is_valid_peer_code ''ABCDEF'');
          c \<leftarrow> unwrap (validate_peer_code ''ABCDEFGH''); assert_that (c = ''ABCDEFGH'');
          assert_that (is_valid_peer_code ''ABCDEFGH'') }"

definition hyphenated_codes_accepted_by_both :: "(string \<Rightarrow> bool) \<Rightarrow> unit option" where
  "hyphenated_codes_accepted_by_both is_valid_peer_code =
     do { c \<leftarrow> unwrap (validate_peer_code ''ABCD-EFGH''); assert_that (c = ''ABCDEFGH'');
          assert_that (is_valid_peer_code ''ABCD-EFGH'') }"

definition rendezvous_accepts_codes_bolt_core_rejects :: "(string \<Rightarrow> bool) \<Rightarrow> unit option" where
  "rendezvous_accepts_codes_bolt_core_rejects is_valid_peer_code =
     do { _ \<leftarrow> unwrap (validate_peer_code ''IL0O1X''); assert_that (\<not> is_valid_peer_code ''IL0O1X'');
          _ \<leftarrow> unwrap (validate_peer_code ''ABCDEF1234567890''); assert_that (\<not> is_valid_peer_code ''ABCDEF1234567890'');
          _ \<leftarrow> unwrap (validate_peer_code ''a1b2c3''); assert_that (\<not> is_valid_peer_code ''a1b2c3'') }"

definition interop_tests :: "(string \<Rightarrow> bool) \<Rightarrow> unit option list" where
  "interop_tests is_valid_peer_code =
     [both_reject_empty is_valid_peer_code, canonical_codes_accepted_by_both is_valid_peer_code,
      hyphenated_codes_accepted_by_both is_valid_peer_code, rendezvous_accepts_codes_bolt_core_rejects is_valid_peer_code]"

text \<open>
  What the test file says of \<open>bolt-core\<close>: hyphens are stripped, letters count as upper case, six or eight characters remain,
  all of an alphabet without the ambiguous I, L, O, 0 and 1.
\<close>

definition core_alphabet :: string where
  "core_alphabet = ''ABCDEFGHJKMNPQRSTUVWXYZ23456789''"

definition core_code :: "string \<Rightarrow> bool" where
  "core_code code \<longleftrightarrow>
     (let s = strip_hyphens code
      in (length s = 6 \<or> length s = 8) \<and>
         list_all (\<lambda>c. c \<in> set core_alphabet \<or> c \<in> set (to_ascii_lowercase core_alphabet)) s)"

lemma core_alphabet_alnum:
  "list_all is_ascii_alphanumeric core_alphabet" "list_all is_ascii_alphanumeric (to_ascii_lowercase core_alphabet)"
  by code_simp+

lemma core_code_accepted:
  assumes "core_code code"
  shows "validate_peer_code code = Inr (strip_hyphens code)" "validate_signal_target code = Inr (strip_hyphens code)"
proof -
  have "list_all is_ascii_alphanumeric (strip_hyphens code)"
    using assms core_alphabet_alnum by (fastforce simp: core_code_def Let_def list_all_iff)
  moreover have "length (strip_hyphens code) \<in> {6, 8}" using assms by (auto simp: core_code_def Let_def)
  ultimately show "validate_peer_code code = Inr (strip_hyphens code)"
    "validate_signal_target code = Inr (strip_hyphens code)"
    by (auto simp: validate_peer_code_def validate_signal_target_def MAX_PEER_CODE_BYTES_def Let_def)
qed

lemma interop_core: "list_all passes (interop_tests core_code)"
  by code_simp

text \<open>
  C37: the server against the codes of the other side. If \<open>bolt-core\<close> accepts just the codes that the
  test file describes, then the interop tests pass; and beyond the tests, the server accepts every code that \<open>bolt-core\<close>
  accepts, with any number of hyphens, when it is registered and when it is the target of a signal, and takes it without its
  hyphens both times.
\<close>

theorem interop_codes_accepted:
  assumes "\<And>code. is_valid_peer_code code \<longleftrightarrow> core_code code"
  shows "list_all passes (interop_tests is_valid_peer_code) \<and>
    (\<forall>code. is_valid_peer_code code \<longrightarrow>
       validate_peer_code code = Inr (strip_hyphens code) \<and> validate_signal_target code = Inr (strip_hyphens code))"
proof -
  have "is_valid_peer_code = core_code" using assms by blast
  then show ?thesis using interop_core core_code_accepted by simp
qed

theorem interop_codes_accepted_witness:
  "list_all passes (interop_tests core_code) \<and> validate_peer_code ''2-A-B-C-D-E'' = Inr ''2ABCDE''"
proof -
  have "core_code ''2-A-B-C-D-E''" by code_simp
  with interop_codes_accepted [of core_code] show ?thesis by (simp add: strip_hyphens_def)
qed

text \<open>To the server a code in lower case is another code.\<close>

lemma case_matters:
  "core_code ''abcdef''" "validate_peer_code ''abcdef'' = Inr ''abcdef''" "validate_peer_code ''ABCDEF'' = Inr ''ABCDEF''"
  by code_simp+

section \<open>Tests of the macOS application's pins\<close>

definition testApprovalIsNotPersistedAndIsVerifiedIsAlwaysFalse :: "unit option" where
  "testApprovalIsNotPersistedAndIsVerifiedIsAlwaysFalse =
     (let key = ''AAAABBBBCCCCDDDDEEEEFFFF'';
          store = pin_mark_verified key (Some ''Mac'') (pin key (Some ''Mac'') []);
          reloaded = load_pins (Some (save_pins store))
      in do { assert_that (\<not> is_verified key store); assert_that (\<not> is_verified key reloaded) })"

definition testLegacyVerifiedTruePinIsIgnored :: "unit option" where
  "testLegacyVerifiedTruePinIsIgnored =
     (let key = ''LEGACYVERIFIEDKEYAAAABBBB'';
          store = load_pins (Some [(key, True, DateNumber, Some ''Mac'')])
      in do { assert_that (check_mismatch ''DIFFERENTKEYCCCCDDDD'' ''Mac'' store \<noteq> None);
              assert_that (\<not> is_verified key store) })"

definition testMismatchDetectedForUnverifiedPin :: "unit option" where
  "testMismatchDetectedForUnverifiedPin =
     (let store = pin ''OLDKEYAAAABBBBCCCC'' (Some ''Mac'') []
      in do { assert_that (check_mismatch ''NEWKEYDDDDEEEEFFFF'' ''Mac'' store \<noteq> None);
              assert_that (check_mismatch ''OLDKEYAAAABBBBCCCC'' ''Mac'' store = None) })"

lemma pin_store_tests_pass:
  "list_all passes [testApprovalIsNotPersistedAndIsVerifiedIsAlwaysFalse, testLegacyVerifiedTruePinIsIgnored,
     testMismatchDetectedForUnverifiedPin]"
  by code_simp

end
