(* ===== verification/Mac_Managers.thy ===== *)
theory Mac_Managers
  imports Mac_Trust Daemon Signaling_Client
begin

text \<open>
  The two managers of the macOS application that poll the C interface,
  \<open>DaemonManager\<close> and \<open>SignalingManager\<close> of \<open>native/macos/Sources/LocalBolt/BoltBridge.swift\<close>, on top of
  the models of \<open>native/shared\<close>: the daemon's error output as the source of sessions, the peer list of the
  window, the signals on their way to the session manager. Text read from C strings is taken as it is, with a
  character for each byte.
\<close>

section \<open>The daemon\<close>

record daemon_manager =
  dm_running :: bool
  dm_pid :: u32
  dm_ws_port :: u16
  recent_stderr :: string
  dm_socket_path :: string
  dm_data_dir :: string
  binary_path :: "string option"
  dm_wt_url :: "string option"
  dm_wt_cert_hash :: "string option"
  dm_quic_addr :: "string option"
  dm_quic_cert_hash :: "string option"
  wt_session_active :: bool
  wt_session_sas :: "string option"
  daemon_handle :: "bolt_daemon option"

definition daemon_manager_new :: "string option \<Rightarrow> daemon_manager" where
  "daemon_manager_new found =
     \<lparr>dm_running = False, dm_pid = 0, dm_ws_port = 0, recent_stderr = [], dm_socket_path = [], dm_data_dir = [],
      binary_path = found, dm_wt_url = None, dm_wt_cert_hash = None, dm_quic_addr = None, dm_quic_cert_hash = None,
      wt_session_active = False, wt_session_sas = None, daemon_handle = None\<rparr>"

text \<open>\<open>start_daemon\<close> is \<open>bolt_daemon_start\<close> in its surroundings.\<close>

definition manager_start ::
    "(string option \<Rightarrow> u16 \<Rightarrow> bolt_daemon option) \<Rightarrow> u16 \<Rightarrow> daemon_manager \<Rightarrow> bool \<times> daemon_manager" where
  "manager_start start_daemon port m =
     (case binary_path m of
        None \<Rightarrow> (False, m)
      | Some bin \<Rightarrow>
          if daemon_handle m \<noteq> None then (False, m)
          else (case start_daemon (Some (with_c_string bin)) port of
                  None \<Rightarrow> (False, m)
                | Some d \<Rightarrow>
                    (True, m\<lparr>daemon_handle := Some d, dm_pid := bolt_daemon_pid (Some d),
                       dm_ws_port := bolt_daemon_ws_port (Some d),
                       dm_socket_path := unwrap_or (bolt_daemon_socket_path (Some d)) (dm_socket_path m),
                       dm_data_dir := unwrap_or (bolt_daemon_data_dir (Some d)) (dm_data_dir m),
                       dm_running := True\<rparr>)))"

text \<open>Stopping leaves the two fields of the session as they are.\<close>

definition manager_stop :: "files \<Rightarrow> daemon_manager \<Rightarrow> daemon_manager \<times> files" where
  "manager_stop fs m =
     (m\<lparr>daemon_handle := None, dm_running := False, dm_pid := 0, dm_ws_port := 0, dm_socket_path := [],
        dm_data_dir := [], recent_stderr := [], dm_wt_url := None, dm_wt_cert_hash := None, dm_quic_addr := None,
        dm_quic_cert_hash := None\<rparr>,
      snd (bolt_daemon_stop (daemon_handle m) fs))"

text \<open>The requests, as the files that the daemon finds.\<close>

definition manager_call ::
    "((string \<times> string option) list \<Rightarrow> string) \<Rightarrow> (string \<Rightarrow> bool) \<Rightarrow> daemon_call \<Rightarrow> daemon_manager \<Rightarrow> files \<Rightarrow> bool \<times> files" where
  "manager_call to_json writable call m fs =
     (let h = daemon_handle m;
          c = map_option with_c_string;
          (r, fs') =
            (case call of
               ConnectRemote url addr hash \<Rightarrow>
                 if addr \<noteq> None \<and> hash \<noteq> None
                 then bolt_daemon_connect_remote_v2 to_json writable h (Some (with_c_string url)) (c addr) (c hash) fs
                 else bolt_daemon_connect_remote_v2 to_json writable h (Some (with_c_string url)) None None fs
             | AllowQuic hash \<Rightarrow>
                 if hash = None \<or> hash = Some [] then (0, fs)
                 else bolt_daemon_allow_quic_peer_cert_hash writable h (c hash) fs
             | RequestDisconnect \<Rightarrow> bolt_daemon_disconnect_session writable h fs
             | SendFile path \<Rightarrow> bolt_daemon_send_file writable h (Some (with_c_string path)) fs
             | PauseTransfer \<Rightarrow> bolt_daemon_pause_transfer writable h fs
             | ResumeTransfer \<Rightarrow> bolt_daemon_resume_transfer writable h fs)
      in if h = None then (False, fs) else (r = 1, fs'))"

subsection \<open>Sessions in the error output\<close>

fun after :: "string \<Rightarrow> string \<Rightarrow> string option" where
  "after pat [] = (if pat = [] then Some [] else None)"
| "after pat (c # s) = (if prefix pat (c # s) then Some (drop (length pat) (c # s)) else after pat s)"

definition sas_in :: "string \<Rightarrow> string option" where
  "sas_in line =
     (case after ''[SAS] '' line of
        None \<Rightarrow> None
      | Some rest \<Rightarrow> if length (take 6 rest) = 6 then Some (take 6 rest) else None)"

record wt_scan =
  latest_lifecycle :: "bool option"
  pending_sas :: "string option"
  registered_sas :: "string option"

definition scan_line :: "string \<Rightarrow> wt_scan \<Rightarrow> wt_scan" where
  "scan_line line s =
     (let s = (case sas_in line of None \<Rightarrow> s | Some sas \<Rightarrow> s\<lparr>pending_sas := Some sas\<rparr>)
      in if contains ''ACTIVE_SESSION registered'' line
         then s\<lparr>latest_lifecycle := Some True, registered_sas := pending_sas s\<rparr>
         else if contains ''ACTIVE_SESSION cleared'' line
         then s\<lparr>latest_lifecycle := Some False, registered_sas := None\<rparr>
         else s)"

definition scan_lines :: "string list \<Rightarrow> wt_scan" where
  "scan_lines ls = fold scan_line ls \<lparr>latest_lifecycle = None, pending_sas = None, registered_sas = None\<rparr>"

definition apply_scan :: "wt_scan \<Rightarrow> daemon_manager \<Rightarrow> daemon_manager" where
  "apply_scan s m =
     (case latest_lifecycle s of
        None \<Rightarrow> m
      | Some True \<Rightarrow>
          (let m = (if wt_session_active m then m else m\<lparr>wt_session_active := True, wt_session_sas := None\<rparr>)
           in case registered_sas s of None \<Rightarrow> m | Some sas \<Rightarrow> m\<lparr>wt_session_sas := Some sas\<rparr>)
      | Some False \<Rightarrow>
          if wt_session_active m then m\<lparr>wt_session_active := False, wt_session_sas := None\<rparr> else m)"

definition manager_poll :: "(unit, int option) result \<Rightarrow> daemon_manager \<Rightarrow> daemon_manager" where
  "manager_poll try_wait m =
     (case daemon_handle m of
        None \<Rightarrow> m
      | Some d \<Rightarrow>
          (let running = (bolt_daemon_is_running try_wait (Some d) = 1);
               m = m\<lparr>dm_running := running, recent_stderr := unwrap_or (bolt_daemon_recent_stderr (Some d) 30) (recent_stderr m)\<rparr>;
               m = apply_scan (scan_lines (filter (\<lambda>l. l \<noteq> []) (split_on newline (recent_stderr m)))) m
           in if running then m
              else m\<lparr>wt_session_active := False, wt_session_sas := None, daemon_handle := None, dm_pid := 0, dm_ws_port := 0\<rparr>))"

section \<open>Discovery\<close>

record window_peer =
  wp_peer_code :: string
  wp_device_name :: string
  wp_device_type :: string
  wp_wt_url :: "string option"
  wp_wt_cert_hash :: "string option"

record signaling_manager =
  sm_connected :: bool
  sm_peers :: "window_peer list"
  sm_peer_code :: string
  sm_handle :: "bolt_signaling option"

definition signaling_manager_new :: "string \<Rightarrow> signaling_manager" where
  "signaling_manager_new code = \<lparr>sm_connected = False, sm_peers = [], sm_peer_code = code, sm_handle = None\<rparr>"

text \<open>The arguments of a start; without a cloud server the WebTransport data is left out.\<close>

definition signaling_start ::
    "string \<Rightarrow> string \<Rightarrow> string option \<Rightarrow> string option \<Rightarrow> string option \<Rightarrow> signaling_manager \<Rightarrow>
     signaling_config option \<times> signaling_manager" where
  "signaling_start name local_url cloud url_arg hash_arg m =
     (if sm_handle m \<noteq> None then (None, m)
      else
        (let c = map_option with_c_string;
             (wt, hash) = (case (cloud, url_arg, hash_arg) of
                 (Some _, Some _, Some _) \<Rightarrow> (c url_arg, c hash_arg)
               | (Some _, Some _, None) \<Rightarrow> (c url_arg, None)
               | _ \<Rightarrow> (None, None));
             (config, h) = bolt_signaling_start (Some (with_c_string local_url)) (c cloud)
               (Some (with_c_string (sm_peer_code m))) (Some (with_c_string name)) wt hash
         in (Some config, m\<lparr>sm_handle := Some h\<rparr>)))"

definition send_signal ::
    "'j \<Rightarrow> (string \<Rightarrow> 'j option) \<Rightarrow> string \<Rightarrow> string \<Rightarrow> string option \<Rightarrow> signaling_manager \<Rightarrow>
     (string \<times> string \<times> 'j \<times> string) option" where
  "send_signal empty_object from_str to kind data m =
     (case sm_handle m of
        None \<Rightarrow> None
      | Some h \<Rightarrow>
          snd (bolt_signaling_send_signal empty_object from_str (Some h) (Some (with_c_string to))
            (Some (with_c_string kind)) (map_option with_c_string data)))"

definition signaling_stop :: "signaling_manager \<Rightarrow> signaling_manager" where
  "signaling_stop m = m\<lparr>sm_handle := None, sm_connected := False, sm_peers := []\<rparr>"

definition window_peer_of :: "bolt_peer \<Rightarrow> window_peer" where
  "window_peer_of p =
     \<lparr>wp_peer_code = unwrap_or (bp_peer_code p) [], wp_device_name = unwrap_or (bp_device_name p) [],
      wp_device_type = unwrap_or (bp_device_type p) [], wp_wt_url = bp_wt_url p, wp_wt_cert_hash = bp_wt_cert_hash p\<rparr>"

text \<open>
  The loop over the indices. While it runs the callback of the client library may change the
  list: \<open>core i\<close> is the client when index \<open>i\<close> is asked for.
\<close>

definition read_peers :: "(nat \<Rightarrow> bolt_signaling) \<Rightarrow> u32 \<Rightarrow> window_peer list" where
  "read_peers core n =
     List.map_filter (\<lambda>i. map_option window_peer_of (bolt_signaling_get_peer (Some (core i)) (of_nat i))) [0..<unat n]"

definition update_peers :: "window_peer list \<Rightarrow> window_peer list \<Rightarrow> window_peer list" where
  "update_peers updated old =
     (if List.map wp_peer_code updated \<noteq> List.map wp_peer_code old then updated else old)"

text \<open>
  A poll, as far as the client stays the same during it: the signals drained, each with sender, kind and
  data, and the manager. \<open>signal_of\<close> reads one line as JSON.
\<close>

definition signaling_poll ::
    "(string \<Rightarrow> (string \<times> string \<times> (string \<rightharpoonup> string)) option) \<Rightarrow> signaling_manager \<Rightarrow>
     (string \<times> string \<times> (string \<rightharpoonup> string)) list \<times> signaling_manager" where
  "signaling_poll signal_of m =
     (case sm_handle m of
        None \<Rightarrow> ([], m)
      | Some h \<Rightarrow>
          (let up = (bolt_signaling_is_connected (Some h) = 1);
               h1 = unwrap_or (snd (bolt_signaling_drain_events (Some h))) h;
               (raw, h2') = bolt_signaling_drain_signals (Some h1);
               h2 = unwrap_or h2' h1;
               signals = (case raw of
                   None \<Rightarrow> []
                 | Some text \<Rightarrow> List.map_filter signal_of (filter (\<lambda>l. l \<noteq> []) (split_on newline text)));
               updated = read_peers (\<lambda>_. h2) (bolt_signaling_peer_count (Some h2))
           in (signals, m\<lparr>sm_connected := up, sm_peers := update_peers updated (sm_peers m), sm_handle := Some h2\<rparr>)))"

definition deliver :: "(string \<times> string \<times> (string \<rightharpoonup> string)) list \<Rightarrow> 'f mac_app \<Rightarrow> 'f mac_app" where
  "deliver signals a = fold (\<lambda>(who, kind, data). on_signal who kind data) signals a"

section \<open>Sessions follow the error output\<close>

definition lifecycle :: "string \<Rightarrow> bool option" where
  "lifecycle line =
     (if contains ''ACTIVE_SESSION registered'' line then Some True
      else if contains ''ACTIVE_SESSION cleared'' line then Some False else None)"

text \<open>The last value of a list of optional values.\<close>

fun latest :: "('a \<Rightarrow> 'b option) \<Rightarrow> 'a list \<Rightarrow> 'b option" where
  "latest f [] = None"
| "latest f (x # xs) = (case latest f xs of None \<Rightarrow> f x | Some y \<Rightarrow> Some y)"

lemma latest_snoc [simp]: "latest f (xs @ [x]) = (case f x of None \<Rightarrow> latest f xs | Some y \<Rightarrow> Some y)"
  by (induction xs) (auto split: option.splits)

lemma scan_lines_snoc: "scan_lines (ls @ [l]) = scan_line l (scan_lines ls)"
  by (simp add: scan_lines_def)

lemma scan_pending: "pending_sas (scan_lines ls) = latest sas_in ls"
  by (induction ls rule: rev_induct) (simp_all add: scan_lines_snoc, simp_all add: scan_lines_def scan_line_def Let_def split: option.split)

lemma scan_lifecycle: "latest_lifecycle (scan_lines ls) = latest lifecycle ls"
proof (induction ls rule: rev_induct)
  case Nil
  then show ?case by (simp add: scan_lines_def)
next
  case (snoc l ls)
  have "latest_lifecycle (scan_line l s) = (case lifecycle l of None \<Rightarrow> latest_lifecycle s | Some b \<Rightarrow> Some b)" for s
    by (simp add: scan_line_def lifecycle_def Let_def split: option.split)
  with snoc show ?case by (simp add: scan_lines_snoc split: option.split)
qed

lemma scan_blank: "scan_lines (filter (\<lambda>l. l \<noteq> []) ls) = scan_lines ls"
proof (induction ls rule: rev_induct)
  case (snoc l ls)
  have "scan_line [] s = s" for s by (simp add: scan_line_def sas_in_def Let_def)
  with snoc show ?case by (auto simp: scan_lines_snoc)
qed simp

text \<open>The code of a session: the last one up to the line that registers it.\<close>

lemma scan_registered:
  assumes "lifecycle l = Some True" "\<forall>x \<in> set post. lifecycle x = None"
  shows "registered_sas (scan_lines (pre @ l # post)) = latest sas_in (pre @ [l])"
  using assms(2)
proof (induction post rule: rev_induct)
  case Nil
  have "pending_sas (scan_line l (scan_lines pre)) = latest sas_in (pre @ [l])"
    using scan_pending [of "pre @ [l]"] by (simp add: scan_lines_snoc)
  then show ?case
    using assms(1) by (auto simp: scan_lines_snoc scan_line_def lifecycle_def Let_def split: option.splits if_splits)
next
  case (snoc x post)
  have "scan_lines (pre @ l # post @ [x]) = scan_line x (scan_lines (pre @ l # post))"
    using scan_lines_snoc [of "pre @ l # post" x] by simp
  moreover have "registered_sas (scan_line x s) = registered_sas s" for s
    using snoc.prems by (auto simp: scan_line_def lifecycle_def Let_def split: option.split if_splits)
  ultimately show ?case using snoc by simp
qed

text \<open>
  A code outlives its session: a session that shows none is registered with the code of the one
  before, as long as that is among the lines read.
\<close>

lemma stale_code:
  "registered_sas (scan_lines [''[SAS] 111111'', ''ACTIVE_SESSION registered'', ''ACTIVE_SESSION cleared'',
     ''ACTIVE_SESSION registered'']) = Some ''111111''"
  by code_simp

lemma recent_lines:
  assumes "stderr_lines d = fold push_stderr ls []" "list_all plain_line ls" "ls \<noteq> []"
  shows "\<exists>text. bolt_daemon_recent_stderr (Some d) 30 = Some text \<and> split_on newline text = drop (length ls - 30) ls"
proof -
  let ?q = "drop (length ls - 30) ls"
  have "bolt_daemon_recent_stderr (Some d) 30 = cstring_new (join_lines ?q)"
    using recent_stderr_exact [OF assms(1), of 30] by simp
  moreover have "list_all plain_line ?q" using assms(2) by (auto simp: list_all_iff dest: in_set_dropD)
  moreover have "?q \<noteq> []" using assms(3) by (cases ls) auto
  ultimately show ?thesis using join_lines_plain [of ?q] by auto
qed


section \<open>Discovery reaches the window\<close>

lemma unat_length: "length xs < 2 ^ 32 \<Longrightarrow> unat (of_nat (length xs) :: u32) = length xs"
  by (simp add: unat_of_nat)

lemma map_filter_total: "(\<And>x. x \<in> set xs \<Longrightarrow> f x = Some (g x)) \<Longrightarrow> List.map_filter f xs = List.map g xs"
  by (induction xs) (simp_all add: map_filter_simps)

lemma read_peers_all:
  assumes "length (peers s) < 2 ^ 32"
  shows "read_peers (\<lambda>_. s) (bolt_signaling_peer_count (Some s)) = List.map (\<lambda>p. window_peer_of (to_bolt_peer p)) (peers s)"
proof -
  have "read_peers (\<lambda>_. s) (bolt_signaling_peer_count (Some s)) =
      List.map (\<lambda>i. window_peer_of (to_bolt_peer (peers s ! i))) [0..<length (peers s)]"
    unfolding read_peers_def bolt_signaling_peer_count_def option.case unat_length [OF assms]
    using assms by (intro map_filter_total) (simp add: bolt_signaling_get_peer_def unat_of_nat Let_def)
  also have "\<dots> = List.map (\<lambda>p. window_peer_of (to_bolt_peer p)) (List.map (\<lambda>i. peers s ! i) [0..<length (peers s)])"
    by simp
  finally show ?thesis by (simp only: map_nth)
qed

lemma window_codes:
  assumes "list_all (\<lambda>p. CHR 0x00 \<notin> set (cp_peer_code p)) ps"
  shows "List.map wp_peer_code (List.map (\<lambda>p. window_peer_of (to_bolt_peer p)) ps) = List.map cp_peer_code ps"
  using assms by (auto simp: window_peer_of_def to_bolt_peer_def cstring_new_def list_all_iff unwrap_or_def)

lemma drain_keeps:
  "peers (unwrap_or (snd (bolt_signaling_drain_events (Some h))) h) = peers h"
  "incoming_signals (unwrap_or (snd (bolt_signaling_drain_events (Some h))) h) = incoming_signals h"
  by (simp_all add: bolt_signaling_drain_events_def unwrap_or_def)

text \<open>
  C25: what the user sees of the network. After any events of the client library, if no text holds a
  line break or NUL byte, one poll brings the window up to date: it lists each announced peer once, exactly
  those seen since they last left on any plane and never the own device; and the signals of remote peers
  that have arrived are handled, each once and in their order, so that a second poll finds none.
\<close>

theorem discovery_reaches_window:
  assumes "sm_handle m = Some (on_events signal_json evs (signaling_new code))"
    "length (peers (on_events signal_json evs (signaling_new code))) < 2 ^ 32"
    "\<And>p. p \<in> set (peers (on_events signal_json evs (signaling_new code))) \<Longrightarrow> CHR 0x00 \<notin> set (cp_peer_code p)"
    "\<And>who kind data json. signal_json who kind data = Some json \<Longrightarrow> plain_line json \<and> json \<noteq> []"
    "signaling_poll signal_of m = (signals, m')"
  shows "distinct (List.map wp_peer_code (sm_peers m')) \<and> code \<notin> wp_peer_code ` set (sm_peers m') \<and>
    wp_peer_code ` set (sm_peers m') = visible code evs {} \<and>
    signals = List.map_filter signal_of (queued_signals signal_json evs) \<and>
    fst (signaling_poll signal_of m') = []"
proof -
  define s where "s = on_events signal_json evs (signaling_new code)"
  define s1 where "s1 = unwrap_or (snd (bolt_signaling_drain_events (Some s))) s"
  define q where "q = queued_signals signal_json evs"
  have q: "incoming_signals s1 = q" and p1: "peers s1 = peers s"
    using on_events_signals [of signal_json evs "signaling_new code"]
    by (simp_all add: s1_def q_def s_def drain_keeps, simp add: signaling_new_def)
  obtain raw s2' where d: "bolt_signaling_drain_signals (Some s1) = (raw, s2')" by fastforce
  define s2 where "s2 = unwrap_or s2' s1"
  have plain: "list_all (\<lambda>j. plain_line j \<and> j \<noteq> []) q"
    using assms(4) unfolding q_def
    by (induction evs) (auto simp: queued_signals_def map_filter_simps split: discovery_event.splits option.splits)
  have drained: "peers s2 = peers s" "incoming_signals s2 = []" and
    texts: "(case raw of None \<Rightarrow> [] | Some text \<Rightarrow> List.map_filter signal_of (filter (\<lambda>l. l \<noteq> []) (split_on newline text))) =
      List.map_filter signal_of q"
  proof -
    have "raw = None \<and> q = [] \<and> s2 = s1 \<or>
      raw = Some (join_lines q) \<and> split_on newline (join_lines q) = q \<and> s2 = s1\<lparr>incoming_signals := []\<rparr>"
      using d q plain join_lines_plain [of q]
      by (auto simp: bolt_signaling_drain_signals_def s2_def unwrap_or_def list_all_iff split: if_splits)
    moreover have "filter (\<lambda>l. l \<noteq> []) q = q" using plain by (simp add: filter_id_conv list_all_iff)
    ultimately show "peers s2 = peers s" "incoming_signals s2 = []"
      "(case raw of None \<Rightarrow> [] | Some text \<Rightarrow> List.map_filter signal_of (filter (\<lambda>l. l \<noteq> []) (split_on newline text))) =
        List.map_filter signal_of q"
      using q p1 by (auto simp: map_filter_simps)
  qed
  define updated where "updated = read_peers (\<lambda>_. s2) (bolt_signaling_peer_count (Some s2))"
  have poll: "signals = List.map_filter signal_of q"
    "sm_peers m' = update_peers updated (sm_peers m)" "sm_handle m' = Some s2"
    using assms(1,5) d texts
    by (auto simp: signaling_poll_def s_def [symmetric] s1_def [symmetric] s2_def [symmetric] updated_def [symmetric] Let_def)
  have "List.map wp_peer_code updated = List.map cp_peer_code (peers s)"
    using assms(2,3) read_peers_all [of s2] window_codes [of "peers s2"] drained(1)
    by (simp add: updated_def s_def list_all_iff)
  then have codes: "List.map wp_peer_code (sm_peers m') = List.map cp_peer_code (peers s)"
    unfolding poll(2) update_peers_def by simp
  then have "wp_peer_code ` set (sm_peers m') = cp_peer_code ` set (peers s)" by (metis set_map)
  moreover have "fst (signaling_poll signal_of m') = []"
    using poll(3) drained(2)
    by (simp add: signaling_poll_def Let_def bolt_signaling_drain_signals_def drain_keeps split: prod.split)
  moreover have "distinct (List.map cp_peer_code (peers s)) \<and> code \<notin> cp_peer_code ` set (peers s) \<and>
      cp_peer_code ` set (peers s) = visible code evs {}"
    using peer_list_correct [OF s_def assms(2) [folded s_def]] by blast
  ultimately show ?thesis using codes poll(1) unfolding q_def by auto
qed

text \<open>Samples of both.\<close>

theorem discovery_reaches_window_witness:
  "\<exists>signals m'. signaling_poll (\<lambda>l. Some (l, l, Map.empty)) ((signaling_manager_new ''AAA'')
      \<lparr>sm_handle := Some (on_events (\<lambda>who kind data. Some ''signal'')
        [DSignal ''BBB'' ''connection_request'' () Local] (signaling_new ''AAA''))\<rparr>) = (signals, m') \<and>
    signals = [(''signal'', ''signal'', Map.empty)] \<and> sm_peers m' = []"
proof -
  let ?evs = "[DSignal ''BBB'' ''connection_request'' () Local]" and ?f = "\<lambda>who kind data. Some ''signal''"
  let ?m = "(signaling_manager_new ''AAA'')\<lparr>sm_handle := Some (on_events ?f ?evs (signaling_new ''AAA''))\<rparr>"
  obtain signals m' where p: "signaling_poll (\<lambda>l. Some (l, l, Map.empty)) ?m = (signals, m')" by fastforce
  have none: "peers (on_events ?f ?evs (signaling_new ''AAA'')) = []" by (simp add: on_event_def signaling_new_def)
  have "plain_line ''signal''" by (simp add: plain_line_def newline_def)
  then have "wp_peer_code ` set (sm_peers m') = visible ''AAA'' ?evs {} \<and>
      signals = List.map_filter (\<lambda>l. Some (l, l, Map.empty)) (queued_signals ?f ?evs)"
    using discovery_reaches_window [OF _ _ _ _ p, of ?f ?evs "''AAA''"] none by simp
  then show ?thesis using p by (auto simp: queued_signals_def map_filter_simps)
qed


section \<open>Smaller facts\<close>

text \<open>The signals of a poll are actions of the application.\<close>

lemma deliver_run: "mac_run env (List.map (\<lambda>(who, kind, data). RemoteSignal who kind data) signals) a = Some (deliver signals a)"
  by (induction signals arbitrary: a) (auto simp: deliver_def)

text \<open>
  A peer that leaves while the list is read hides its successor for this poll, and stays listed
  itself.
\<close>

definition two_peers :: "string list \<Rightarrow> bolt_signaling" where
  "two_peers codes = (signaling_new ''AAA'')\<lparr>peers := List.map (\<lambda>c. \<lparr>cp_peer_code = c, cp_device_name = c,
     cp_device_type = ''phone'', cp_wt_url = None, cp_wt_cert_hash = None\<rparr>) codes\<rparr>"

lemma peer_missed:
  "List.map wp_peer_code (read_peers (\<lambda>i. if i = 0 then two_peers [''BBB'', ''CCC''] else two_peers [''CCC''])
     (bolt_signaling_peer_count (Some (two_peers [''BBB'', ''CCC''])))) = [''BBB'']"
  by code_simp

text \<open>After the daemon has died nothing stops its handle, and its socket file stays.\<close>

lemma dead_daemon_not_stopped:
  "snd (manager_stop fs (manager_poll (Inr (Some status)) m)) = fs"
  by (simp add: manager_stop_def manager_poll_def bolt_daemon_stop_def bolt_daemon_is_running_def Let_def
      split: option.split)

text \<open>A stopped daemon leaves its session behind.\<close>

lemma stop_keeps_session:
  "wt_session_active (fst (manager_stop fs m)) = wt_session_active m"
  "wt_session_sas (fst (manager_stop fs m)) = wt_session_sas m"
  by (simp_all add: manager_stop_def)

text \<open>Without a cloud server no WebTransport address is announced on the local one either.\<close>

lemma no_cloud_no_webtransport:
  "sm_handle m = None \<Longrightarrow> map_option cfg_wt_url (fst (signaling_start name local_url None url_arg hash_arg m)) = Some None"
  by (simp add: signaling_start_def bolt_signaling_start_def optional_arg_def Let_def split: prod.split)

end
